(* ===== verification/Ez_Prelude.thy ===== *)
theory Ez_Prelude
  imports Complex_Main "HOL-Library.Word" "HOL-Library.Sublist"
begin

text \<open>
  Shared vocabulary of the development: the machine types, the parts of
  \<^verbatim>\<open>std::string\<close> and \<^verbatim>\<open><cctype>\<close> the sources call, results of fallible functions, IEEE
  doubles, and the contracts that several components share (an invariant of a stepped
  component, a bounded container, a table of wire names).  Nothing here is specific to one component.
\<close>

unbundle bit_operations_syntax

named_theorems chr_simps \<open>classification of characters\<close>
named_theorems res_simps \<open>fallible results\<close>

type_synonym u8 = "8 word"
type_synonym u16 = "16 word"
type_synonym u32 = "32 word"
type_synonym u64 = "64 word"
type_synonym bytes = "8 word list"

section \<open>Characters\<close>

text \<open>
  \<^verbatim>\<open>char\<close> comparisons of the sources are between a character and ASCII literals, so the sign
  of \<^verbatim>\<open>char\<close> does not matter: a byte above 127 is in none of the ranges, read as negative or
  as large.  The \<^verbatim>\<open><cctype>\<close> predicates are those of the C locale.
\<close>

abbreviation code_of :: "char \<Rightarrow> nat" where
  "code_of c \<equiv> of_char c"

definition is_upper :: "char \<Rightarrow> bool" where
  [chr_simps]: "is_upper c \<longleftrightarrow> 65 \<le> code_of c \<and> code_of c \<le> 90"

definition is_lower :: "char \<Rightarrow> bool" where
  [chr_simps]: "is_lower c \<longleftrightarrow> 97 \<le> code_of c \<and> code_of c \<le> 122"

definition is_digit :: "char \<Rightarrow> bool" where
  [chr_simps]: "is_digit c \<longleftrightarrow> 48 \<le> code_of c \<and> code_of c \<le> 57"

definition is_alnum :: "char \<Rightarrow> bool" where
  [chr_simps]: "is_alnum c \<longleftrightarrow> is_upper c \<or> is_lower c \<or> is_digit c"

definition is_xdigit :: "char \<Rightarrow> bool" where
  [chr_simps]: "is_xdigit c \<longleftrightarrow> is_digit c \<or> (65 \<le> code_of c \<and> code_of c \<le> 70)
     \<or> (97 \<le> code_of c \<and> code_of c \<le> 102)"

definition lower_char :: "char \<Rightarrow> char" where
  "lower_char c = (if is_upper c then char_of (code_of c - 65 + 97) else c)"

lemma char_eq_iff_code: "c = d \<longleftrightarrow> code_of c = code_of d"
  by (simp add: of_char_eq_iff)

lemma lower_char_not_upper [simp]: "\<not> is_upper (lower_char c)"
  by (auto simp: lower_char_def chr_simps of_char_of)

lemma lower_char_idem [simp]: "lower_char (lower_char c) = lower_char c"
  by (metis lower_char_def lower_char_not_upper)

lemma lower_char_id: "\<not> is_upper c \<Longrightarrow> lower_char c = c"
  by (simp add: lower_char_def)

section \<open>Searching strings\<close>

text \<open>
  \<^verbatim>\<open>std::string::find\<close> and its variants.  \<^verbatim>\<open>npos\<close> is \<^const>\<open>None\<close>; a search that starts at
  position \<open>pos\<close> looks at the suffix \<open>drop pos s\<close>.
\<close>

fun first_idx :: "('a \<Rightarrow> bool) \<Rightarrow> 'a list \<Rightarrow> nat option" where
  "first_idx P [] = None"
| "first_idx P (x # xs) = (if P x then Some 0 else map_option Suc (first_idx P xs))"

fun last_idx :: "('a \<Rightarrow> bool) \<Rightarrow> 'a list \<Rightarrow> nat option" where
  "last_idx P [] = None"
| "last_idx P (x # xs) =
     (case last_idx P xs of Some i \<Rightarrow> Some (Suc i) | None \<Rightarrow> if P x then Some 0 else None)"

definition find_char :: "char \<Rightarrow> string \<Rightarrow> nat \<Rightarrow> nat option" where
  "find_char c s pos = map_option ((+) pos) (first_idx ((=) c) (drop pos s))"

definition find_any :: "string \<Rightarrow> string \<Rightarrow> nat \<Rightarrow> nat option" where
  "find_any cs s pos = map_option ((+) pos) (first_idx (\<lambda>c. c \<in> set cs) (drop pos s))"

fun find_sub :: "string \<Rightarrow> string \<Rightarrow> nat option" where
  "find_sub n [] = (if n = [] then Some 0 else None)"
| "find_sub n (x # xs) = (if prefix n (x # xs) then Some 0 else map_option Suc (find_sub n xs))"

lemma first_idx_None: "first_idx P xs = None \<longleftrightarrow> (\<forall>x\<in>set xs. \<not> P x)"
  by (induction xs) auto

lemma first_idx_SomeD:
  "first_idx P xs = Some i \<Longrightarrow> i < length xs \<and> P (xs ! i) \<and> (\<forall>x\<in>set (take i xs). \<not> P x)"
  by (induction xs arbitrary: i) (auto split: if_splits)

lemma first_idx_takeWhile:
  "first_idx P xs = Some i \<Longrightarrow> take i xs = takeWhile (\<lambda>x. \<not> P x) xs \<and> drop i xs = dropWhile (\<lambda>x. \<not> P x) xs"
  by (induction xs arbitrary: i) (auto split: if_splits)

lemma takeWhile_first_idx:
  "(case first_idx P xs of None \<Rightarrow> xs | Some i \<Rightarrow> take i xs) = takeWhile (\<lambda>x. \<not> P x) xs"
  by (induction xs) (auto split: option.splits)

lemma first_idx_append:
  "first_idx P (xs @ ys) =
     (case first_idx P xs of Some i \<Rightarrow> Some i | None \<Rightarrow> map_option ((+) (length xs)) (first_idx P ys))"
proof (induction xs)
  case Nil
  have "(+) (0::nat) = id" by auto
  then show ?case by (simp add: option.map_id)
next
  case (Cons x xs)
  then show ?case by (cases "first_idx P xs"; cases "first_idx P ys") simp_all
qed

lemma last_idx_None: "last_idx P xs = None \<longleftrightarrow> (\<forall>x\<in>set xs. \<not> P x)"
  by (induction xs) (auto split: option.splits)

lemma last_idx_SomeD:
  "last_idx P xs = Some i \<Longrightarrow> i < length xs \<and> P (xs ! i) \<and> (\<forall>x\<in>set (drop (Suc i) xs). \<not> P x)"
  by (induction xs arbitrary: i) (auto simp: last_idx_None split: if_splits option.splits)

lemma find_sub_SomeD: "find_sub n s = Some i \<Longrightarrow> \<exists>r. s = take i s @ n @ r \<and> i + length n \<le> length s"
proof (induction n s arbitrary: i rule: find_sub.induct)
  case (1 n)
  then show ?case by (auto split: if_splits)
next
  case (2 n x xs)
  show ?case
  proof (cases "prefix n (x # xs)")
    case True
    then obtain r where r: "x # xs = n @ r" by (auto simp: prefix_def)
    have len: "length n \<le> length (x # xs)" using prefix_length_le [OF True] .
    from True "2.prems" have "i = 0" by simp
    with r len show ?thesis by (intro exI [of _ r]) (simp only: take_0 append_Nil, simp)
  next
    case False
    with "2.prems" obtain j where j: "find_sub n xs = Some j" "i = Suc j" by auto
    from "2.IH" [OF False j(1)] obtain r where "xs = take j xs @ n @ r" "j + length n \<le> length xs"
      by blast
    with j(2) show ?thesis by (intro exI [of _ r]) simp
  qed
qed

text \<open>A text as C code sees it: up to its first NUL.\<close>

definition c_str :: "string \<Rightarrow> string" where
  "c_str s = takeWhile (\<lambda>c. c \<noteq> CHR 0x00) s"

section \<open>Fallible results\<close>

text \<open>
  A function that returns \<^verbatim>\<open>false\<close> and fills an error is a function into a sum: \<^const>\<open>Inl\<close>
  carries the error, \<^const>\<open>Inr\<close> the result.  \<open>res_bind\<close> is the early return.
\<close>

definition res_bind :: "'e + 'a \<Rightarrow> ('a \<Rightarrow> 'e + 'b) \<Rightarrow> 'e + 'b" where
  "res_bind m f = (case m of Inl e \<Rightarrow> Inl e | Inr x \<Rightarrow> f x)"

lemma res_bind_simps [simp]:
  "res_bind (Inl e) f = Inl e"
  "res_bind (Inr x) f = f x"
  by (simp_all add: res_bind_def)

lemma res_bind_Inr [res_simps]: "res_bind m f = Inr y \<longleftrightarrow> (\<exists>x. m = Inr x \<and> f x = Inr y)"
  by (cases m) auto

lemma res_bind_Inl [res_simps]:
  "res_bind m f = Inl e \<longleftrightarrow> m = Inl e \<or> (\<exists>x. m = Inr x \<and> f x = Inl e)"
  by (cases m) auto

lemma res_bind_assoc: "res_bind (res_bind m f) g = res_bind m (\<lambda>x. res_bind (f x) g)"
  by (cases m) auto

definition is_ok :: "'e + 'a \<Rightarrow> bool" where
  "is_ok r = (case r of Inl _ \<Rightarrow> False | Inr _ \<Rightarrow> True)"

lemma is_ok_simps [simp]: "is_ok (Inr x)" "\<not> is_ok (Inl e)"
  by (simp_all add: is_ok_def)

lemma is_ok_bind_iff: "is_ok (res_bind m f) \<longleftrightarrow> (\<exists>x. m = Inr x \<and> is_ok (f x))"
  by (cases m) auto

section \<open>Hexadecimal\<close>

definition hex_digit :: "nat \<Rightarrow> char" where
  "hex_digit n = ''0123456789abcdef'' ! n"

definition hex_byte :: "u8 \<Rightarrow> string" where
  "hex_byte b = [hex_digit (unat (drop_bit 4 b)), hex_digit (unat (b AND 15))]"

definition is_lower_hex :: "char \<Rightarrow> bool" where
  "is_lower_hex c \<longleftrightarrow> is_digit c \<or> (97 \<le> code_of c \<and> code_of c \<le> 102)"

lemma less_16_cases: "n < 16 \<Longrightarrow> n \<in> {0, 1, 2, 3, 4, 5, 6, 7, 8, 9, 10, 11, 12, 13, 14, 15::nat}"
  by (simp add: numeral_eq_Suc less_Suc_eq)

lemma hex_digit_lower_hex: "n < 16 \<Longrightarrow> is_lower_hex (hex_digit n)"
  by (drule less_16_cases) (auto simp: hex_digit_def is_lower_hex_def is_digit_def)

lemma hex_digit_inj: "n < 16 \<Longrightarrow> m < 16 \<Longrightarrow> hex_digit n = hex_digit m \<Longrightarrow> n = m"
  unfolding hex_digit_def
  by (rule nth_eq_iff_index_eq[THEN iffD1]) auto

lemma unat_low_nibble: "unat (b AND 15 :: u8) < 16"
proof -
  have "unat (b AND 15) \<le> unat (15 :: u8)"
    by (rule word_and_le1 [THEN word_le_nat_alt [THEN iffD1]])
  then show ?thesis by simp
qed

lemma unat_high_nibble: "unat (drop_bit 4 b :: u8) < 16"
proof -
  have "unat b < 256" using unsigned_less [of b] by simp
  then show ?thesis by (simp add: drop_bit_eq_div unat_div)
qed

lemma hex_byte_lower_hex: "c \<in> set (hex_byte b) \<Longrightarrow> is_lower_hex c"
  by (auto simp: hex_byte_def hex_digit_lower_hex unat_low_nibble unat_high_nibble)

lemma length_hex_byte [simp]: "length (hex_byte b) = 2"
  by (simp add: hex_byte_def)

lemma length_hex_bytes: "length (concat (map hex_byte bs)) = 2 * length bs"
  by (induction bs) auto

section \<open>Decimal\<close>

definition dec_digit :: "nat \<Rightarrow> char" where
  "dec_digit n = char_of (48 + n)"

text \<open>\<^verbatim>\<open>std::to_string\<close> of a natural number.\<close>

fun dec :: "nat \<Rightarrow> string" where
  "dec n = (if n < 10 then [dec_digit n] else dec (n div 10) @ [dec_digit (n mod 10)])"

declare dec.simps [simp del]

lemma code_dec_digit: "n < 10 \<Longrightarrow> code_of (dec_digit n) = 48 + n"
  by (simp add: dec_digit_def of_char_of)

lemma dec_digit_is_digit: "n < 10 \<Longrightarrow> is_digit (dec_digit n)"
  by (simp add: is_digit_def code_dec_digit)

lemma dec_digits: "list_all is_digit (dec n)"
  by (induction n rule: dec.induct) (subst dec.simps, simp add: dec_digit_is_digit)

section \<open>Doubles\<close>

text \<open>
  A finite IEEE binary64 value is the rational it denotes.  \<open>rnd\<close> rounds a non-negative
  rational to 53 significant bits, ties to even, which is how a literal is read and how a
  sum is stored.  The scores the sources compute lie in the range \<open>[2\<^sup>-\<^sup>1\<^sup>0, 2)\<close>, where every
  double is normal, so no other part of the format is needed.
\<close>

type_synonym double = rat

fun scale_up :: "nat \<Rightarrow> rat \<Rightarrow> nat \<times> rat" where
  "scale_up 0 x = (0, x)"
| "scale_up (Suc n) x = (if x < 1 then (let (k, y) = scale_up n (2 * x) in (Suc k, y)) else (0, x))"

definition round_even :: "rat \<Rightarrow> int" where
  "round_even x = (let f = \<lfloor>x\<rfloor>; r = x - of_int f in
     if r < 1/2 then f else if 1/2 < r then f + 1 else if even f then f else f + 1)"

definition rnd :: "rat \<Rightarrow> double" where
  "rnd x = (if x = 0 then 0
            else let (k, y) = scale_up 11 x in of_int (round_even (y * 2 ^ 52)) / 2 ^ (52 + k))"

definition fadd :: "double \<Rightarrow> double \<Rightarrow> double" where
  "fadd x y = rnd (x + y)"

lemma scale_up_11:
  "scale_up 11 x = scale_up (Suc (Suc (Suc (Suc (Suc (Suc (Suc (Suc (Suc (Suc (Suc 0))))))))))) x"
  by (simp add: numeral_eq_Suc)

lemma floor_numeral_frac: "\<lfloor>numeral a / numeral b :: rat\<rfloor> = numeral a div numeral b"
  by (metis floor_divide_of_int_eq of_int_numeral)

text \<open>Evaluates \<^const>\<open>rnd\<close> on a quotient of numerals.\<close>

lemmas rnd_eval = rnd_def scale_up_11 round_even_def floor_numeral_frac

section \<open>Contracts shared by several components\<close>

text \<open>
  A component driven by a sequence of operations, and an invariant of its state: the law is
  that one operation keeps it, and clients get it for every sequence.
\<close>

locale step_invariant =
  fixes step :: "'op \<Rightarrow> 's \<Rightarrow> 's" and inv :: "'s \<Rightarrow> bool"
  assumes step_keeps: "inv s \<Longrightarrow> inv (step op s)"
begin

lemma run_keeps: "inv s \<Longrightarrow> inv (fold step ops s)"
  by (induction ops arbitrary: s) (simp_all add: step_keeps)

end

text \<open>
  A container with a declared capacity is one of them: its invariant is the bound.
\<close>

locale bounded_container =
  fixes size_of :: "'s \<Rightarrow> nat" and grow :: "'op \<Rightarrow> 's \<Rightarrow> 's" and cap :: nat
  assumes grow_bounded: "size_of s \<le> cap \<Longrightarrow> size_of (grow op s) \<le> cap"

sublocale bounded_container \<subseteq> bound: step_invariant grow "\<lambda>s. size_of s \<le> cap"
  by unfold_locales (rule grow_bounded)

context bounded_container
begin

lemmas run_bounded = bound.run_keeps

end

text \<open>
  A table of wire names: every value has a name and its name reads back as the value.
\<close>

locale wire_names =
  fixes name_of :: "'e \<Rightarrow> string" and from_name :: "string \<Rightarrow> 'e option"
  assumes from_name_of [simp]: "from_name (name_of e) = Some e"
begin

lemma name_inj: "name_of e = name_of e' \<longleftrightarrow> e = e'"
  by (metis from_name_of option.inject)

end

text \<open>The names are the only accepted spellings.\<close>

locale exact_wire_names = wire_names +
  assumes from_name_exact: "from_name s = Some e \<Longrightarrow> s = name_of e"
begin

lemma from_name_iff: "from_name s = Some e \<longleftrightarrow> s = name_of e"
  by (auto dest: from_name_exact)

lemma from_name_None_iff: "from_name s = None \<longleftrightarrow> s \<notin> range name_of"
proof
  assume "from_name s = None"
  then show "s \<notin> range name_of" by auto
next
  assume "s \<notin> range name_of"
  then show "from_name s = None" by (cases "from_name s") (auto simp: from_name_iff)
qed

end

text \<open>The names are accepted up to the case of ASCII letters.\<close>

locale folded_wire_names = wire_names +
  assumes from_name_fold: "from_name s = Some e \<longleftrightarrow> map lower_char s = name_of e"
begin

lemma from_name_case_insensitive:
  "map lower_char s = map lower_char t \<Longrightarrow> from_name s = from_name t"
  using from_name_fold [of s] from_name_fold [of t] by (metis not_Some_eq)

end

end
