(* ===== verification/Ez_Sha256.thy ===== *)
theory Ez_Sha256
  imports Ez_Prelude
begin

text \<open>
  \<^verbatim>\<open>src/common/sha256.cpp\<close>: the incremental SHA-256.  The object is a record of its four
  members; \<^verbatim>\<open>buffer_\<close> keeps its 64 bytes and \<open>sh_buffer_used\<close> says how many of them are pending.
  The reference is the padding and the block chaining of FIPS 180-4 over the whole message,
  with the compression function of the code.

  The lemmas show that the object represents the message fed so far, whatever the pieces it
  was fed in, that the padding loop of \<^verbatim>\<open>final\<close> stops, and that the digest is the reference one.
\<close>

section \<open>The code\<close>

text \<open>The 64 round constants, in decimal; the source writes the same numbers in hexadecimal.\<close>

definition kRoundConstants :: "u32 list" where
  "kRoundConstants =
    [1116352408, 1899447441, 3049323471, 3921009573, 961987163, 1508970993, 2453635748, 2870763221,
     3624381080, 310598401, 607225278, 1426881987, 1925078388, 2162078206, 2614888103, 3248222580,
     3835390401, 4022224774, 264347078, 604807628, 770255983, 1249150122, 1555081692, 1996064986,
     2554220882, 2821834349, 2952996808, 3210313671, 3336571891, 3584528711, 113926993, 338241895,
     666307205, 773529912, 1294757372, 1396182291, 1695183700, 1986661051, 2177026350, 2456956037,
     2730485921, 2820302411, 3259730800, 3345764771, 3516065817, 3600352804, 4094571909, 275423344,
     430227734, 506948616, 659060556, 883997877, 958139571, 1322822218, 1537002063, 1747873779,
     1955562222, 2024104815, 2227730452, 2361852424, 2428436474, 2756734187, 3204031479, 3329325298]"

definition rotate_right :: "u32 \<Rightarrow> nat \<Rightarrow> u32" where
  "rotate_right v n = drop_bit n v OR push_bit (32 - n) v"

record sha256 =
  sh_state :: "u32 list"
  sh_total_bits :: u64
  sh_buffer :: bytes
  sh_buffer_used :: nat

definition initial_state :: "u32 list" where
  "initial_state = [0x6a09e667, 0xbb67ae85, 0x3c6ef372, 0xa54ff53a,
                    0x510e527f, 0x9b05688c, 0x1f83d9ab, 0x5be0cd19]"

definition sha256_reset :: sha256 where
  "sha256_reset = \<lparr>sh_state = initial_state, sh_total_bits = 0,
     sh_buffer = replicate 64 0, sh_buffer_used = 0\<rparr>"

definition be_word :: "bytes \<Rightarrow> nat \<Rightarrow> u32" where
  "be_word block i = push_bit 24 (ucast (block ! (i * 4))) OR push_bit 16 (ucast (block ! (i * 4 + 1)))
     OR push_bit 8 (ucast (block ! (i * 4 + 2))) OR ucast (block ! (i * 4 + 3))"

text \<open>One more word of the message schedule; the words computed so far are the list.\<close>

definition schedule_step :: "u32 list \<Rightarrow> u32 list" where
  "schedule_step w = (let i = length w;
       s0 = rotate_right (w ! (i - 15)) 7 XOR rotate_right (w ! (i - 15)) 18 XOR drop_bit 3 (w ! (i - 15));
       s1 = rotate_right (w ! (i - 2)) 17 XOR rotate_right (w ! (i - 2)) 19 XOR drop_bit 10 (w ! (i - 2))
     in w @ [w ! (i - 16) + s0 + w ! (i - 7) + s1])"

definition schedule :: "bytes \<Rightarrow> u32 list" where
  "schedule block = (schedule_step ^^ 48) (map (be_word block) [0..<16])"

type_synonym working = "u32 \<times> u32 \<times> u32 \<times> u32 \<times> u32 \<times> u32 \<times> u32 \<times> u32"

fun sha_round :: "u32 \<times> u32 \<Rightarrow> working \<Rightarrow> working" where
  "sha_round (k, w) (a, b, c, d, e, f, g, h) =
     (let s1 = rotate_right e 6 XOR rotate_right e 11 XOR rotate_right e 25;
          ch = (e AND f) XOR (NOT e AND g);
          temp1 = h + s1 + ch + k + w;
          s0 = rotate_right a 2 XOR rotate_right a 13 XOR rotate_right a 22;
          maj = (a AND b) XOR (a AND c) XOR (b AND c);
          temp2 = s0 + maj
      in (temp1 + temp2, a, b, c, d + temp1, e, f, g))"

definition process_block :: "u32 list \<Rightarrow> bytes \<Rightarrow> u32 list" where
  "process_block st block =
     (let (a, b, c, d, e, f, g, h) =
        fold sha_round (zip kRoundConstants (schedule block))
          (st ! 0, st ! 1, st ! 2, st ! 3, st ! 4, st ! 5, st ! 6, st ! 7)
      in [st ! 0 + a, st ! 1 + b, st ! 2 + c, st ! 3 + d,
          st ! 4 + e, st ! 5 + f, st ! 6 + g, st ! 7 + h])"

definition memcpy :: "bytes \<Rightarrow> nat \<Rightarrow> bytes \<Rightarrow> bytes" where
  "memcpy dst off src = take off dst @ src @ drop (off + length src) dst"

text \<open>The three phases of \<^verbatim>\<open>update\<close>: fill the buffer, whole blocks, tail.\<close>

definition update_fill :: "sha256 \<Rightarrow> bytes \<Rightarrow> sha256 \<times> bytes" where
  "update_fill s data =
     (if 0 < sh_buffer_used s then
        let need = 64 - sh_buffer_used s;
            tk = min need (length data);
            buf = memcpy (sh_buffer s) (sh_buffer_used s) (take tk data);
            used = sh_buffer_used s + tk;
            s1 = s\<lparr>sh_buffer := buf, sh_buffer_used := used\<rparr>
        in (if used = 64 then s1\<lparr>sh_state := process_block (sh_state s) buf, sh_buffer_used := 0\<rparr> else s1,
            drop tk data)
      else (s, data))"

function whole_blocks :: "u32 list \<Rightarrow> bytes \<Rightarrow> u32 list \<times> bytes" where
  "whole_blocks st data =
     (if 64 \<le> length data then whole_blocks (process_block st (take 64 data)) (drop 64 data)
      else (st, data))"
  by pat_completeness auto
termination
  by (relation "measure (\<lambda>(st, data). length data)") auto

declare whole_blocks.simps [simp del]

definition sha256_update :: "sha256 \<Rightarrow> bytes \<Rightarrow> sha256" where
  "sha256_update s data =
     (let s0 = s\<lparr>sh_total_bits := sh_total_bits s + of_nat (length data) * 8\<rparr>;
          (s1, rest) = update_fill s0 data;
          (st, tail) = whole_blocks (sh_state s1) rest;
          s2 = s1\<lparr>sh_state := st\<rparr>
      in if tail \<noteq> [] then s2\<lparr>sh_buffer := memcpy (sh_buffer s2) 0 tail, sh_buffer_used := length tail\<rparr>
         else s2)"

text \<open>The padding loop of \<^verbatim>\<open>final\<close>; \<^const>\<open>None\<close> is a loop that never stops.\<close>

partial_function (option) pad_zeros :: "sha256 \<Rightarrow> sha256 option" where
  "pad_zeros s = (if sh_buffer_used s = 56 then Some s else pad_zeros (sha256_update s [0]))"

definition length_bytes :: "u64 \<Rightarrow> bytes" where
  "length_bytes bits = map (\<lambda>i. ucast (drop_bit (56 - i * 8) bits)) [0..<8]"

definition word_bytes :: "u32 \<Rightarrow> bytes" where
  "word_bytes w = [ucast (drop_bit 24 w), ucast (drop_bit 16 w), ucast (drop_bit 8 w), ucast w]"

definition sha256_final :: "sha256 \<Rightarrow> (bytes \<times> sha256) option" where
  "sha256_final s =
     (let bits = sh_total_bits s in
      case pad_zeros (sha256_update s [0x80]) of
        None \<Rightarrow> None
      | Some p \<Rightarrow>
          let q = sha256_update (p\<lparr>sh_total_bits := bits\<rparr>) (length_bytes bits)
          in Some (concat (map (\<lambda>i. word_bytes (sh_state q ! i)) [0..<8]), sha256_reset))"

definition string_bytes :: "string \<Rightarrow> bytes" where
  "string_bytes s = map (\<lambda>c. of_nat (of_char c)) s"

definition sha256_digest :: "string \<Rightarrow> bytes option" where
  "sha256_digest text = map_option fst (sha256_final (sha256_update sha256_reset (string_bytes text)))"

definition hex_digest :: "string \<Rightarrow> string option" where
  "hex_digest text = map_option (\<lambda>raw. concat (map hex_byte raw)) (sha256_digest text)"

section \<open>The reference\<close>

definition pad_count :: "nat \<Rightarrow> nat" where
  "pad_count n = (let r = n mod 64 in if r \<le> 55 then 55 - r else 119 - r)"

definition sha256_pad :: "bytes \<Rightarrow> bytes" where
  "sha256_pad m = m @ [0x80] @ replicate (pad_count (length m)) 0 @ length_bytes (of_nat (8 * length m))"

definition sha256_reference :: "bytes \<Rightarrow> bytes" where
  "sha256_reference m =
     concat (map word_bytes (fst (whole_blocks initial_state (sha256_pad m))))"

section \<open>The object represents the message\<close>

definition represents :: "sha256 \<Rightarrow> bytes \<Rightarrow> bool" where
  "represents s m \<longleftrightarrow>
     length (sh_buffer s) = 64 \<and> sh_buffer_used s = length m mod 64
     \<and> whole_blocks initial_state m = (sh_state s, take (sh_buffer_used s) (sh_buffer s))"

lemma whole_blocks_short: "length data < 64 \<Longrightarrow> whole_blocks st data = (st, data)"
  by (simp add: whole_blocks.simps)

lemma whole_blocks_rest: "whole_blocks st data = (st', rest) \<Longrightarrow>
    length rest = length data mod 64"
proof (induction st data rule: whole_blocks.induct)
  case (1 st data)
  then show ?case
    by (cases "64 \<le> length data") (auto simp: whole_blocks.simps [of st data] le_mod_geq)
qed

lemma whole_blocks_append:
  "whole_blocks st (a @ b) = (let (st', r) = whole_blocks st a in whole_blocks st' (r @ b))"
proof (induction st a rule: whole_blocks.induct)
  case (1 st a)
  show ?case
  proof (cases "64 \<le> length a")
    case True
    then have "whole_blocks st (a @ b) = whole_blocks (process_block st (take 64 a)) (drop 64 a @ b)"
      by (simp add: whole_blocks.simps [of st "a @ b"])
    also have "\<dots> = (let (st', r) = whole_blocks st a in whole_blocks st' (r @ b))"
      using True by (simp add: "1.IH" whole_blocks.simps [of st a])
    finally show ?thesis .
  next
    case False
    then show ?thesis by (simp add: whole_blocks_short)
  qed
qed

lemma represents_reset: "represents sha256_reset []"
  by (simp add: represents_def sha256_reset_def whole_blocks_short)

lemma memcpy_take: "off \<le> length dst \<Longrightarrow> take (off + length src) (memcpy dst off src) = take off dst @ src"
  by (simp add: memcpy_def)

lemma length_memcpy: "off + length src \<le> length dst \<Longrightarrow> length (memcpy dst off src) = length dst"
  by (simp add: memcpy_def)

text \<open>
  After the fill phase the pending bytes and the rest of the data are the bytes that were
  pending before followed by the data, up to one block that was processed.
\<close>

lemma update_fill_correct:
  assumes len: "length (sh_buffer s) = 64" and used: "sh_buffer_used s < 64"
    and fill: "update_fill s data = (s1, rest)"
  shows "length (sh_buffer s1) = 64 \<and> sh_buffer_used s1 < 64 \<and> (sh_buffer_used s1 = 0 \<or> rest = [])
     \<and> sh_total_bits s1 = sh_total_bits s
     \<and> whole_blocks (sh_state s) (take (sh_buffer_used s) (sh_buffer s) @ data)
         = whole_blocks (sh_state s1) (take (sh_buffer_used s1) (sh_buffer s1) @ rest)"
proof (cases "sh_buffer_used s = 0")
  case True
  with fill len show ?thesis by (auto simp: update_fill_def)
next
  case False
  define tk where "tk = min (64 - sh_buffer_used s) (length data)"
  define buf where "buf = memcpy (sh_buffer s) (sh_buffer_used s) (take tk data)"
  have lt: "length (take tk data) = tk" by (simp add: tk_def)
  have lb: "length buf = 64" and
    tb: "take (sh_buffer_used s + tk) buf = take (sh_buffer_used s) (sh_buffer s) @ take tk data"
    using len used lt memcpy_take [of "sh_buffer_used s" "sh_buffer s" "take tk data"]
    by (auto simp: buf_def length_memcpy tk_def)
  show ?thesis
  proof (cases "sh_buffer_used s + tk = 64")
    case True
    have s1: "s1 = s\<lparr>sh_buffer := buf, sh_state := process_block (sh_state s) buf, sh_buffer_used := 0\<rparr>"
      and rest: "rest = drop tk data"
      using fill False True by (auto simp: update_fill_def Let_def simp flip: tk_def buf_def)
    have "whole_blocks (sh_state s) (take 64 buf @ drop tk data)
        = whole_blocks (process_block (sh_state s) buf) (drop tk data)"
      using lb by (subst whole_blocks.simps) simp
    moreover have "take 64 buf @ drop tk data = take (sh_buffer_used s) (sh_buffer s) @ data"
      using tb True by simp
    ultimately show ?thesis using lb by (simp add: s1 rest)
  next
    case nf: False
    then have "tk = length data" using used by (auto simp: tk_def)
    then show ?thesis
      using fill False nf tb lb used
      by (auto simp: update_fill_def Let_def tk_def buf_def min_def split: if_splits)
  qed
qed

lemma represents_update:
  assumes "represents s m"
  shows "represents (sha256_update s d) (m @ d)"
proof -
  define s0 where "s0 = s\<lparr>sh_total_bits := sh_total_bits s + of_nat (length d) * 8\<rparr>"
  obtain s1 rest where f: "update_fill s0 d = (s1, rest)" by fastforce
  obtain st tail where w: "whole_blocks (sh_state s1) rest = (st, tail)" by fastforce
  have fc: "length (sh_buffer s1) = 64" "sh_buffer_used s1 < 64" "sh_buffer_used s1 = 0 \<or> rest = []"
    "whole_blocks (sh_state s) (take (sh_buffer_used s) (sh_buffer s) @ d)
       = whole_blocks (sh_state s1) (take (sh_buffer_used s1) (sh_buffer s1) @ rest)"
    using update_fill_correct [OF _ _ f] assms by (auto simp: s0_def represents_def)
  have md: "whole_blocks initial_state (m @ d)
      = whole_blocks (sh_state s) (take (sh_buffer_used s) (sh_buffer s) @ d)"
  proof -
    have "whole_blocks initial_state m = (sh_state s, take (sh_buffer_used s) (sh_buffer s))"
      using assms by (simp add: represents_def)
    then show ?thesis by (subst whole_blocks_append) simp
  qed
  have lt: "length tail < 64" using whole_blocks_rest [OF w] by simp
  define s' where "s' = sha256_update s d"
  have s': "s' = (if tail \<noteq> []
      then s1\<lparr>sh_state := st, sh_buffer := memcpy (sh_buffer s1) 0 tail, sh_buffer_used := length tail\<rparr>
      else s1\<lparr>sh_state := st\<rparr>)"
    using f w by (simp add: s'_def sha256_update_def s0_def)
  have lb: "length (sh_buffer s') = 64" "sh_buffer_used s' < 64"
    using fc lt by (auto simp: s' length_memcpy)
  have wb: "whole_blocks initial_state (m @ d) = (sh_state s', take (sh_buffer_used s') (sh_buffer s'))"
  proof (cases "rest = []")
    case True
    with w have "tail = []" "st = sh_state s1" by (auto simp: whole_blocks_short)
    with True fc md show ?thesis by (simp add: s' whole_blocks_short)
  next
    case False
    with fc have "sh_buffer_used s1 = 0" by simp
    with fc md w show ?thesis
      by (auto simp: s' memcpy_def)
  qed
  moreover have "sh_buffer_used s' = length (m @ d) mod 64"
    using whole_blocks_rest [OF wb] lb by simp
  ultimately show ?thesis using lb by (simp add: represents_def s'_def)
qed

lemma represents_fold: "represents s m \<Longrightarrow> represents (fold (\<lambda>d s. sha256_update s d) ds s) (m @ concat ds)"
  by (induction ds arbitrary: s m) (simp_all add: represents_update flip: append_assoc)

lemma update_total_bits [simp]:
  "sh_total_bits (sha256_update s d) = sh_total_bits s + of_nat (length d) * 8"
  by (auto simp: sha256_update_def update_fill_def Let_def split: prod.splits)

lemma fold_total_bits:
  "sh_total_bits (fold (\<lambda>d s. sha256_update s d) ds s) = sh_total_bits s + of_nat (8 * length (concat ds))"
  by (induction ds arbitrary: s) (simp_all add: algebra_simps)

section \<open>The padding loop\<close>

text \<open>The number of zero bytes still to be written decreases with each of them.\<close>

definition zeros_left :: "nat \<Rightarrow> nat" where
  "zeros_left n = (let r = n mod 64 in if r \<le> 56 then 56 - r else 120 - r)"

lemma zeros_left_Suc: "n mod 64 \<noteq> 56 \<Longrightarrow> zeros_left n = Suc (zeros_left (Suc n))"
  by (auto simp: zeros_left_def Let_def mod_Suc)

lemma zeros_left_0: "n mod 64 = 56 \<longleftrightarrow> zeros_left n = 0"
  using mod_less_divisor [of 64 n] by (auto simp: zeros_left_def Let_def)

lemma pad_zeros_returns:
  "represents s m \<Longrightarrow> \<exists>p. pad_zeros s = Some p \<and> represents p (m @ replicate (zeros_left (length m)) 0)"
proof (induction "zeros_left (length m)" arbitrary: s m)
  case 0
  then have "length m mod 64 = 56" by (simp add: zeros_left_0)
  with 0 have "pad_zeros s = Some s" by (subst pad_zeros.simps) (simp add: represents_def)
  with 0 show ?case by (metis append_Nil2 replicate_0)
next
  case (Suc k)
  then have ne: "length m mod 64 \<noteq> 56" by (metis zeros_left_0 nat.distinct(1))
  have k: "k = zeros_left (length (m @ [0]))" using Suc(2) zeros_left_Suc [OF ne] by simp
  from represents_update [OF Suc.prems] have "represents (sha256_update s [0]) (m @ [0])" .
  from Suc.hyps(1) [OF k this] obtain p where
    p: "pad_zeros (sha256_update s [0]) = Some p" "represents p ((m @ [0]) @ replicate k 0)"
    using k by auto
  have "pad_zeros s = Some p"
    using p(1) ne Suc.prems by (subst pad_zeros.simps) (simp add: represents_def)
  moreover have "(m @ [0]) @ replicate k 0 = m @ replicate (zeros_left (length m)) 0"
    using Suc(2) by (metis append.assoc append_Cons append_Nil replicate_Suc)
  ultimately show ?case using p(2) by simp
qed

lemma represents_total_bits_irrelevant: "represents (p\<lparr>sh_total_bits := b\<rparr>) m \<longleftrightarrow> represents p m"
  by (simp add: represents_def)

lemma pad_count_zeros_left: "zeros_left (Suc n) = pad_count n"
  by (auto simp: zeros_left_def pad_count_def Let_def mod_Suc)

lemma length_length_bytes [simp]: "length (length_bytes b) = 8"
  by (simp add: length_bytes_def)

lemma length_process_block [simp]: "length (process_block st b) = 8"
  by (simp add: process_block_def split: prod.splits)

lemma length_whole_blocks_state: "length st = 8 \<Longrightarrow> length (fst (whole_blocks st data)) = 8"
proof (induction st data rule: whole_blocks.induct)
  case (1 st data)
  then show ?case by (cases "64 \<le> length data") (simp_all add: whole_blocks.simps [of st data])
qed

lemma concat_index: "length xs = n \<Longrightarrow> concat (map (\<lambda>i. f (xs ! i)) [0..<n]) = concat (map f xs)"
proof -
  assume "length xs = n"
  then have "map (\<lambda>i. f (xs ! i)) [0..<n] = map f (map ((!) xs) [0..<length xs])" by simp
  then show ?thesis by (simp only: map_nth)
qed

lemma final_correct:
  assumes "represents s m" and "sh_total_bits s = of_nat (8 * length m)"
  shows "sha256_final s = Some (sha256_reference m, sha256_reset)"
proof -
  have "represents (sha256_update s [0x80]) (m @ [0x80])" using assms(1) by (rule represents_update)
  from pad_zeros_returns [OF this] obtain p where p: "pad_zeros (sha256_update s [0x80]) = Some p"
    "represents p ((m @ [0x80]) @ replicate (pad_count (length m)) 0)"
    by (auto simp: pad_count_zeros_left)
  define q where "q = sha256_update (p\<lparr>sh_total_bits := sh_total_bits s\<rparr>) (length_bytes (sh_total_bits s))"
  have "represents q (sha256_pad m)"
    using represents_update [of "p\<lparr>sh_total_bits := sh_total_bits s\<rparr>"
        "(m @ [0x80]) @ replicate (pad_count (length m)) 0" "length_bytes (sh_total_bits s)"] p(2)
    by (simp add: q_def sha256_pad_def represents_total_bits_irrelevant assms(2))
  then have "sh_state q = fst (whole_blocks initial_state (sha256_pad m))"
    by (metis represents_def fst_conv)
  moreover have "length (fst (whole_blocks initial_state (sha256_pad m))) = 8"
    by (rule length_whole_blocks_state) (simp add: initial_state_def)
  ultimately show ?thesis
    using p(1) by (simp add: sha256_final_def sha256_reference_def concat_index flip: q_def)
qed

lemma length_pad: "64 dvd length (sha256_pad m)"
proof -
  obtain q r where n: "length m = 64 * q + r" "r < 64"
    using mult_div_mod_eq [of 64 "length m"] mod_less_divisor [of 64 "length m"] by (metis zero_less_numeral)
  then have "r \<le> 55 \<Longrightarrow> length (sha256_pad m) = 64 * (q + 1)"
    and "\<not> r \<le> 55 \<Longrightarrow> length (sha256_pad m) = 64 * (q + 2)"
    by (simp_all add: sha256_pad_def pad_count_def)
  then show ?thesis by (metis dvd_triv_left)
qed

lemma length_word_bytes [simp]: "length (word_bytes w) = 4"
  by (simp add: word_bytes_def)

lemma length_concat_word_bytes: "length (concat (map word_bytes ws)) = 4 * length ws"
  by (induction ws) simp_all

lemma length_reference: "length (sha256_reference m) = 32"
  by (simp add: sha256_reference_def length_concat_word_bytes length_whole_blocks_state initial_state_def)

lemma final_after_chunks:
  "sha256_final (fold (\<lambda>d s. sha256_update s d) ds sha256_reset) =
     Some (sha256_reference (concat ds), sha256_reset)"
proof (rule final_correct)
  show "represents (fold (\<lambda>d s. sha256_update s d) ds sha256_reset) (concat ds)"
    using represents_fold [OF represents_reset, of ds] by simp
  show "sh_total_bits (fold (\<lambda>d s. sha256_update s d) ds sha256_reset) = of_nat (8 * length (concat ds))"
    by (simp only: fold_total_bits) (simp add: sha256_reset_def)
qed

lemma digest_reference: "sha256_digest t = Some (sha256_reference (string_bytes t))"
  using final_after_chunks [of "[string_bytes t]"] by (simp add: sha256_digest_def)

text \<open>
  C10: feeding a message to the streaming object in any pieces (empty ones, pieces that end
  inside a block and pieces of many blocks included) and finishing gives the digest of the
  one-shot reference on the concatenated message; the padding loop returns, and the object
  is left reset.
\<close>

theorem sha256_streaming:
  "sha256_final (fold (\<lambda>d s. sha256_update s d) ds sha256_reset) =
     Some (sha256_reference (concat ds), sha256_reset)"
  by (rule final_after_chunks)

text \<open>
  The hexadecimal digest of every text exists and is exactly 64 characters, all of them
  lower-case hexadecimal digits (the shape the manifest hash check compares against).
\<close>

theorem hex_digest_shape:
  "\<exists>h. hex_digest t = Some h \<and> length h = 64 \<and> list_all is_lower_hex h"
  by (auto simp: hex_digest_def digest_reference length_hex_bytes length_reference list_all_iff
      dest: hex_byte_lower_hex)

end
