(* ===== verification/Ez_Sha256_Vector.thy ===== *)
theory Ez_Sha256_Vector
  imports Ez_Sha256
begin

text \<open>
  The one-block example of FIPS 180-4 on the model of \<^verbatim>\<open>src/common/sha256.cpp\<close>,
  evaluated by the simplifier in pieces of a few rounds.  The streaming lemmas of
  Ez_Sha256 relate the object to a reference that shares the compression function; this
  vector pins the compression function itself: the round constants, the initial state, the
  schedule, the rotations and the byte order.
\<close>

lemma funpow_numeral: "(f ^^ numeral k) x = (f ^^ pred_numeral k) (f x)"
  by (simp add: numeral_eq_Suc funpow_swap1)

lemma schedule_abc_1:
  "(schedule_step ^^ 8)
    [0x61626380, 0, 0, 0, 0, 0, 0, 0,
     0, 0, 0, 0, 0, 0, 0, 0x18] =
    [0x61626380, 0, 0, 0, 0, 0, 0, 0,
     0, 0, 0, 0, 0, 0, 0, 0x18,
     0x61626380, 0xf0000, 0x7da86405, 0x600003c6, 0x3e9d7b78, 0x183fc00, 0x12dcbfdb, 0xe2e2c38e]"
  by (simp add: funpow_numeral schedule_step_def Let_def rotate_right_def)

lemma schedule_abc_2:
  "(schedule_step ^^ 8)
    [0x61626380, 0, 0, 0, 0, 0, 0, 0,
     0, 0, 0, 0, 0, 0, 0, 0x18,
     0x61626380, 0xf0000, 0x7da86405, 0x600003c6, 0x3e9d7b78, 0x183fc00, 0x12dcbfdb, 0xe2e2c38e] =
    [0x61626380, 0, 0, 0, 0, 0, 0, 0,
     0, 0, 0, 0, 0, 0, 0, 0x18,
     0x61626380, 0xf0000, 0x7da86405, 0x600003c6, 0x3e9d7b78, 0x183fc00, 0x12dcbfdb, 0xe2e2c38e,
     0xc8215c1a, 0xb73679a2, 0xe5bc3909, 0x32663c5b, 0x9d209d67, 0xec8726cb, 0x702138a4, 0xd3b7973b]"
  by (simp add: funpow_numeral schedule_step_def Let_def rotate_right_def)

lemma schedule_abc_3:
  "(schedule_step ^^ 8)
    [0x61626380, 0, 0, 0, 0, 0, 0, 0,
     0, 0, 0, 0, 0, 0, 0, 0x18,
     0x61626380, 0xf0000, 0x7da86405, 0x600003c6, 0x3e9d7b78, 0x183fc00, 0x12dcbfdb, 0xe2e2c38e,
     0xc8215c1a, 0xb73679a2, 0xe5bc3909, 0x32663c5b, 0x9d209d67, 0xec8726cb, 0x702138a4, 0xd3b7973b] =
    [0x61626380, 0, 0, 0, 0, 0, 0, 0,
     0, 0, 0, 0, 0, 0, 0, 0x18,
     0x61626380, 0xf0000, 0x7da86405, 0x600003c6, 0x3e9d7b78, 0x183fc00, 0x12dcbfdb, 0xe2e2c38e,
     0xc8215c1a, 0xb73679a2, 0xe5bc3909, 0x32663c5b, 0x9d209d67, 0xec8726cb, 0x702138a4, 0xd3b7973b,
     0x93f5997f, 0x3b68ba73, 0xaff4ffc1, 0xf10a5c62, 0xa8b3996, 0x72af830a, 0x9409e33e, 0x24641522]"
  by (simp add: funpow_numeral schedule_step_def Let_def rotate_right_def)

lemma schedule_abc_4:
  "(schedule_step ^^ 8)
    [0x61626380, 0, 0, 0, 0, 0, 0, 0,
     0, 0, 0, 0, 0, 0, 0, 0x18,
     0x61626380, 0xf0000, 0x7da86405, 0x600003c6, 0x3e9d7b78, 0x183fc00, 0x12dcbfdb, 0xe2e2c38e,
     0xc8215c1a, 0xb73679a2, 0xe5bc3909, 0x32663c5b, 0x9d209d67, 0xec8726cb, 0x702138a4, 0xd3b7973b,
     0x93f5997f, 0x3b68ba73, 0xaff4ffc1, 0xf10a5c62, 0xa8b3996, 0x72af830a, 0x9409e33e, 0x24641522] =
    [0x61626380, 0, 0, 0, 0, 0, 0, 0,
     0, 0, 0, 0, 0, 0, 0, 0x18,
     0x61626380, 0xf0000, 0x7da86405, 0x600003c6, 0x3e9d7b78, 0x183fc00, 0x12dcbfdb, 0xe2e2c38e,
     0xc8215c1a, 0xb73679a2, 0xe5bc3909, 0x32663c5b, 0x9d209d67, 0xec8726cb, 0x702138a4, 0xd3b7973b,
     0x93f5997f, 0x3b68ba73, 0xaff4ffc1, 0xf10a5c62, 0xa8b3996, 0x72af830a, 0x9409e33e, 0x24641522,
     0x9f47bf94, 0xf0a64f5a, 0x3e246a79, 0x27333ba3, 0xc4763f2, 0x840abf27, 0x7a290d5d, 0x65c43da]"
  by (simp add: funpow_numeral schedule_step_def Let_def rotate_right_def)

lemma schedule_abc_5:
  "(schedule_step ^^ 8)
    [0x61626380, 0, 0, 0, 0, 0, 0, 0,
     0, 0, 0, 0, 0, 0, 0, 0x18,
     0x61626380, 0xf0000, 0x7da86405, 0x600003c6, 0x3e9d7b78, 0x183fc00, 0x12dcbfdb, 0xe2e2c38e,
     0xc8215c1a, 0xb73679a2, 0xe5bc3909, 0x32663c5b, 0x9d209d67, 0xec8726cb, 0x702138a4, 0xd3b7973b,
     0x93f5997f, 0x3b68ba73, 0xaff4ffc1, 0xf10a5c62, 0xa8b3996, 0x72af830a, 0x9409e33e, 0x24641522,
     0x9f47bf94, 0xf0a64f5a, 0x3e246a79, 0x27333ba3, 0xc4763f2, 0x840abf27, 0x7a290d5d, 0x65c43da] =
    [0x61626380, 0, 0, 0, 0, 0, 0, 0,
     0, 0, 0, 0, 0, 0, 0, 0x18,
     0x61626380, 0xf0000, 0x7da86405, 0x600003c6, 0x3e9d7b78, 0x183fc00, 0x12dcbfdb, 0xe2e2c38e,
     0xc8215c1a, 0xb73679a2, 0xe5bc3909, 0x32663c5b, 0x9d209d67, 0xec8726cb, 0x702138a4, 0xd3b7973b,
     0x93f5997f, 0x3b68ba73, 0xaff4ffc1, 0xf10a5c62, 0xa8b3996, 0x72af830a, 0x9409e33e, 0x24641522,
     0x9f47bf94, 0xf0a64f5a, 0x3e246a79, 0x27333ba3, 0xc4763f2, 0x840abf27, 0x7a290d5d, 0x65c43da,
     0xfb3e89cb, 0xcc7617db, 0xb9e66c34, 0xa9993667, 0x84badedd, 0xc21462bc, 0x1487472c, 0xb20f7a99]"
  by (simp add: funpow_numeral schedule_step_def Let_def rotate_right_def)

lemma schedule_abc_6:
  "(schedule_step ^^ 8)
    [0x61626380, 0, 0, 0, 0, 0, 0, 0,
     0, 0, 0, 0, 0, 0, 0, 0x18,
     0x61626380, 0xf0000, 0x7da86405, 0x600003c6, 0x3e9d7b78, 0x183fc00, 0x12dcbfdb, 0xe2e2c38e,
     0xc8215c1a, 0xb73679a2, 0xe5bc3909, 0x32663c5b, 0x9d209d67, 0xec8726cb, 0x702138a4, 0xd3b7973b,
     0x93f5997f, 0x3b68ba73, 0xaff4ffc1, 0xf10a5c62, 0xa8b3996, 0x72af830a, 0x9409e33e, 0x24641522,
     0x9f47bf94, 0xf0a64f5a, 0x3e246a79, 0x27333ba3, 0xc4763f2, 0x840abf27, 0x7a290d5d, 0x65c43da,
     0xfb3e89cb, 0xcc7617db, 0xb9e66c34, 0xa9993667, 0x84badedd, 0xc21462bc, 0x1487472c, 0xb20f7a99] =
    [0x61626380, 0, 0, 0, 0, 0, 0, 0,
     0, 0, 0, 0, 0, 0, 0, 0x18,
     0x61626380, 0xf0000, 0x7da86405, 0x600003c6, 0x3e9d7b78, 0x183fc00, 0x12dcbfdb, 0xe2e2c38e,
     0xc8215c1a, 0xb73679a2, 0xe5bc3909, 0x32663c5b, 0x9d209d67, 0xec8726cb, 0x702138a4, 0xd3b7973b,
     0x93f5997f, 0x3b68ba73, 0xaff4ffc1, 0xf10a5c62, 0xa8b3996, 0x72af830a, 0x9409e33e, 0x24641522,
     0x9f47bf94, 0xf0a64f5a, 0x3e246a79, 0x27333ba3, 0xc4763f2, 0x840abf27, 0x7a290d5d, 0x65c43da,
     0xfb3e89cb, 0xcc7617db, 0xb9e66c34, 0xa9993667, 0x84badedd, 0xc21462bc, 0x1487472c, 0xb20f7a99,
     0xef57b9cd, 0xebe6b238, 0x9fe3095e, 0x78bc8d4b, 0xa43fcf15, 0x668b2ff8, 0xeeaba2cc, 0x12b1edeb]"
  by (simp add: funpow_numeral schedule_step_def Let_def rotate_right_def)

lemma rounds_abc_1:
  "fold sha_round
     [(0x428a2f98, 0x61626380), (0x71374491, 0), (0xb5c0fbcf, 0), (0xe9b5dba5, 0)]
     (0x6a09e667, 0xbb67ae85, 0x3c6ef372, 0xa54ff53a, 0x510e527f, 0x9b05688c, 0x1f83d9ab, 0x5be0cd19) =
     (0xd550f666, 0xc8c347a7, 0x5a6ad9ad, 0x5d6aebcd, 0x24e00850, 0xf92939eb, 0x78ce7989, 0xfa2a4622)"
  by (simp add: rotate_right_def Let_def)

lemma rounds_abc_2:
  "fold sha_round
     [(0x3956c25b, 0), (0x59f111f1, 0), (0x923f82a4, 0), (0xab1c5ed5, 0)]
     (0xd550f666, 0xc8c347a7, 0x5a6ad9ad, 0x5d6aebcd, 0x24e00850, 0xf92939eb, 0x78ce7989, 0xfa2a4622) =
     (0x85a07b5f, 0xe5030380, 0x2b4209f5, 0x4409a6a, 0xc657a79, 0x9b27a401, 0x714260ad, 0x43ada245)"
  by (simp add: rotate_right_def Let_def)

lemma rounds_abc_3:
  "fold sha_round
     [(0xd807aa98, 0), (0x12835b01, 0), (0x243185be, 0), (0x550c7dc3, 0)]
     (0x85a07b5f, 0xe5030380, 0x2b4209f5, 0x4409a6a, 0xc657a79, 0x9b27a401, 0x714260ad, 0x43ada245) =
     (0xf71fc5a9, 0x4798a3f4, 0x8c87346b, 0x8e04ecb9, 0x816fd6e9, 0x436b23e8, 0x1cc92596, 0x32ca2d8c)"
  by (simp add: rotate_right_def Let_def)

lemma rounds_abc_4:
  "fold sha_round
     [(0x72be5d74, 0), (0x80deb1fe, 0), (0x9bdc06a7, 0), (0xc19bf174, 0x18)]
     (0xf71fc5a9, 0x4798a3f4, 0x8c87346b, 0x8e04ecb9, 0x816fd6e9, 0x436b23e8, 0x1cc92596, 0x32ca2d8c) =
     (0xb0fa238e, 0xc0645fde, 0xd932eb16, 0x87912990, 0x7590dcd, 0xb92f20c, 0x745a48de, 0x1e578218)"
  by (simp add: rotate_right_def Let_def)

lemma rounds_abc_5:
  "fold sha_round
     [(0xe49b69c1, 0x61626380), (0xefbe4786, 0xf0000), (0xfc19dc6, 0x7da86405), (0x240ca1cc, 0x600003c6)]
     (0xb0fa238e, 0xc0645fde, 0xd932eb16, 0x87912990, 0x7590dcd, 0xb92f20c, 0x745a48de, 0x1e578218) =
     (0xe1f20c33, 0xfe777bbf, 0xc2fbd9d1, 0x21da9a9b, 0xb0638179, 0xcc899961, 0x846ee454, 0x8034229c)"
  by (simp add: rotate_right_def Let_def)

lemma rounds_abc_6:
  "fold sha_round
     [(0x2de92c6f, 0x3e9d7b78), (0x4a7484aa, 0x183fc00), (0x5cb0a9dc, 0x12dcbfdb), (0x76f988da, 0xe2e2c38e)]
     (0xe1f20c33, 0xfe777bbf, 0xc2fbd9d1, 0x21da9a9b, 0xb0638179, 0xcc899961, 0x846ee454, 0x8034229c) =
     (0xc5d53d8d, 0xa7a3623f, 0xc2606d6d, 0x9dc68b63, 0xaa47c347, 0x49f5114a, 0xe1257970, 0x8ada8930)"
  by (simp add: rotate_right_def Let_def)

lemma rounds_abc_7:
  "fold sha_round
     [(0x983e5152, 0xc8215c1a), (0xa831c66d, 0xb73679a2), (0xb00327c8, 0xe5bc3909), (0xbf597fc7, 0x32663c5b)]
     (0xc5d53d8d, 0xa7a3623f, 0xc2606d6d, 0x9dc68b63, 0xaa47c347, 0x49f5114a, 0xe1257970, 0x8ada8930) =
     (0x77d37528, 0xb62ec4bc, 0xcde8037d, 0x1c2c2838, 0xedffbff8, 0xc74c6516, 0x14383d8e, 0x2823ef91)"
  by (simp add: rotate_right_def Let_def)

lemma rounds_abc_8:
  "fold sha_round
     [(0xc6e00bf3, 0x9d209d67), (0xd5a79147, 0xec8726cb), (0x6ca6351, 0x702138a4), (0x14292967, 0xd3b7973b)]
     (0x77d37528, 0xb62ec4bc, 0xcde8037d, 0x1c2c2838, 0xedffbff8, 0xc74c6516, 0x14383d8e, 0x2823ef91) =
     (0x73b33bf5, 0xea992a22, 0xa0060b30, 0x363482c9, 0xba591112, 0x109ab3a, 0xade79437, 0x6112a3b7)"
  by (simp add: rotate_right_def Let_def)

lemma rounds_abc_9:
  "fold sha_round
     [(0x27b70a85, 0x93f5997f), (0x2e1b2138, 0x3b68ba73), (0x4d2c6dfc, 0xaff4ffc1), (0x53380d13, 0xf10a5c62)]
     (0x73b33bf5, 0xea992a22, 0xa0060b30, 0x363482c9, 0xba591112, 0x109ab3a, 0xade79437, 0x6112a3b7) =
     (0x65a0cfe4, 0xa9a7738c, 0xfe604df5, 0x98e12507, 0xf4b002d6, 0x85f3833, 0x59249dd3, 0x9cd9f5f6)"
  by (simp add: rotate_right_def Let_def)

lemma rounds_abc_10:
  "fold sha_round
     [(0x650a7354, 0xa8b3996), (0x766a0abb, 0x72af830a), (0x81c2c92e, 0x9409e33e), (0x92722c85, 0x24641522)]
     (0x65a0cfe4, 0xa9a7738c, 0xfe604df5, 0x98e12507, 0xf4b002d6, 0x85f3833, 0x59249dd3, 0x9cd9f5f6) =
     (0x79ea687a, 0x6dc57a8a, 0x34df1604, 0x41a65cb1, 0x1efbc0a0, 0xf0781bc8, 0xa507a53d, 0x772a26b)"
  by (simp add: rotate_right_def Let_def)

lemma rounds_abc_11:
  "fold sha_round
     [(0xa2bfe8a1, 0x9f47bf94), (0xa81a664b, 0xf0a64f5a), (0xc24b8b70, 0x3e246a79), (0xc76c51a3, 0x27333ba3)]
     (0x79ea687a, 0x6dc57a8a, 0x34df1604, 0x41a65cb1, 0x1efbc0a0, 0xf0781bc8, 0xa507a53d, 0x772a26b) =
     (0x9d4baf93, 0x17aa0dfe, 0xdf46652f, 0xd6670766, 0xfda24c2e, 0xdecd4715, 0x838b2711, 0x26352d63)"
  by (simp add: rotate_right_def Let_def)

lemma rounds_abc_12:
  "fold sha_round
     [(0xd192e819, 0xc4763f2), (0xd6990624, 0x840abf27), (0xf40e3585, 0x7a290d5d), (0x106aa070, 0x65c43da)]
     (0x9d4baf93, 0x17aa0dfe, 0xdf46652f, 0xd6670766, 0xfda24c2e, 0xdecd4715, 0x838b2711, 0x26352d63) =
     (0x4172328d, 0xa14c14b0, 0x72ab4b91, 0x26628815, 0xfecf0bc6, 0xd57b94a9, 0xb7755da1, 0xa80f11f0)"
  by (simp add: rotate_right_def Let_def)

lemma rounds_abc_13:
  "fold sha_round
     [(0x19a4c116, 0xfb3e89cb), (0x1e376c08, 0xcc7617db), (0x2748774c, 0xb9e66c34), (0x34b0bcb5, 0xa9993667)]
     (0x4172328d, 0xa14c14b0, 0x72ab4b91, 0x26628815, 0xfecf0bc6, 0xd57b94a9, 0xb7755da1, 0xa80f11f0) =
     (0x886e7a22, 0x7a0508a1, 0xf11bfaa8, 0x5757ceb, 0x49231c1e, 0x52f1ccf7, 0x6e5c390c, 0xbd714038)"
  by (simp add: rotate_right_def Let_def)

lemma rounds_abc_14:
  "fold sha_round
     [(0x391c0cb3, 0x84badedd), (0x4ed8aa4a, 0xc21462bc), (0x5b9cca4f, 0x1487472c), (0x682e6ff3, 0xb20f7a99)]
     (0x886e7a22, 0x7a0508a1, 0xf11bfaa8, 0x5757ceb, 0x49231c1e, 0x52f1ccf7, 0x6e5c390c, 0xbd714038) =
     (0x38cc9913, 0x3ec45cdb, 0xf5702fdb, 0x101fd28f, 0x54cb266b, 0xe50e1b4f, 0x9f4787c3, 0x529e7d00)"
  by (simp add: rotate_right_def Let_def)

lemma rounds_abc_15:
  "fold sha_round
     [(0x748f82ee, 0xef57b9cd), (0x78a5636f, 0xebe6b238), (0x84c87814, 0x9fe3095e), (0x8cc70208, 0x78bc8d4b)]
     (0x38cc9913, 0x3ec45cdb, 0xf5702fdb, 0x101fd28f, 0x54cb266b, 0xe50e1b4f, 0x9f4787c3, 0x529e7d00) =
     (0xb6ae8fff, 0xffb70472, 0xc062d46f, 0xfcd1887b, 0xb21bad3d, 0x6d83bfc6, 0x7e44008e, 0x9b5e906c)"
  by (simp add: rotate_right_def Let_def)

lemma rounds_abc_16:
  "fold sha_round
     [(0x90befffa, 0xa43fcf15), (0xa4506ceb, 0x668b2ff8), (0xbef9a3f7, 0xeeaba2cc), (0xc67178f2, 0x12b1edeb)]
     (0xb6ae8fff, 0xffb70472, 0xc062d46f, 0xfcd1887b, 0xb21bad3d, 0x6d83bfc6, 0x7e44008e, 0x9b5e906c) =
     (0x506e3058, 0xd39a2165, 0x4d24d6c, 0xb85e2ce9, 0x5ef50f24, 0xfb121210, 0x948d25b6, 0x961f4894)"
  by (simp add: rotate_right_def Let_def)

lemmas rounds_abc = rounds_abc_1 rounds_abc_2 rounds_abc_3 rounds_abc_4 rounds_abc_5 rounds_abc_6 rounds_abc_7 rounds_abc_8
  rounds_abc_9 rounds_abc_10 rounds_abc_11 rounds_abc_12 rounds_abc_13 rounds_abc_14 rounds_abc_15 rounds_abc_16

lemma schedule_abc:
  "(schedule_step ^^ 48)
    [0x61626380, 0, 0, 0, 0, 0, 0, 0,
     0, 0, 0, 0, 0, 0, 0, 0x18] =
    [0x61626380, 0, 0, 0, 0, 0, 0, 0,
     0, 0, 0, 0, 0, 0, 0, 0x18,
     0x61626380, 0xf0000, 0x7da86405, 0x600003c6, 0x3e9d7b78, 0x183fc00, 0x12dcbfdb, 0xe2e2c38e,
     0xc8215c1a, 0xb73679a2, 0xe5bc3909, 0x32663c5b, 0x9d209d67, 0xec8726cb, 0x702138a4, 0xd3b7973b,
     0x93f5997f, 0x3b68ba73, 0xaff4ffc1, 0xf10a5c62, 0xa8b3996, 0x72af830a, 0x9409e33e, 0x24641522,
     0x9f47bf94, 0xf0a64f5a, 0x3e246a79, 0x27333ba3, 0xc4763f2, 0x840abf27, 0x7a290d5d, 0x65c43da,
     0xfb3e89cb, 0xcc7617db, 0xb9e66c34, 0xa9993667, 0x84badedd, 0xc21462bc, 0x1487472c, 0xb20f7a99,
     0xef57b9cd, 0xebe6b238, 0x9fe3095e, 0x78bc8d4b, 0xa43fcf15, 0x668b2ff8, 0xeeaba2cc, 0x12b1edeb]"
proof -
  have "(schedule_step ^^ 48) x = (schedule_step ^^ 8) ((schedule_step ^^ 8) ((schedule_step ^^ 8)
      ((schedule_step ^^ 8) ((schedule_step ^^ 8) ((schedule_step ^^ 8) x)))))" for x
    using funpow_add [of "8 + 8 + 8 + 8 + 8" 8 schedule_step] funpow_add [of "8 + 8 + 8 + 8" 8 schedule_step]
      funpow_add [of "8 + 8 + 8" 8 schedule_step] funpow_add [of "8 + 8" 8 schedule_step]
      funpow_add [of 8 8 schedule_step] by (simp add: fun_eq_iff)
  then show ?thesis
    by (simp only: schedule_abc_1 schedule_abc_2 schedule_abc_3 schedule_abc_4
        schedule_abc_5 schedule_abc_6)
qed

lemma paired_abc:
  "zip kRoundConstants
    [0x61626380, 0, 0, 0, 0, 0, 0, 0,
     0, 0, 0, 0, 0, 0, 0, 0x18,
     0x61626380, 0xf0000, 0x7da86405, 0x600003c6, 0x3e9d7b78, 0x183fc00, 0x12dcbfdb, 0xe2e2c38e,
     0xc8215c1a, 0xb73679a2, 0xe5bc3909, 0x32663c5b, 0x9d209d67, 0xec8726cb, 0x702138a4, 0xd3b7973b,
     0x93f5997f, 0x3b68ba73, 0xaff4ffc1, 0xf10a5c62, 0xa8b3996, 0x72af830a, 0x9409e33e, 0x24641522,
     0x9f47bf94, 0xf0a64f5a, 0x3e246a79, 0x27333ba3, 0xc4763f2, 0x840abf27, 0x7a290d5d, 0x65c43da,
     0xfb3e89cb, 0xcc7617db, 0xb9e66c34, 0xa9993667, 0x84badedd, 0xc21462bc, 0x1487472c, 0xb20f7a99,
     0xef57b9cd, 0xebe6b238, 0x9fe3095e, 0x78bc8d4b, 0xa43fcf15, 0x668b2ff8, 0xeeaba2cc, 0x12b1edeb] =
   [(0x428a2f98, 0x61626380), (0x71374491, 0), (0xb5c0fbcf, 0), (0xe9b5dba5, 0)] @
   [(0x3956c25b, 0), (0x59f111f1, 0), (0x923f82a4, 0), (0xab1c5ed5, 0)] @
   [(0xd807aa98, 0), (0x12835b01, 0), (0x243185be, 0), (0x550c7dc3, 0)] @
   [(0x72be5d74, 0), (0x80deb1fe, 0), (0x9bdc06a7, 0), (0xc19bf174, 0x18)] @
   [(0xe49b69c1, 0x61626380), (0xefbe4786, 0xf0000), (0xfc19dc6, 0x7da86405), (0x240ca1cc, 0x600003c6)] @
   [(0x2de92c6f, 0x3e9d7b78), (0x4a7484aa, 0x183fc00), (0x5cb0a9dc, 0x12dcbfdb), (0x76f988da, 0xe2e2c38e)] @
   [(0x983e5152, 0xc8215c1a), (0xa831c66d, 0xb73679a2), (0xb00327c8, 0xe5bc3909), (0xbf597fc7, 0x32663c5b)] @
   [(0xc6e00bf3, 0x9d209d67), (0xd5a79147, 0xec8726cb), (0x6ca6351, 0x702138a4), (0x14292967, 0xd3b7973b)] @
   [(0x27b70a85, 0x93f5997f), (0x2e1b2138, 0x3b68ba73), (0x4d2c6dfc, 0xaff4ffc1), (0x53380d13, 0xf10a5c62)] @
   [(0x650a7354, 0xa8b3996), (0x766a0abb, 0x72af830a), (0x81c2c92e, 0x9409e33e), (0x92722c85, 0x24641522)] @
   [(0xa2bfe8a1, 0x9f47bf94), (0xa81a664b, 0xf0a64f5a), (0xc24b8b70, 0x3e246a79), (0xc76c51a3, 0x27333ba3)] @
   [(0xd192e819, 0xc4763f2), (0xd6990624, 0x840abf27), (0xf40e3585, 0x7a290d5d), (0x106aa070, 0x65c43da)] @
   [(0x19a4c116, 0xfb3e89cb), (0x1e376c08, 0xcc7617db), (0x2748774c, 0xb9e66c34), (0x34b0bcb5, 0xa9993667)] @
   [(0x391c0cb3, 0x84badedd), (0x4ed8aa4a, 0xc21462bc), (0x5b9cca4f, 0x1487472c), (0x682e6ff3, 0xb20f7a99)] @
   [(0x748f82ee, 0xef57b9cd), (0x78a5636f, 0xebe6b238), (0x84c87814, 0x9fe3095e), (0x8cc70208, 0x78bc8d4b)] @
   [(0x90befffa, 0xa43fcf15), (0xa4506ceb, 0x668b2ff8), (0xbef9a3f7, 0xeeaba2cc), (0xc67178f2, 0x12b1edeb)]"
  by (simp add: kRoundConstants_def)

lemma fold_rounds_abc:
  "fold sha_round (zip kRoundConstants
    [0x61626380, 0, 0, 0, 0, 0, 0, 0,
     0, 0, 0, 0, 0, 0, 0, 0x18,
     0x61626380, 0xf0000, 0x7da86405, 0x600003c6, 0x3e9d7b78, 0x183fc00, 0x12dcbfdb, 0xe2e2c38e,
     0xc8215c1a, 0xb73679a2, 0xe5bc3909, 0x32663c5b, 0x9d209d67, 0xec8726cb, 0x702138a4, 0xd3b7973b,
     0x93f5997f, 0x3b68ba73, 0xaff4ffc1, 0xf10a5c62, 0xa8b3996, 0x72af830a, 0x9409e33e, 0x24641522,
     0x9f47bf94, 0xf0a64f5a, 0x3e246a79, 0x27333ba3, 0xc4763f2, 0x840abf27, 0x7a290d5d, 0x65c43da,
     0xfb3e89cb, 0xcc7617db, 0xb9e66c34, 0xa9993667, 0x84badedd, 0xc21462bc, 0x1487472c, 0xb20f7a99,
     0xef57b9cd, 0xebe6b238, 0x9fe3095e, 0x78bc8d4b, 0xa43fcf15, 0x668b2ff8, 0xeeaba2cc, 0x12b1edeb])
    (0x6a09e667, 0xbb67ae85, 0x3c6ef372, 0xa54ff53a, 0x510e527f, 0x9b05688c, 0x1f83d9ab, 0x5be0cd19) =
    (0x506e3058, 0xd39a2165, 0x4d24d6c, 0xb85e2ce9, 0x5ef50f24, 0xfb121210, 0x948d25b6, 0x961f4894)"
  by (simp only: paired_abc fold_append comp_apply rounds_abc)

lemma upt_16: "[0..<16] = [0, 1, 2, 3, 4, 5, 6, 7, 8, 9, 10, 11, 12, 13, 14, 15]"
  by (simp add: upt_rec)

lemma upt_8: "[0..<8] = [0, 1, 2, 3, 4, 5, 6, 7]"
  by (simp add: upt_rec)

lemma replicate_52: "replicate 52 x = [x, x, x, x, x, x, x, x, x, x, x, x, x, x, x, x, x, x, x, x, x, x, x, x, x, x,
    x, x, x, x, x, x, x, x, x, x, x, x, x, x, x, x, x, x, x, x, x, x, x, x, x, x]"
  by (simp add: numeral_eq_Suc)

lemma pad_abc: "sha256_pad [97, 98, 99] =
    [97, 98, 99, 128, 0, 0, 0, 0, 0, 0, 0, 0, 0, 0, 0, 0, 0, 0, 0, 0, 0, 0, 0, 0, 0, 0, 0, 0, 0, 0,
     0, 0, 0, 0, 0, 0, 0, 0, 0, 0, 0, 0, 0, 0, 0, 0, 0, 0, 0, 0, 0, 0, 0, 0, 0, 0, 0, 0, 0, 0, 0, 0, 0, 24]"
  by (simp add: sha256_pad_def pad_count_def replicate_52 length_bytes_def upt_8)

lemma words_abc:
  "map (be_word [97, 98, 99, 128, 0, 0, 0, 0, 0, 0, 0, 0, 0, 0, 0, 0, 0, 0, 0, 0, 0, 0, 0, 0, 0, 0, 0, 0, 0, 0,
     0, 0, 0, 0, 0, 0, 0, 0, 0, 0, 0, 0, 0, 0, 0, 0, 0, 0, 0, 0, 0, 0, 0, 0, 0, 0, 0, 0, 0, 0, 0, 0, 0, 24]) [0..<16] =
    [0x61626380, 0, 0, 0, 0, 0, 0, 0,
     0, 0, 0, 0, 0, 0, 0, 0x18]"
  by (simp add: be_word_def upt_16)

lemma process_block_abc:
  "process_block initial_state ([97, 98, 99, 128, 0, 0, 0, 0, 0, 0, 0, 0, 0, 0, 0, 0, 0, 0, 0, 0, 0, 0, 0, 0, 0, 0, 0, 0, 0, 0,
     0, 0, 0, 0, 0, 0, 0, 0, 0, 0, 0, 0, 0, 0, 0, 0, 0, 0, 0, 0, 0, 0, 0, 0, 0, 0, 0, 0, 0, 0, 0, 0, 0, 24]) =
    [0xba7816bf, 0x8f01cfea, 0x414140de, 0x5dae2223, 0xb00361a3, 0x96177a9c, 0xb410ff61, 0xf20015ad]"
proof -
  have "schedule ([97, 98, 99, 128, 0, 0, 0, 0, 0, 0, 0, 0, 0, 0, 0, 0, 0, 0, 0, 0, 0, 0, 0, 0, 0, 0, 0, 0, 0, 0,
     0, 0, 0, 0, 0, 0, 0, 0, 0, 0, 0, 0, 0, 0, 0, 0, 0, 0, 0, 0, 0, 0, 0, 0, 0, 0, 0, 0, 0, 0, 0, 0, 0, 24]) =
    [0x61626380, 0, 0, 0, 0, 0, 0, 0,
     0, 0, 0, 0, 0, 0, 0, 0x18,
     0x61626380, 0xf0000, 0x7da86405, 0x600003c6, 0x3e9d7b78, 0x183fc00, 0x12dcbfdb, 0xe2e2c38e,
     0xc8215c1a, 0xb73679a2, 0xe5bc3909, 0x32663c5b, 0x9d209d67, 0xec8726cb, 0x702138a4, 0xd3b7973b,
     0x93f5997f, 0x3b68ba73, 0xaff4ffc1, 0xf10a5c62, 0xa8b3996, 0x72af830a, 0x9409e33e, 0x24641522,
     0x9f47bf94, 0xf0a64f5a, 0x3e246a79, 0x27333ba3, 0xc4763f2, 0x840abf27, 0x7a290d5d, 0x65c43da,
     0xfb3e89cb, 0xcc7617db, 0xb9e66c34, 0xa9993667, 0x84badedd, 0xc21462bc, 0x1487472c, 0xb20f7a99,
     0xef57b9cd, 0xebe6b238, 0x9fe3095e, 0x78bc8d4b, 0xa43fcf15, 0x668b2ff8, 0xeeaba2cc, 0x12b1edeb]"
    by (simp only: schedule_def words_abc schedule_abc)
  then show ?thesis
    by (simp add: process_block_def initial_state_def fold_rounds_abc)
qed

lemma reference_abc:
  "concat (map hex_byte (sha256_reference [97, 98, 99])) =
   ''ba7816bf8f01cfea414140de5dae2223b00361a396177a9cb410ff61f20015ad''"
proof -
  have "whole_blocks initial_state (sha256_pad [97, 98, 99]) =
    ([0xba7816bf, 0x8f01cfea, 0x414140de, 0x5dae2223, 0xb00361a3, 0x96177a9c, 0xb410ff61, 0xf20015ad], [])"
    by (subst whole_blocks.simps, simp only: pad_abc)
      (simp add: process_block_abc whole_blocks_short)
  then show ?thesis
    by (simp add: sha256_reference_def word_bytes_def hex_byte_def hex_digit_def)
qed

text \<open>
  The digest of the three-byte text abc is the published FIPS 180-4 value, so the
  compression function, its constants and the byte order are those of the standard.
\<close>

theorem hex_digest_abc:
  "hex_digest ''abc'' = Some ''ba7816bf8f01cfea414140de5dae2223b00361a396177a9cb410ff61f20015ad''"
proof -
  have "string_bytes ''abc'' = [97, 98, 99]" by (simp add: string_bytes_def)
  then show ?thesis by (simp add: hex_digest_def digest_reference reference_abc)
qed

end
