(* ===== verification/Ez_PcapFilter.thy ===== *)
theory Ez_PcapFilter
  imports Ez_Prelude
begin

text \<open>
  \<^verbatim>\<open>src/capture/pcap/pcap_filter.cpp\<close>: the validation of capture filters.  The captured variables
  of the lambda \<^verbatim>\<open>flush\<close> (the token and the error) are its argument and its result.

  The theorem says which texts are accepted: it compares the incremental tokenizer with the
  list of the maximal words of the text.
\<close>

definition allowed_tokens :: "string list" where
  "allowed_tokens = [''ip'', ''ip6'', ''tcp'', ''udp'', ''icmp'', ''host'', ''net'', ''port'', ''ports'',
     ''src'', ''dst'', ''and'', ''or'', ''not'', ''ether'', ''arp'', ''rarp'', ''ipproto'', ''broadcast'',
     ''less'', ''greater'', ''len'']"

definition is_word_char :: "char \<Rightarrow> bool" where
  "is_word_char c \<longleftrightarrow> is_alnum c \<or> c = CHR ''.'' \<or> c = CHR '':'' \<or> c = CHR ''/''"

definition filter_is_number :: "string \<Rightarrow> bool" where
  "filter_is_number s \<longleftrightarrow> s \<noteq> [] \<and> list_all is_digit s"

text \<open>The loop returns early on a character that no literal has; it counts colons and dots.\<close>

fun literal_loop :: "string \<Rightarrow> nat \<Rightarrow> nat \<Rightarrow> bool" where
  "literal_loop [] colons dots = (0 < dots \<or> 0 < colons)"
| "literal_loop (c # s) colons dots =
     (if c = CHR '':'' then literal_loop s (colons + 1) dots
      else if c = CHR ''.'' then literal_loop s colons (dots + 1)
      else if \<not> is_xdigit c \<and> c \<noteq> CHR ''/'' then False
      else literal_loop s colons dots)"

definition looks_like_literal :: "string \<Rightarrow> bool" where
  "looks_like_literal s \<longleftrightarrow> filter_is_number s \<or> literal_loop s 0 0"

definition filter_flush :: "string \<Rightarrow> bool \<Rightarrow> char \<Rightarrow> string + string" where
  "filter_flush token paren which =
     (if token \<noteq> [] \<and> \<not> (token \<in> set allowed_tokens \<or> looks_like_literal token)
      then Inl ''disallowed token in filter''
      else if paren then Inl (''unexpected character in filter: '' @ [which])
      else Inr [])"

fun filter_loop :: "string \<Rightarrow> string \<Rightarrow> string + string" where
  "filter_loop [] token = filter_flush token False CHR '' ''"
| "filter_loop (c # cs) token =
     (if is_word_char c then filter_loop cs (token @ [c])
      else if c = CHR '' '' \<or> c = CHR 0x09 \<or> c = CHR 0x0A
        then res_bind (filter_flush token False CHR '' '') (filter_loop cs)
      else if c = CHR ''('' \<or> c = CHR '')'' then res_bind (filter_flush token False c) (filter_loop cs)
      else res_bind (filter_flush token True c) (filter_loop cs))"

definition validate_filter :: "string \<Rightarrow> string + string" where
  "validate_filter f =
     (if f = [] then Inl ''empty filter''
      else if 256 < length f then Inl ''filter too long''
      else filter_loop f [])"

definition default_filter :: string where
  "default_filter = ''ip or ip6''"

section \<open>What is accepted\<close>

text \<open>The maximal runs of word characters of a text.\<close>

function filter_words :: "string \<Rightarrow> string list" where
  "filter_words s =
     (let w = takeWhile is_word_char s; r = dropWhile is_word_char s
      in (if w = [] then [] else [w]) @ (if r = [] then [] else filter_words (tl r)))"
  by pat_completeness auto
termination
proof (relation "measure length")
  fix s w r assume "w = takeWhile is_word_char s" "r = dropWhile is_word_char s" "r \<noteq> []"
  then have "0 < length r" "length r \<le> length s" using length_dropWhile_le by auto
  then have "length r - 1 < length s" by linarith
  then show "(tl r, s) \<in> measure length" by simp
qed simp

declare filter_words.simps [simp del]

definition filter_term :: "string \<Rightarrow> bool" where
  "filter_term w \<longleftrightarrow> w \<in> set allowed_tokens \<or> looks_like_literal w"

definition filter_char :: "char \<Rightarrow> bool" where
  "filter_char c \<longleftrightarrow> is_word_char c \<or> c \<in> {CHR '' '', CHR 0x09, CHR 0x0A, CHR ''('', CHR '')''}"

lemma filter_flush_ok: "is_ok (filter_flush token paren which) \<longleftrightarrow> \<not> paren \<and> (token = [] \<or> filter_term token)"
  by (auto simp: filter_flush_def filter_term_def)

lemma filter_flush_Inr: "filter_flush token paren which = Inr t \<longleftrightarrow> \<not> paren \<and> (token = [] \<or> filter_term token) \<and> t = []"
  by (auto simp: filter_flush_def filter_term_def)

lemma filter_words_word: "list_all is_word_char w \<Longrightarrow> filter_words w = (if w = [] then [] else [w])"
  by (subst filter_words.simps) (simp add: Let_def list_all_iff takeWhile_eq_all_conv [THEN iffD2] dropWhile_eq_Nil_conv [THEN iffD2])

lemma filter_words_sep:
  "list_all is_word_char w \<Longrightarrow> \<not> is_word_char c \<Longrightarrow>
     filter_words (w @ c # cs) = (if w = [] then [] else [w]) @ filter_words cs"
  by (subst filter_words.simps) (simp add: Let_def list_all_iff takeWhile_append dropWhile_append
      takeWhile_eq_all_conv [THEN iffD2] dropWhile_eq_Nil_conv [THEN iffD2])

lemma filter_loop_ok:
  "list_all is_word_char token \<Longrightarrow>
     is_ok (filter_loop cs token) \<longleftrightarrow> list_all filter_char cs \<and> list_all filter_term (filter_words (token @ cs))"
proof (induction cs token rule: filter_loop.induct)
  case (1 token)
  then show ?case by (simp add: filter_flush_ok filter_words_word)
next
  case (2 c cs token)
  show ?case
  proof (cases "is_word_char c")
    case True
    then show ?thesis using 2 by (simp add: filter_char_def)
  next
    case False
    show ?thesis
    proof (cases "filter_char c")
      case True
      with False 2 show ?thesis
        by (auto simp: is_ok_bind_iff filter_flush_Inr filter_words_sep filter_char_def)
    next
      case bad: False
      with False show ?thesis by (auto simp: is_ok_bind_iff filter_flush_Inr filter_char_def)
    qed
  qed
qed

text \<open>
  A filter is accepted exactly when it has between 1 and 256 characters, consists of word
  characters, blanks, tabs, newlines and parentheses only, and each of its maximal words is one of
  the allowed tokens or looks like a number or an address.
\<close>

theorem validate_filter_iff:
  "is_ok (validate_filter f) \<longleftrightarrow>
     f \<noteq> [] \<and> length f \<le> 256 \<and> list_all filter_char f \<and> list_all filter_term (filter_words f)"
  by (auto simp: validate_filter_def filter_loop_ok)

text \<open>The filter that is used when none is configured passes.\<close>

lemma default_filter_valid: "is_ok (validate_filter default_filter)"
  by code_simp

end
