(* ===== verification/Ez_Types.thy ===== *)
theory Ez_Types
  imports Ez_Prelude
begin

text \<open>
  The data shared by every component, after \<^verbatim>\<open>include/ezcap/\<close>: the enumerations with their
  wire names (\<^verbatim>\<open>src/common/event_types.cpp\<close>, \<^verbatim>\<open>src/common/error.cpp\<close>,
  \<^verbatim>\<open>src/ipc/ipc_protocol.cpp\<close>, the static helpers of \<^verbatim>\<open>src/policy/redactor.cpp\<close>, the level
  names of \<^verbatim>\<open>src/common/logging.cpp\<close>), the normalized event, the policy and the request and
  response of the IPC channel.

  A parser that returns \<^verbatim>\<open>false\<close> and leaves its out parameter alone is a function into
  \<open>option\<close>.  A wall-clock time point is its number of nanoseconds since the epoch.
\<close>

section \<open>Enumerations\<close>

datatype event_type = Connection | Dns | Navigation | Process | Status | Error
datatype event_source = Ebpf | Pcap | Browser
datatype transport = Tcp | Udp | Icmp | OtherTransport
datatype direction = Inbound | Outbound | UnknownDirection
datatype conf_band = Weak | Probable | Strong | Direct

definition equals_ci :: "string \<Rightarrow> string \<Rightarrow> bool" where
  "equals_ci a b \<longleftrightarrow> length a = length b \<and> list_all2 (\<lambda>x y. lower_char x = lower_char y) a b"

lemma equals_ci_iff: "equals_ci a b \<longleftrightarrow> map lower_char a = map lower_char b"
  by (auto simp: equals_ci_def list_all2_conv_all_nth list_eq_iff_nth_eq)

definition confidence_band :: "double \<Rightarrow> conf_band" where
  "confidence_band c =
     (if rnd (9/10) \<le> c then Direct else if rnd (7/10) \<le> c then Strong
      else if rnd (4/10) \<le> c then Probable else Weak)"

fun event_type_name :: "event_type \<Rightarrow> string" where
  "event_type_name Connection = ''connection''"
| "event_type_name Dns = ''dns''"
| "event_type_name Navigation = ''navigation''"
| "event_type_name Process = ''process''"
| "event_type_name Status = ''status''"
| "event_type_name Error = ''error''"

definition event_type_from_name :: "string \<Rightarrow> event_type option" where
  "event_type_from_name name =
     (if equals_ci name ''connection'' then Some Connection
      else if equals_ci name ''dns'' then Some Dns
      else if equals_ci name ''navigation'' then Some Navigation
      else if equals_ci name ''process'' then Some Process
      else if equals_ci name ''status'' then Some Status
      else if equals_ci name ''error'' then Some Error
      else None)"

fun event_source_name :: "event_source \<Rightarrow> string" where
  "event_source_name Ebpf = ''ebpf''"
| "event_source_name Pcap = ''pcap''"
| "event_source_name Browser = ''browser''"

definition event_source_from_name :: "string \<Rightarrow> event_source option" where
  "event_source_from_name name =
     (if equals_ci name ''ebpf'' then Some Ebpf
      else if equals_ci name ''pcap'' then Some Pcap
      else if equals_ci name ''browser'' then Some Browser
      else None)"

fun transport_name :: "transport \<Rightarrow> string" where
  "transport_name Tcp = ''tcp''"
| "transport_name Udp = ''udp''"
| "transport_name Icmp = ''icmp''"
| "transport_name OtherTransport = ''other''"

definition transport_from_name :: "string \<Rightarrow> transport option" where
  "transport_from_name name =
     (if equals_ci name ''tcp'' then Some Tcp
      else if equals_ci name ''udp'' then Some Udp
      else if equals_ci name ''icmp'' then Some Icmp
      else if equals_ci name ''other'' then Some OtherTransport
      else None)"

fun direction_name :: "direction \<Rightarrow> string" where
  "direction_name Inbound = ''inbound''"
| "direction_name Outbound = ''outbound''"
| "direction_name UnknownDirection = ''unknown''"

definition direction_from_name :: "string \<Rightarrow> direction option" where
  "direction_from_name name =
     (if equals_ci name ''inbound'' then Some Inbound
      else if equals_ci name ''outbound'' then Some Outbound
      else if equals_ci name ''unknown'' then Some UnknownDirection
      else None)"

fun confidence_band_name :: "conf_band \<Rightarrow> string" where
  "confidence_band_name Weak = ''weak''"
| "confidence_band_name Probable = ''probable''"
| "confidence_band_name Strong = ''strong''"
| "confidence_band_name Direct = ''direct''"

text \<open>The operations of the daemon protocol; their names are matched exactly.\<close>

datatype operation = Hello | GetStatus | Subscribe | Unsubscribe | SetPolicy | GetPolicy | Shutdown

fun operation_name :: "operation \<Rightarrow> string" where
  "operation_name Hello = ''hello''"
| "operation_name GetStatus = ''get_status''"
| "operation_name Subscribe = ''subscribe''"
| "operation_name Unsubscribe = ''unsubscribe''"
| "operation_name SetPolicy = ''set_policy''"
| "operation_name GetPolicy = ''get_policy''"
| "operation_name Shutdown = ''shutdown''"

definition operation_from_name :: "string \<Rightarrow> operation option" where
  "operation_from_name name =
     (if name = ''hello'' then Some Hello
      else if name = ''get_status'' then Some GetStatus
      else if name = ''subscribe'' then Some Subscribe
      else if name = ''unsubscribe'' then Some Unsubscribe
      else if name = ''set_policy'' then Some SetPolicy
      else if name = ''get_policy'' then Some GetPolicy
      else if name = ''shutdown'' then Some Shutdown
      else None)"

text \<open>Redaction modes and their wire names.\<close>

datatype redaction_mode =
  HostnameOnly | QueryStringRemoval | FullHostname | DomainHash | DomainMask

fun redaction_mode_name :: "redaction_mode \<Rightarrow> string" where
  "redaction_mode_name HostnameOnly = ''hostname-only''"
| "redaction_mode_name QueryStringRemoval = ''query-string-removal''"
| "redaction_mode_name FullHostname = ''full-hostname''"
| "redaction_mode_name DomainHash = ''domain-hash''"
| "redaction_mode_name DomainMask = ''domain-mask''"

definition redaction_mode_from_name :: "string \<Rightarrow> redaction_mode option" where
  "redaction_mode_from_name name =
     (if name = ''hostname-only'' then Some HostnameOnly
      else if name = ''query-string-removal'' then Some QueryStringRemoval
      else if name = ''full-hostname'' then Some FullHostname
      else if name = ''domain-hash'' then Some DomainHash
      else if name = ''domain-mask'' then Some DomainMask
      else None)"

text \<open>Log levels; \<^verbatim>\<open>warning\<close> is a second spelling of \<^verbatim>\<open>warn\<close>.\<close>

datatype level = LvTrace | LvDebug | LvInfo | LvWarn | LvError | LvCritical

fun level_name :: "level \<Rightarrow> string" where
  "level_name LvTrace = ''trace''"
| "level_name LvDebug = ''debug''"
| "level_name LvInfo = ''info''"
| "level_name LvWarn = ''warn''"
| "level_name LvError = ''error''"
| "level_name LvCritical = ''critical''"

definition level_from_name :: "string \<Rightarrow> level option" where
  "level_from_name name =
     (if name = ''trace'' then Some LvTrace
      else if name = ''debug'' then Some LvDebug
      else if name = ''info'' then Some LvInfo
      else if name = ''warn'' \<or> name = ''warning'' then Some LvWarn
      else if name = ''error'' then Some LvError
      else if name = ''critical'' then Some LvCritical
      else None)"

text \<open>Error codes.\<close>

datatype error_code =
    InvalidFraming | MessageTooLarge | InvalidJson | InvalidUtf8
  | SchemaViolation | UnsupportedVersion | UnknownOperation | OperationNotAllowed | MissingField
  | TooManySubscriptions | QueueOverflow | ClientTimeout
  | DaemonUnavailable | SocketPermission | ConnectionClosed
  | BackendUnavailable | MissingPermission | CaptureFilterError | BackendLoadFailure
  | StorageError | PolicyViolation | InternalError

fun error_code_name :: "error_code \<Rightarrow> string" where
  "error_code_name InvalidFraming = ''invalid_framing''"
| "error_code_name MessageTooLarge = ''message_too_large''"
| "error_code_name InvalidJson = ''invalid_json''"
| "error_code_name InvalidUtf8 = ''invalid_utf8''"
| "error_code_name SchemaViolation = ''schema_violation''"
| "error_code_name UnsupportedVersion = ''unsupported_version''"
| "error_code_name UnknownOperation = ''unknown_operation''"
| "error_code_name OperationNotAllowed = ''operation_not_allowed''"
| "error_code_name MissingField = ''missing_field''"
| "error_code_name TooManySubscriptions = ''too_many_subscriptions''"
| "error_code_name QueueOverflow = ''queue_overflow''"
| "error_code_name ClientTimeout = ''client_timeout''"
| "error_code_name DaemonUnavailable = ''daemon_unavailable''"
| "error_code_name SocketPermission = ''socket_permission''"
| "error_code_name ConnectionClosed = ''connection_closed''"
| "error_code_name BackendUnavailable = ''backend_unavailable''"
| "error_code_name MissingPermission = ''missing_permission''"
| "error_code_name CaptureFilterError = ''capture_filter_error''"
| "error_code_name BackendLoadFailure = ''backend_load_failure''"
| "error_code_name StorageError = ''storage_error''"
| "error_code_name PolicyViolation = ''policy_violation''"
| "error_code_name InternalError = ''internal_error''"

fun error_code_description :: "error_code \<Rightarrow> string" where
  "error_code_description InvalidFraming = ''message framing is invalid''"
| "error_code_description MessageTooLarge = ''message exceeds the size limit''"
| "error_code_description InvalidJson = ''message is not valid JSON''"
| "error_code_description InvalidUtf8 = ''message contains invalid UTF-8''"
| "error_code_description SchemaViolation = ''message does not match the protocol schema''"
| "error_code_description UnsupportedVersion = ''protocol version is not supported''"
| "error_code_description UnknownOperation = ''operation is not recognised''"
| "error_code_description OperationNotAllowed = ''operation is not allowed''"
| "error_code_description MissingField = ''a required field is missing''"
| "error_code_description TooManySubscriptions = ''too many subscriptions for this client''"
| "error_code_description QueueOverflow = ''client queue overflowed''"
| "error_code_description ClientTimeout = ''client timed out''"
| "error_code_description DaemonUnavailable = ''daemon is unavailable''"
| "error_code_description SocketPermission = ''socket permission denied''"
| "error_code_description ConnectionClosed = ''connection closed''"
| "error_code_description BackendUnavailable = ''capture backend is unavailable''"
| "error_code_description MissingPermission = ''capture permission is missing''"
| "error_code_description CaptureFilterError = ''capture filter could not be applied''"
| "error_code_description BackendLoadFailure = ''capture backend failed to load''"
| "error_code_description StorageError = ''storage operation failed''"
| "error_code_description PolicyViolation = ''policy rejected the request''"
| "error_code_description InternalError = ''internal error''"

record ipc_error =
  err_code :: error_code
  err_message :: string

section \<open>The normalized event\<close>

type_synonym time_point = int

abbreviation seconds :: "int \<Rightarrow> time_point" where "seconds n \<equiv> n * 1000000000"
abbreviation milliseconds :: "int \<Rightarrow> time_point" where "milliseconds n \<equiv> n * 1000000"
abbreviation microseconds :: "int \<Rightarrow> time_point" where "microseconds n \<equiv> n * 1000"

record process_info =
  pi_pid :: u32
  pi_name :: string
  pi_uid :: "u32 option"

record network_info =
  net_transport :: transport
  net_direction :: direction
  net_local_address :: string
  net_local_port :: u16
  net_remote_address :: string
  net_remote_port :: u16
  net_dns_query_name :: string
  net_dns_response_code :: "u8 option"
  net_interface :: string
  net_backend :: event_source

record browser_info =
  br_tab_id :: u64
  br_window_id :: u64
  br_url :: string
  br_title :: string
  br_navigation_id :: string
  br_frame_id :: u64

text \<open>
  The five redaction flags of \<^verbatim>\<open>PrivacyInfo\<close> are indexed by \<^verbatim>\<open>RedactionKind\<close>; the array is a
  record with one field per kind, in the order of the enumeration.
\<close>

record redactions =
  rk_query_string :: bool
  rk_fragment :: bool
  rk_hostname_hash :: bool
  rk_hostname_mask :: bool
  rk_domain_excluded :: bool

record privacy_info =
  pv_redacted :: bool
  pv_metadata_only :: bool
  pv_redactions :: redactions

record backend_status =
  bs_name :: event_source
  bs_active :: bool
  bs_detail :: string

record event =
  ev_schema_version :: u32
  ev_event_id :: string
  ev_type :: event_type
  ev_source :: event_source
  ev_timestamp :: time_point
  ev_confidence :: double
  ev_correlation_id :: string
  ev_process :: "process_info option"
  ev_network :: "network_info option"
  ev_browser :: "browser_info option"
  ev_privacy :: privacy_info
  ev_backend_statuses :: "backend_status list"
  ev_error_code :: string
  ev_error_message :: string

definition kProtocolVersion :: u32 where "kProtocolVersion = 1"
definition kEventSchemaVersion :: u32 where "kEventSchemaVersion = 1"
definition kVersionString :: string where "kVersionString = ''0.1.0''"

text \<open>The default member initialisers of the structures.\<close>

definition no_redactions :: redactions where
  "no_redactions = \<lparr>rk_query_string = False, rk_fragment = False, rk_hostname_hash = False,
     rk_hostname_mask = False, rk_domain_excluded = False\<rparr>"

definition privacy_init :: privacy_info where
  "privacy_init = \<lparr>pv_redacted = False, pv_metadata_only = True, pv_redactions = no_redactions\<rparr>"

definition process_init :: process_info where
  "process_init = \<lparr>pi_pid = 0, pi_name = [], pi_uid = None\<rparr>"

definition network_init :: network_info where
  "network_init = \<lparr>net_transport = OtherTransport, net_direction = UnknownDirection,
     net_local_address = [], net_local_port = 0, net_remote_address = [], net_remote_port = 0,
     net_dns_query_name = [], net_dns_response_code = None, net_interface = [],
     net_backend = Pcap\<rparr>"

definition browser_init :: browser_info where
  "browser_init = \<lparr>br_tab_id = 0, br_window_id = 0, br_url = [], br_title = [],
     br_navigation_id = [], br_frame_id = 0\<rparr>"

definition event_init :: event where
  "event_init = \<lparr>ev_schema_version = kEventSchemaVersion, ev_event_id = [], ev_type = Connection,
     ev_source = Pcap, ev_timestamp = 0, ev_confidence = 0, ev_correlation_id = [],
     ev_process = None, ev_network = None, ev_browser = None, ev_privacy = privacy_init,
     ev_backend_statuses = [], ev_error_code = [], ev_error_message = []\<rparr>"

section \<open>The policy\<close>

record policy =
  po_redaction_mode :: redaction_mode
  po_strip_query_string :: bool
  po_strip_fragment :: bool
  po_sensitive_domains :: "string list"
  po_persistence_enabled :: bool
  po_retention :: int
  po_capture_interfaces :: "string list"
  po_pcap_filter :: string

definition policy_init :: policy where
  "policy_init = \<lparr>po_redaction_mode = QueryStringRemoval, po_strip_query_string = True,
     po_strip_fragment = True, po_sensitive_domains = [], po_persistence_enabled = False,
     po_retention = 86400 * 7, po_capture_interfaces = [], po_pcap_filter = ''ip or ip6''\<rparr>"

datatype policy_decision = Allow | Redact | Drop

section \<open>Requests and responses\<close>

definition kMaxRequestBytes :: nat where "kMaxRequestBytes = 64 * 1024"
definition kMaxEventBytes :: nat where "kMaxEventBytes = 256 * 1024"
definition kMaxClients :: nat where "kMaxClients = 16"
definition kMaxSubscriptionsPerClient :: nat where "kMaxSubscriptionsPerClient = 8"
definition kMaxOutgoingQueue :: nat where "kMaxOutgoingQueue = 1024"

record request =
  rq_protocol_version :: u32
  rq_operation :: operation
  rq_request_id :: string
  rq_params_json :: string

record response =
  rs_request_id :: string
  rs_ok :: bool
  rs_result_json :: string
  rs_error :: ipc_error

definition response_init :: response where
  "response_init = \<lparr>rs_request_id = [], rs_ok = False, rs_result_json = [],
     rs_error = \<lparr>err_code = InternalError, err_message = []\<rparr>\<rparr>"

section \<open>The name tables keep their contract\<close>

text \<open>
  The case-insensitive tables compare two folded strings, so a spelling is accepted exactly
  when its folding is one of the (lower-case) names.
\<close>

lemmas from_name_defs =
  event_type_from_name_def event_source_from_name_def transport_from_name_def
  direction_from_name_def operation_from_name_def redaction_mode_from_name_def
  level_from_name_def

interpretation event_types: folded_wire_names event_type_name event_type_from_name
proof
  fix e show "event_type_from_name (event_type_name e) = Some e"
    by (cases e) (simp_all add: event_type_from_name_def equals_ci_iff lower_char_def is_upper_def)
next
  fix s e show "event_type_from_name s = Some e \<longleftrightarrow> map lower_char s = event_type_name e"
    by (cases e) (auto simp: event_type_from_name_def equals_ci_iff lower_char_def is_upper_def)
qed

interpretation event_sources: folded_wire_names event_source_name event_source_from_name
proof
  fix e show "event_source_from_name (event_source_name e) = Some e"
    by (cases e) (simp_all add: event_source_from_name_def equals_ci_iff lower_char_def is_upper_def)
next
  fix s e show "event_source_from_name s = Some e \<longleftrightarrow> map lower_char s = event_source_name e"
    by (cases e) (auto simp: event_source_from_name_def equals_ci_iff lower_char_def is_upper_def)
qed

interpretation transports: folded_wire_names transport_name transport_from_name
proof
  fix e show "transport_from_name (transport_name e) = Some e"
    by (cases e) (simp_all add: transport_from_name_def equals_ci_iff lower_char_def is_upper_def)
next
  fix s e show "transport_from_name s = Some e \<longleftrightarrow> map lower_char s = transport_name e"
    by (cases e) (auto simp: transport_from_name_def equals_ci_iff lower_char_def is_upper_def)
qed

interpretation directions: folded_wire_names direction_name direction_from_name
proof
  fix e show "direction_from_name (direction_name e) = Some e"
    by (cases e) (simp_all add: direction_from_name_def equals_ci_iff lower_char_def is_upper_def)
next
  fix s e show "direction_from_name s = Some e \<longleftrightarrow> map lower_char s = direction_name e"
    by (cases e) (auto simp: direction_from_name_def equals_ci_iff lower_char_def is_upper_def)
qed

interpretation operations: exact_wire_names operation_name operation_from_name
proof
  fix e show "operation_from_name (operation_name e) = Some e"
    by (cases e) (simp_all add: operation_from_name_def)
next
  fix s e show "operation_from_name s = Some e \<Longrightarrow> s = operation_name e"
    by (auto simp: operation_from_name_def split: if_splits)
qed

interpretation redaction_modes: exact_wire_names redaction_mode_name redaction_mode_from_name
proof
  fix e show "redaction_mode_from_name (redaction_mode_name e) = Some e"
    by (cases e) (simp_all add: redaction_mode_from_name_def)
next
  fix s e show "redaction_mode_from_name s = Some e \<Longrightarrow> s = redaction_mode_name e"
    by (auto simp: redaction_mode_from_name_def split: if_splits)
qed

interpretation levels: wire_names level_name level_from_name
proof
  fix e show "level_from_name (level_name e) = Some e"
    by (cases e) (simp_all add: level_from_name_def)
qed

text \<open>Error codes are part of the wire format: no two share a name.\<close>

lemma error_code_name_inj: "error_code_name c = error_code_name d \<longleftrightarrow> c = d"
  by (cases c; cases d) simp_all

end
