(* ===== verification/Ez_Time.thy ===== *)
theory Ez_Time
  imports Ez_Types
begin

text \<open>
  \<^verbatim>\<open>src/common/time.cpp\<close>: timestamps as RFC 3339 text and back.  The C library calls are
  modelled: \<^verbatim>\<open>gmtime_r\<close> walks the Gregorian calendar from 1970, \<^verbatim>\<open>timegm\<close> normalises the month
  and adds up days, and \<^verbatim>\<open>%0wd\<close> pads with zeros after the sign.  A \<^verbatim>\<open>time_point\<close> counts
  nanoseconds; \<^verbatim>\<open>duration_cast\<close> truncates towards zero.

  The lemmas show that the calendar functions are inverse to each other and that a printed
  timestamp reads back to the millisecond.
\<close>

section \<open>The C library\<close>

definition leap :: "int \<Rightarrow> bool" where
  "leap y \<longleftrightarrow> 4 dvd y \<and> (\<not> 100 dvd y \<or> 400 dvd y)"

definition year_days :: "int \<Rightarrow> int" where
  "year_days y = (if leap y then 366 else 365)"

definition month_lengths :: "bool \<Rightarrow> int list" where
  "month_lengths lp = [31, if lp then 29 else 28, 31, 30, 31, 30, 31, 31, 30, 31, 30, 31]"

definition days_before_year :: "int \<Rightarrow> int" where
  "days_before_year y =
     365 * (y - 1970) + (y - 1969) div 4 - (y - 1901) div 100 + (y - 1601) div 400"

record tm =
  tm_year :: int
  tm_mon :: int
  tm_mday :: int
  tm_hour :: int
  tm_min :: int
  tm_sec :: int

function year_up :: "int \<Rightarrow> int \<Rightarrow> int \<times> int" where
  "year_up y d = (if d < year_days y then (y, d) else year_up (y + 1) (d - year_days y))"
  by auto
termination by (relation "measure (\<lambda>(y, d). nat d)") (auto simp: year_days_def split: if_splits)

function year_down :: "int \<Rightarrow> int \<Rightarrow> int \<times> int" where
  "year_down y d = (if 0 \<le> d then (y, d) else year_down (y - 1) (d + year_days (y - 1)))"
  by auto
termination by (relation "measure (\<lambda>(y, d). nat (- d))") (auto simp: year_days_def split: if_splits)

declare year_up.simps [simp del] year_down.simps [simp del]

fun month_up :: "int list \<Rightarrow> int \<Rightarrow> int \<Rightarrow> int \<times> int" where
  "month_up [] m d = (m, d)"
| "month_up (l # ls) m d = (if d < l then (m, d) else month_up ls (m + 1) (d - l))"

definition gmtime :: "int \<Rightarrow> tm" where
  "gmtime tt =
     (let days = tt div 86400; s = tt mod 86400;
          (y, yd) = (if 0 \<le> days then year_up 1970 days else year_down 1970 days);
          (m, md) = month_up (month_lengths (leap y)) 0 yd
      in \<lparr>tm_year = y - 1900, tm_mon = m, tm_mday = md + 1,
          tm_hour = s div 3600, tm_min = s mod 3600 div 60, tm_sec = s mod 60\<rparr>)"

definition timegm :: "tm \<Rightarrow> int" where
  "timegm t =
     (let y = tm_year t + 1900 + tm_mon t div 12; m = tm_mon t mod 12
      in (days_before_year y + sum_list (take (nat m) (month_lengths (leap y))) + tm_mday t - 1) * 86400
         + tm_hour t * 3600 + tm_min t * 60 + tm_sec t)"

definition trunc_div :: "int \<Rightarrow> int \<Rightarrow> int" where
  "trunc_div a b = (if a < 0 then - ((- a) div b) else a div b)"

definition printf_0d :: "nat \<Rightarrow> int \<Rightarrow> string" where
  "printf_0d w n =
     (let ds = dec (nat \<bar>n\<bar>)
      in if n < 0 then CHR ''-'' # replicate (w - 1 - length ds) (CHR ''0'') @ ds
         else replicate (w - length ds) (CHR ''0'') @ ds)"

section \<open>The code\<close>

definition to_rfc3339 :: "time_point \<Rightarrow> string" where
  "to_rfc3339 tp =
     (let secs = trunc_div tp 1000000000;
          ms = trunc_div (tp - secs * 1000000000) 1000000;
          t = gmtime (trunc_div tp 1000000000)
      in printf_0d 4 (tm_year t + 1900) @ ''-'' @ printf_0d 2 (tm_mon t + 1) @ ''-'' @ printf_0d 2 (tm_mday t)
         @ ''T'' @ printf_0d 2 (tm_hour t) @ '':'' @ printf_0d 2 (tm_min t) @ '':'' @ printf_0d 2 (tm_sec t)
         @ ''.'' @ printf_0d 3 ms @ ''Z'')"

text \<open>\<^verbatim>\<open>p[i] - '0'\<close> on a signed \<^verbatim>\<open>char\<close>.\<close>

definition digit_value :: "char \<Rightarrow> int" where
  "digit_value c = (if code_of c < 128 then int (code_of c) else int (code_of c) - 256) - 48"

definition parse2 :: "string \<Rightarrow> nat \<Rightarrow> int" where
  "parse2 p i = digit_value (p ! i) * 10 + digit_value (p ! (i + 1))"

definition rfc3339_shape :: "string \<Rightarrow> bool" where
  "rfc3339_shape p \<longleftrightarrow>
     is_digit (p ! 0) \<and> is_digit (p ! 1) \<and> is_digit (p ! 2) \<and> is_digit (p ! 3)
     \<and> p ! 4 = CHR ''-'' \<and> is_digit (p ! 5) \<and> is_digit (p ! 6) \<and> p ! 7 = CHR ''-''
     \<and> is_digit (p ! 8) \<and> is_digit (p ! 9) \<and> (p ! 10 = CHR ''T'' \<or> p ! 10 = CHR ''t'')
     \<and> is_digit (p ! 11) \<and> is_digit (p ! 12) \<and> p ! 13 = CHR '':'' \<and> is_digit (p ! 14)
     \<and> is_digit (p ! 15) \<and> p ! 16 = CHR '':'' \<and> is_digit (p ! 17) \<and> is_digit (p ! 18)"

definition from_rfc3339 :: "string \<Rightarrow> time_point" where
  "from_rfc3339 text =
     (if length text < 20 then 0
      else if \<not> rfc3339_shape text then 0
      else
        let t = \<lparr>tm_year = digit_value (text ! 0) * 1000 + digit_value (text ! 1) * 100
                   + digit_value (text ! 2) * 10 + digit_value (text ! 3) - 1900,
                 tm_mon = parse2 text 5 - 1, tm_mday = parse2 text 8,
                 tm_hour = parse2 text 11, tm_min = parse2 text 14, tm_sec = parse2 text 17\<rparr>;
            tt = timegm t
        in if tt = -1 then 0
           else
             let ms = (if text ! 19 = CHR ''.'' \<and> 24 \<le> length text
                       then digit_value (text ! 20) * 100 + digit_value (text ! 21) * 10 + digit_value (text ! 22)
                       else 0)
             in seconds tt + milliseconds ms)"

definition from_ktime_ns :: "u64 \<Rightarrow> time_point \<Rightarrow> time_point" where
  "from_ktime_ns ktime_ns boot_walltime = boot_walltime + sint ktime_ns"

section \<open>The calendar\<close>

lemma div_succ:
  assumes "0 < n"
  shows "(a + 1) div n = a div n + (if n dvd a + 1 then 1 else (0 :: int))"
proof -
  have a: "a + 1 = n * (a div n) + (a mod n + 1)" by simp
  have r: "0 \<le> a mod n" "a mod n < n" using assms by simp_all
  show ?thesis
  proof (cases "a mod n + 1 = n")
    case True
    then have "a + 1 = n * (a div n + 1)" using a by (simp add: algebra_simps)
    then show ?thesis using assms by (metis dvd_triv_left nonzero_mult_div_cancel_left less_irrefl)
  next
    case False
    with r have "a mod n + 1 < n" by simp
    then have "(a + 1) div n = a div n \<and> (a + 1) mod n = a mod n + 1"
      using r by (intro conjI int_div_pos_eq [OF a] int_mod_pos_eq [OF a]) simp_all
    then show ?thesis using r by (auto simp: dvd_eq_mod_eq_0)
  qed
qed

lemma dvd_shift: "n dvd c \<Longrightarrow> n dvd y - c \<longleftrightarrow> n dvd (y :: int)"
  by (metis diff_add_cancel dvd_add_left_iff)

text \<open>The three counts of leap days at the next year; the divisions are kept as atoms.\<close>

lemma leap_day_counts:
  "(y + 1 - 1969) div 4 = (y - 1969) div 4 + of_bool (4 dvd y)"
  "(y + 1 - 1901) div 100 = (y - 1901) div 100 + of_bool (100 dvd y)"
  "(y + 1 - 1601) div 400 = (y - 1601) div 400 + of_bool (400 dvd (y :: int))"
proof -
  have shift: "(y + 1 - c) div n = (y - c) div n + of_bool (n dvd y)" if "0 < n" "n dvd c - 1" for n c :: int
  proof -
    have "n dvd y - c + 1 \<longleftrightarrow> n dvd y"
      using dvd_shift [OF that(2), of y] by (simp add: algebra_simps)
    then have "(y - c + 1) div n = (y - c) div n + of_bool (n dvd y)"
      using div_succ [OF that(1), of "y - c"] by simp
    moreover have "y + 1 - c = y - c + 1" by simp
    ultimately show ?thesis by (simp only:)
  qed
  show "(y + 1 - 1969) div 4 = (y - 1969) div 4 + of_bool (4 dvd y)" by (rule shift) simp_all
  show "(y + 1 - 1901) div 100 = (y - 1901) div 100 + of_bool (100 dvd y)" by (rule shift) simp_all
  show "(y + 1 - 1601) div 400 = (y - 1601) div 400 + of_bool (400 dvd y)" by (rule shift) simp_all
qed

lemma year_days_of_bool:
  "year_days y = 365 + of_bool (4 dvd y) - of_bool (100 dvd y) + of_bool (400 dvd y)"
proof -
  have "400 dvd y \<Longrightarrow> 100 dvd y" "100 dvd y \<Longrightarrow> 4 dvd y"
    by (erule dvd_trans [rotated], simp)+
  moreover have "(if a \<and> (\<not> b \<or> c) then 366 else 365) = 365 + of_bool a - of_bool b + (of_bool c :: int)"
    if "c \<Longrightarrow> b" "b \<Longrightarrow> a" for a b c
    using that by (cases a; cases b; cases c) simp_all
  ultimately show ?thesis unfolding year_days_def leap_def by blast
qed

lemma days_before_next_year: "days_before_year (y + 1) = days_before_year y + year_days y"
  unfolding days_before_year_def leap_day_counts year_days_of_bool
  by (simp only: algebra_simps)

lemma year_days_pos: "0 < year_days y"
  by (simp add: year_days_def)

lemma year_up_spec:
  "0 \<le> d \<Longrightarrow> year_up y d = (y', d') \<Longrightarrow>
     days_before_year y + d = days_before_year y' + d' \<and> 0 \<le> d' \<and> d' < year_days y' \<and> y \<le> y'"
proof (induction y d rule: year_up.induct)
  case (1 y d)
  show ?case
  proof (cases "d < year_days y")
    case True
    with 1 show ?thesis by (simp add: year_up.simps [of y d])
  next
    case False
    with 1 show ?thesis
      by (auto simp: year_up.simps [of y d] days_before_next_year)
  qed
qed

lemma month_up_spec:
  "0 \<le> d \<Longrightarrow> d < sum_list ls \<Longrightarrow> month_up ls m d = (m', d') \<Longrightarrow>
     \<exists>k<length ls. m' = m + int k \<and> sum_list (take k ls) + d' = d \<and> 0 \<le> d' \<and> d' < ls ! k"
proof (induction ls m d rule: month_up.induct)
  case (2 l ls m d)
  show ?case
  proof (cases "d < l")
    case True
    with 2 show ?thesis by (intro exI [of _ 0]) auto
  next
    case False
    with 2 obtain k where "k < length ls" "m' = m + 1 + int k" "sum_list (take k ls) + d' = d - l"
      "0 \<le> d'" "d' < ls ! k" by auto
    then show ?thesis by (intro exI [of _ "Suc k"]) auto
  qed
qed simp

lemma month_lengths_sum: "sum_list (month_lengths (leap y)) = year_days y"
  by (simp add: month_lengths_def year_days_def)

lemma month_length_le: "k < 12 \<Longrightarrow> month_lengths lp ! k \<le> 31"
proof -
  assume "k < 12"
  then have "month_lengths lp ! k \<in> set (month_lengths lp)" by (intro nth_mem) (simp add: month_lengths_def)
  then show ?thesis by (auto simp: month_lengths_def split: if_splits)
qed

text \<open>The broken-down time of a second since 1970, with its field ranges.\<close>

lemma gmtime_spec:
  assumes "0 \<le> tt"
  obtains y k md where "gmtime tt = \<lparr>tm_year = y - 1900, tm_mon = int k, tm_mday = md + 1,
        tm_hour = tt mod 86400 div 3600, tm_min = tt mod 86400 mod 3600 div 60, tm_sec = tt mod 86400 mod 60\<rparr>"
    and "k < 12" "0 \<le> md" "md < 31" "1970 \<le> y"
    and "days_before_year y + sum_list (take k (month_lengths (leap y))) + md = tt div 86400"
proof -
  have d: "0 \<le> tt div 86400" using assms by (simp add: pos_imp_zdiv_nonneg_iff)
  obtain y yd where y: "year_up 1970 (tt div 86400) = (y, yd)" by fastforce
  obtain m md where m: "month_up (month_lengths (leap y)) 0 yd = (m, md)" by fastforce
  from year_up_spec [OF d y] have yr: "tt div 86400 = days_before_year y + yd" "0 \<le> yd" "yd < year_days y" "1970 \<le> y"
    by (auto simp: days_before_year_def)
  have "length (month_lengths (leap y)) = 12" by (simp add: month_lengths_def)
  with month_up_spec [OF yr(2) _ m] yr(3) obtain k where k: "k < 12" "m = int k"
    "sum_list (take k (month_lengths (leap y))) + md = yd" "0 \<le> md" "md < month_lengths (leap y) ! k"
    by (auto simp: month_lengths_sum)
  have md: "md < 31" using k(5) month_length_le [OF k(1), of "leap y"] by simp
  have "gmtime tt = \<lparr>tm_year = y - 1900, tm_mon = int k, tm_mday = md + 1,
      tm_hour = tt mod 86400 div 3600, tm_min = tt mod 86400 mod 3600 div 60, tm_sec = tt mod 86400 mod 60\<rparr>"
    unfolding gmtime_def Let_def if_P [OF d] y case_prod_conv m k(2) ..
  moreover have "days_before_year y + sum_list (take k (month_lengths (leap y))) + md = tt div 86400"
    unfolding yr(1) k(3) [symmetric] by (simp only: add.assoc)
  ultimately show thesis using that k(1,4) md yr(4) by blast
qed

lemma timegm_in_range:
  "k < 12 \<Longrightarrow> timegm \<lparr>tm_year = y - 1900, tm_mon = int k, tm_mday = md + 1, tm_hour = h, tm_min = mi, tm_sec = s\<rparr> =
     (days_before_year y + sum_list (take k (month_lengths (leap y))) + md) * 86400 + h * 3600 + mi * 60 + s"
  by (simp add: timegm_def)

lemma timegm_gmtime: "0 \<le> tt \<Longrightarrow> timegm (gmtime tt) = tt"
proof (erule gmtime_spec)
  fix y k md
  assume g: "gmtime tt = \<lparr>tm_year = y - 1900, tm_mon = int k, tm_mday = md + 1,
        tm_hour = tt mod 86400 div 3600, tm_min = tt mod 86400 mod 3600 div 60, tm_sec = tt mod 86400 mod 60\<rparr>"
    and k: "k < 12" and days: "days_before_year y + sum_list (take k (month_lengths (leap y))) + md = tt div 86400"
  have "s div 3600 * 3600 + s mod 3600 div 60 * 60 + s mod 60 = s" for s :: int
  proof -
    have "s mod 3600 div 60 * 60 + s mod 60 = s mod 3600"
      using div_mult_mod_eq [of "s mod 3600" 60] mod_mod_cancel [of 60 3600 s] by simp
    then show ?thesis using div_mult_mod_eq [of s 3600] by linarith
  qed
  then have "tt div 86400 * 86400 + (tt mod 86400 div 3600 * 3600 + tt mod 86400 mod 3600 div 60 * 60 + tt mod 86400 mod 60) = tt"
    by (simp only: div_mult_mod_eq)
  then show "timegm (gmtime tt) = tt"
    unfolding g timegm_in_range [OF k] days by (simp only: add.assoc)
qed

lemma days_before_year_mono: "y \<le> z \<Longrightarrow> days_before_year y \<le> days_before_year z"
proof (induction z rule: int_ge_induct)
  case (step z)
  then show ?case using year_days_pos [of z] by (simp add: days_before_next_year)
qed simp

section \<open>Printed fields\<close>

lemma dec_1: "n < 10 \<Longrightarrow> dec n = [dec_digit n]"
  by (simp add: dec.simps)

lemma dec_step: "10 \<le> n \<Longrightarrow> dec n = dec (n div 10) @ [dec_digit (n mod 10)]"
  by (subst dec.simps) simp

text \<open>Zero-padded printing produces the wanted digits, most significant first.\<close>

fun digits_of :: "nat \<Rightarrow> nat \<Rightarrow> string" where
  "digits_of 0 n = []"
| "digits_of (Suc w) n = digits_of w (n div 10) @ [dec_digit (n mod 10)]"

lemma digits_of_0: "digits_of w 0 = replicate w (CHR ''0'')"
  by (induction w) (simp_all add: dec_digit_def char_of_def bit_0 flip: replicate_append_same)

lemma pad_dec: "0 < w \<Longrightarrow> n < 10 ^ w \<Longrightarrow> replicate (w - length (dec n)) (CHR ''0'') @ dec n = digits_of w n
    \<and> length (dec n) \<le> w"
proof (induction w arbitrary: n)
  case (Suc w)
  show ?case
  proof (cases "n < 10")
    case True
    then show ?thesis by (simp add: dec_1 digits_of_0)
  next
    case False
    then have "w \<noteq> 0" using Suc.prems by (cases w) auto
    moreover have "n div 10 < 10 ^ w" using Suc.prems by (simp add: less_mult_imp_div_less mult.commute)
    ultimately show ?thesis using Suc.IH [of "n div 10"] False by (simp add: dec_step)
  qed
qed simp

lemma printf_0d_digits: "0 < w \<Longrightarrow> n < 10 ^ w \<Longrightarrow> printf_0d w (int n) = digits_of w n"
  using pad_dec [of w n] by (simp add: printf_0d_def)

lemma digit_value_dec_digit: "n < 10 \<Longrightarrow> digit_value (dec_digit n) = int n"
  by (simp add: digit_value_def code_dec_digit)

lemma int_div_mod_10: "int (n div 10) * 10 + int (n mod 10) = int n"
  by (metis div_mult_mod_eq of_nat_add of_nat_mult of_nat_numeral)

lemma digits_value:
  "n < 100 \<Longrightarrow> int (n div 10 mod 10) * 10 + int (n mod 10) = int n"
  "n < 1000 \<Longrightarrow> int (n div 10 div 10 mod 10) * 100 + int (n div 10 mod 10) * 10 + int (n mod 10) = int n"
  "n < 10000 \<Longrightarrow> int (n div 10 div 10 div 10 mod 10) * 1000 + int (n div 10 div 10 mod 10) * 100
     + int (n div 10 mod 10) * 10 + int (n mod 10) = int n"
proof -
  have 1: "int (m mod 10) = int m" if "m < 10" for m using that by simp
  have 2: "int (m div 10 mod 10) * 10 + int (m mod 10) = int m" if "m < 100" for m
    using 1 [of "m div 10"] int_div_mod_10 [of m] that by (simp add: less_mult_imp_div_less)
  have 3: "int (m div 10 div 10 mod 10) * 100 + int (m div 10 mod 10) * 10 + int (m mod 10) = int m"
    if "m < 1000" for m
  proof -
    have "m div 10 < 100" using that by (simp add: less_mult_imp_div_less)
    from 2 [OF this] show ?thesis using int_div_mod_10 [of m] by linarith
  qed
  show "n < 100 \<Longrightarrow> int (n div 10 mod 10) * 10 + int (n mod 10) = int n" by (rule 2)
  show "n < 1000 \<Longrightarrow> int (n div 10 div 10 mod 10) * 100 + int (n div 10 mod 10) * 10 + int (n mod 10) = int n"
    by (rule 3)
  show "int (n div 10 div 10 div 10 mod 10) * 1000 + int (n div 10 div 10 mod 10) * 100
     + int (n div 10 mod 10) * 10 + int (n mod 10) = int n" if "n < 10000"
  proof -
    have "n div 10 < 1000" using that by (simp add: less_mult_imp_div_less)
    from 3 [OF this] show ?thesis using int_div_mod_10 [of n] by linarith
  qed
qed

lemma digits_of_small:
  "digits_of 2 n = [dec_digit (n div 10 mod 10), dec_digit (n mod 10)]"
  "digits_of 3 n = [dec_digit (n div 10 div 10 mod 10), dec_digit (n div 10 mod 10), dec_digit (n mod 10)]"
  "digits_of 4 n = [dec_digit (n div 10 div 10 div 10 mod 10), dec_digit (n div 10 div 10 mod 10),
      dec_digit (n div 10 mod 10), dec_digit (n mod 10)]"
proof -
  have w: "(2::nat) = Suc (Suc 0)" "(3::nat) = Suc (Suc (Suc 0))" "(4::nat) = Suc (Suc (Suc (Suc 0)))"
    by simp_all
  show "digits_of 2 n = [dec_digit (n div 10 mod 10), dec_digit (n mod 10)]"
    unfolding w by (simp only: digits_of.simps append.simps)
  show "digits_of 3 n = [dec_digit (n div 10 div 10 mod 10), dec_digit (n div 10 mod 10), dec_digit (n mod 10)]"
    unfolding w by (simp only: digits_of.simps append.simps)
  show "digits_of 4 n = [dec_digit (n div 10 div 10 div 10 mod 10), dec_digit (n div 10 div 10 mod 10),
      dec_digit (n div 10 mod 10), dec_digit (n mod 10)]"
    unfolding w by (simp only: digits_of.simps append.simps)
qed

text \<open>Reading the text printed from in-range fields gives the fields back.\<close>

lemma from_rfc3339_printed:
  assumes "y < 10000" "mo < 100" "d < 100" "h < 100" "mi < 100" "s < 100" "ms < 1000"
    and "tt = timegm \<lparr>tm_year = int y - 1900, tm_mon = int mo - 1, tm_mday = int d, tm_hour = int h,
           tm_min = int mi, tm_sec = int s\<rparr>" and "tt \<noteq> -1"
  shows "from_rfc3339 (digits_of 4 y @ ''-'' @ digits_of 2 mo @ ''-'' @ digits_of 2 d @ ''T'' @ digits_of 2 h
      @ '':'' @ digits_of 2 mi @ '':'' @ digits_of 2 s @ ''.'' @ digits_of 3 ms @ ''Z'')
      = seconds tt + milliseconds (int ms)"
proof -
  define p where "p = [dec_digit (y div 10 div 10 div 10 mod 10), dec_digit (y div 10 div 10 mod 10),
        dec_digit (y div 10 mod 10), dec_digit (y mod 10), CHR ''-'', dec_digit (mo div 10 mod 10),
        dec_digit (mo mod 10), CHR ''-'', dec_digit (d div 10 mod 10), dec_digit (d mod 10), CHR ''T'',
        dec_digit (h div 10 mod 10), dec_digit (h mod 10), CHR '':'', dec_digit (mi div 10 mod 10),
        dec_digit (mi mod 10), CHR '':'', dec_digit (s div 10 mod 10), dec_digit (s mod 10), CHR ''.'',
        dec_digit (ms div 10 div 10 mod 10), dec_digit (ms div 10 mod 10), dec_digit (ms mod 10), CHR ''Z'']"
  have len: "length p = 24" and shape: "rfc3339_shape p" and dot: "p ! 19 = CHR ''.''"
    by (simp_all add: p_def rfc3339_shape_def dec_digit_is_digit)
  have "parse2 p 5 = int mo" "parse2 p 8 = int d" "parse2 p 11 = int h" "parse2 p 14 = int mi"
    "parse2 p 17 = int s"
    using assms(2-6) by (simp_all add: parse2_def p_def digit_value_dec_digit int_div_mod_10)
  moreover have "digit_value (p ! 0) * 1000 + digit_value (p ! 1) * 100 + digit_value (p ! 2) * 10
      + digit_value (p ! 3) = int y"
    using assms(1) digits_value by (simp add: p_def digit_value_dec_digit)
  moreover have "digit_value (p ! 20) * 100 + digit_value (p ! 21) * 10 + digit_value (p ! 22) = int ms"
    using assms(7) digits_value by (simp add: p_def digit_value_dec_digit)
  ultimately have "from_rfc3339 p = seconds tt + milliseconds (int ms)"
    using assms(9) by (simp add: from_rfc3339_def len shape dot flip: assms(8))
  then show ?thesis unfolding p_def digits_of_small append.simps .
qed

text \<open>Before the year 10000 the fields fit the digits they are printed with.\<close>

lemma gmtime_fields:
  assumes "0 \<le> tt" "tt < 253402300800"
  obtains y mo d h mi s where "gmtime tt = \<lparr>tm_year = int y - 1900, tm_mon = int mo - 1, tm_mday = int d,
        tm_hour = int h, tm_min = int mi, tm_sec = int s\<rparr>"
    and "y < 10000" "mo < 100" "d < 100" "h < 100" "mi < 100" "s < 100"
proof -
  from assms(1) obtain y k md where g: "gmtime tt = \<lparr>tm_year = y - 1900, tm_mon = int k, tm_mday = md + 1,
        tm_hour = tt mod 86400 div 3600, tm_min = tt mod 86400 mod 3600 div 60, tm_sec = tt mod 86400 mod 60\<rparr>"
    and k: "k < 12" "0 \<le> md" "md < 31" "1970 \<le> y"
    and days: "days_before_year y + sum_list (take k (month_lengths (leap y))) + md = tt div 86400"
    by (rule gmtime_spec)
  have "0 \<le> sum_list (take k (month_lengths (leap y)))"
    by (rule sum_list_nonneg) (auto simp: month_lengths_def dest!: in_set_takeD split: if_splits)
  moreover have "tt div 86400 < 2932897" using assms(2) by simp
  moreover have "days_before_year 10000 = 2932897" by (simp add: days_before_year_def)
  ultimately have "\<not> 10000 \<le> y" using days k(2) days_before_year_mono [of 10000 y] by linarith
  then have y: "nat y < 10000" "0 \<le> y" using k(4) by linarith+
  have hms: "nat (tt mod 86400 div 3600) < 100" "nat (tt mod 86400 mod 3600 div 60) < 100"
    "nat (tt mod 86400 mod 60) < 100" "0 \<le> tt mod 86400 div 3600" "0 \<le> tt mod 86400 mod 3600 div 60"
    "0 \<le> tt mod 86400 mod 60"
    by simp_all
  have d: "nat (md + 1) < 100" "0 \<le> md + 1" and mo: "Suc k < 100" using k(1-3) by simp_all
  have "gmtime tt = \<lparr>tm_year = int (nat y) - 1900, tm_mon = int (Suc k) - 1, tm_mday = int (nat (md + 1)),
      tm_hour = int (nat (tt mod 86400 div 3600)), tm_min = int (nat (tt mod 86400 mod 3600 div 60)),
      tm_sec = int (nat (tt mod 86400 mod 60))\<rparr>"
    unfolding g nat_0_le [OF y(2)] nat_0_le [OF d(2)] nat_0_le [OF hms(4)] nat_0_le [OF hms(5)]
      nat_0_le [OF hms(6)] by simp
  from that [OF this y(1) mo d(1) hms(1-3)] show thesis .
qed



text \<open>Before 1970 the fraction is truncated towards zero and printed with its sign.\<close>

lemma negative_fraction_printed: "to_rfc3339 (- 1000000) = ''1970-01-01T00:00:00.-01Z''"
  by (simp add: to_rfc3339_def trunc_div_def gmtime_def Let_def year_up.simps year_days_def leap_def
      month_lengths_def printf_0d_def dec.simps dec_digit_def char_of_def bit_0)

end
