(* ===== verification/Ez_Json.thy ===== *)
theory Ez_Json
  imports Ez_Prelude "HOL-Library.List_Lexorder" "HOL-Library.Char_ord"
begin

text \<open>
  JSON documents as the sources see them through \<^verbatim>\<open>nlohmann::json\<close>: the value kinds of the
  library, an object as the \<^verbatim>\<open>std::map\<close> it is (an association list in key order, each key
  once), the type tests, member access and assignment.  Reading a text into a document and
  printing a document (\<^verbatim>\<open>json::parse\<close>, \<^verbatim>\<open>dump\<close>) are not defined here: they are parameters of the
  definitions that call them, \<open>parse :: string \<Rightarrow> json option\<close> with \<^const>\<open>None\<close> for a discarded
  value, and \<open>dump :: json \<Rightarrow> string option\<close> with \<^const>\<open>None\<close> for the exception that a text which is
  not UTF-8 raises.

  The library distinguishes signed and unsigned integers; both are integers for
  \<open>is_number_integer\<close>, only the second is one for \<open>is_number_unsigned\<close>.
\<close>

datatype json =
    JNull
  | JBool bool
  | JInteger "64 word"
  | JUnsigned "64 word"
  | JFloat double
  | JString string
  | JArray "json list"
  | JObject "(string \<times> json) list"

section \<open>Objects\<close>

fun obj_set :: "'k::linorder \<Rightarrow> 'v \<Rightarrow> ('k \<times> 'v) list \<Rightarrow> ('k \<times> 'v) list" where
  "obj_set k v [] = [(k, v)]"
| "obj_set k v ((k', v') # kvs) =
     (if k < k' then (k, v) # (k', v') # kvs
      else if k = k' then (k, v) # kvs
      else (k', v') # obj_set k v kvs)"

definition obj_of :: "(string \<times> json) list \<Rightarrow> json" where
  "obj_of kvs = JObject (fold (\<lambda>(k, v). obj_set k v) kvs [])"

lemma map_of_obj_set [simp]: "map_of (obj_set k v kvs) = (map_of kvs)(k \<mapsto> v)"
  by (induction kvs) auto

lemma fst_set_obj_set [simp]: "fst ` set (obj_set k v kvs) = insert k (fst ` set kvs)"
  by (induction k v kvs rule: obj_set.induct) (simp_all add: insert_commute)

lemma sorted_obj_set: "sorted (map fst kvs) \<and> distinct (map fst kvs) \<Longrightarrow>
    sorted (map fst (obj_set k v kvs)) \<and> distinct (map fst (obj_set k v kvs))"
proof (induction kvs)
  case Nil
  show ?case by simp
next
  case (Cons kv kvs)
  obtain k' v' where kv: "kv = (k', v')" by (cases kv)
  from Cons kv have IH: "sorted (map fst (obj_set k v kvs)) \<and> distinct (map fst (obj_set k v kvs))"
    by simp
  from Cons.prems kv have le: "\<forall>x\<in>fst ` set kvs. k' \<le> x" and nin: "k' \<notin> fst ` set kvs"
    by auto
  consider "k < k'" | "k = k'" | "k' < k" by fastforce
  then show ?case
  proof cases
    case 1
    with Cons.prems kv le show ?thesis by fastforce
  next
    case 2
    with Cons.prems kv show ?thesis by simp
  next
    case 3
    then have "\<forall>x\<in>insert k (fst ` set kvs). k' \<le> x" using le by auto
    moreover have "k' \<notin> insert k (fst ` set kvs)" using nin 3 by auto
    ultimately show ?thesis using IH 3 kv
      by (auto simp flip: fst_set_obj_set [of k v kvs] simp del: fst_set_obj_set)
  qed
qed

lemma set_obj_set: "set (obj_set k v kvs) \<subseteq> insert (k, v) (set kvs)"
  by (induction k v kvs rule: obj_set.induct) (auto split: if_splits)

section \<open>Type tests and access\<close>

fun is_object :: "json \<Rightarrow> bool" where
  "is_object (JObject _) = True"
| "is_object _ = False"

fun is_array :: "json \<Rightarrow> bool" where
  "is_array (JArray _) = True"
| "is_array _ = False"

fun is_string :: "json \<Rightarrow> bool" where
  "is_string (JString _) = True"
| "is_string _ = False"

fun is_boolean :: "json \<Rightarrow> bool" where
  "is_boolean (JBool _) = True"
| "is_boolean _ = False"

fun is_null :: "json \<Rightarrow> bool" where
  "is_null JNull = True"
| "is_null _ = False"

fun is_number_integer :: "json \<Rightarrow> bool" where
  "is_number_integer (JInteger _) = True"
| "is_number_integer (JUnsigned _) = True"
| "is_number_integer _ = False"

fun is_number_unsigned :: "json \<Rightarrow> bool" where
  "is_number_unsigned (JUnsigned _) = True"
| "is_number_unsigned _ = False"

fun is_number :: "json \<Rightarrow> bool" where
  "is_number (JFloat _) = True"
| "is_number d = is_number_integer d"

text \<open>
  \<open>items\<close> are the members of an object, \<open>elems\<close> the elements of an array; \<open>jsize\<close> is \<^verbatim>\<open>size()\<close>,
  which is 0 for null and 1 for a scalar.  \<open>member d k\<close> is \<^verbatim>\<open>contains\<close> and \<^verbatim>\<open>at\<close> in one: a
  document that is not an object contains nothing.
\<close>

fun items :: "json \<Rightarrow> (string \<times> json) list" where
  "items (JObject kvs) = kvs"
| "items _ = []"

fun elems :: "json \<Rightarrow> json list" where
  "elems (JArray xs) = xs"
| "elems _ = []"

fun jsize :: "json \<Rightarrow> nat" where
  "jsize JNull = 0"
| "jsize (JArray xs) = length xs"
| "jsize (JObject kvs) = length kvs"
| "jsize _ = 1"

definition member :: "json \<Rightarrow> string \<Rightarrow> json option" where
  "member d k = map_of (items d) k"

definition contains :: "json \<Rightarrow> string \<Rightarrow> bool" where
  "contains d k \<longleftrightarrow> member d k \<noteq> None"

text \<open>
  The readers a \<^verbatim>\<open>get<T>()\<close> stands for, at the types the sources ask for after the matching
  type test.  The 64-bit readers convert between signed and unsigned by reinterpreting the
  word, as the library's \<^verbatim>\<open>static_cast\<close> does.
\<close>

fun get_string :: "json \<Rightarrow> string" where
  "get_string (JString s) = s"
| "get_string _ = []"

fun get_bool :: "json \<Rightarrow> bool" where
  "get_bool (JBool b) = b"
| "get_bool _ = False"

fun get_int64 :: "json \<Rightarrow> int" where
  "get_int64 (JInteger w) = sint w"
| "get_int64 (JUnsigned w) = sint w"
| "get_int64 _ = 0"

fun get_uint64 :: "json \<Rightarrow> nat" where
  "get_uint64 (JUnsigned w) = unat w"
| "get_uint64 (JInteger w) = unat w"
| "get_uint64 _ = 0"

lemma get_string_id: "is_string d \<Longrightarrow> JString (get_string d) = d"
  by (cases d) auto

section \<open>Building documents\<close>

text \<open>
  \<^verbatim>\<open>doc["k"] = v\<close> turns a null document into an object first.  The sources only assign into a
  fresh document or an object.
\<close>

fun assign :: "string \<Rightarrow> json \<Rightarrow> json \<Rightarrow> json" where
  "assign k v (JObject kvs) = JObject (obj_set k v kvs)"
| "assign k v _ = JObject [(k, v)]"

definition assign_if :: "bool \<Rightarrow> string \<Rightarrow> json \<Rightarrow> json \<Rightarrow> json" where
  "assign_if b k v d = (if b then assign k v d else d)"

abbreviation empty_object :: json where
  "empty_object \<equiv> JObject []"

lemma is_object_assign [simp]: "is_object (assign k v d)"
  by (cases d) simp_all

lemma member_assign [simp]: "is_object d \<Longrightarrow> member (assign k v d) k' = (if k' = k then Some v else member d k')"
  by (cases d) (auto simp: member_def)

lemma member_assign_null [simp]: "member (assign k v JNull) k' = (if k' = k then Some v else None)"
  by (auto simp: member_def)

lemma is_object_assign_if [simp]: "is_object d \<Longrightarrow> is_object (assign_if b k v d)"
  by (simp add: assign_if_def)

lemma member_assign_if [simp]:
  "is_object d \<Longrightarrow> member (assign_if b k v d) k' = (if b \<and> k' = k then Some v else member d k')"
  by (simp add: assign_if_def)

lemma member_empty [simp]: "member empty_object k = None"
  by (simp add: member_def)

lemma member_not_object: "\<not> is_object d \<Longrightarrow> member d k = None"
  by (cases d) (auto simp: member_def)

lemma member_is_object: "member d k = Some v \<Longrightarrow> is_object d"
  using member_not_object by fastforce

section \<open>What the library promises\<close>

text \<open>
  A document the library reads: numbers that are not negative are unsigned, and the members of an
  object are in order.  The two laws of the library: such a document prints to one line
  that reads back as the document, and reading gives such documents only.
\<close>

fun json_canonical :: "json \<Rightarrow> bool" where
  "json_canonical (JInteger w) = (sint w < 0)"
| "json_canonical (JArray xs) = (\<forall>x\<in>set xs. json_canonical x)"
| "json_canonical (JObject kvs) = (sorted (map fst kvs) \<and> distinct (map fst kvs) \<and> (\<forall>kv\<in>set kvs. json_canonical (snd kv)))"
| "json_canonical _ = True"

definition json_laws :: "(string \<Rightarrow> json option) \<Rightarrow> (json \<Rightarrow> string option) \<Rightarrow> bool" where
  "json_laws parse dump \<longleftrightarrow>
     (\<forall>j t. json_canonical j \<longrightarrow> dump j = Some t \<longrightarrow> parse t = Some j \<and> CHR 0x0A \<notin> set t)
     \<and> (\<forall>t j. parse t = Some j \<longrightarrow> json_canonical j)"

lemma json_laws_dump:
  "json_laws parse dump \<Longrightarrow> json_canonical j \<Longrightarrow> dump j = Some t \<Longrightarrow> parse t = Some j \<and> CHR 0x0A \<notin> set t"
  unfolding json_laws_def by blast

lemma json_laws_parse: "json_laws parse dump \<Longrightarrow> parse t = Some j \<Longrightarrow> json_canonical j"
  unfolding json_laws_def by blast

lemma canonical_member: "json_canonical d \<Longrightarrow> member d k = Some v \<Longrightarrow> json_canonical v"
  by (cases d) (auto simp: member_def dest!: map_of_SomeD)

lemma canonical_assign: "json_canonical d \<Longrightarrow> json_canonical v \<Longrightarrow> json_canonical (assign k v d)"
proof (cases d)
  case (JObject kvs)
  assume "json_canonical d" "json_canonical v"
  then show ?thesis
    using JObject sorted_obj_set [of kvs k v] set_obj_set [of k v kvs] by auto
qed simp_all

lemma canonical_fold_set:
  "json_canonical (JObject m) \<Longrightarrow> \<forall>kv\<in>set kvs. json_canonical (snd kv) \<Longrightarrow>
    json_canonical (JObject (fold (\<lambda>(k, v). obj_set k v) kvs m))"
proof (induction kvs arbitrary: m)
  case (Cons kv kvs)
  obtain k v where "kv = (k, v)" by (cases kv)
  then show ?case
    using Cons.IH [of "obj_set k v m"] Cons.prems canonical_assign [of "JObject m" v k] by simp
qed simp

lemma canonical_obj_of: "\<forall>kv\<in>set kvs. json_canonical (snd kv) \<Longrightarrow> json_canonical (obj_of kvs)"
  unfolding obj_of_def by (rule canonical_fold_set) simp_all

lemma fst_items_assign: "is_object d \<Longrightarrow> fst ` set (items (assign k v d)) = insert k (fst ` set (items d))"
  by (cases d) simp_all

end
