(* ===== verification/Ez_Framing.thy ===== *)
theory Ez_Framing
  imports Ez_Prelude
begin

text \<open>
  Newline framing of a byte stream, as the daemon's codec and the native host's client both
  do it: the complete lines of the buffer are taken out, the rest stays.  The locale
  \<open>newline_framing\<close> is the contract of one such splitter, with its limits on a line and on the
  rest; its lemmas say that the frames do not depend on how the stream arrives.
\<close>

abbreviation newline :: char where "newline \<equiv> CHR 0x0A"

fun lines_of :: "string \<Rightarrow> string list \<times> string" where
  "lines_of [] = ([], [])"
| "lines_of (c # s) =
     (case lines_of s of (fs, r) \<Rightarrow>
        if c = newline then ([] # fs, r)
        else case fs of [] \<Rightarrow> ([], c # r) | f # fs' \<Rightarrow> ((c # f) # fs', r))"

definition frames_text :: "string list \<Rightarrow> string" where
  "frames_text fs = concat (map (\<lambda>f. f @ [newline]) fs)"

lemma frames_text_simps [simp]:
  "frames_text [] = []" "frames_text (f # fs) = f @ newline # frames_text fs"
  by (simp_all add: frames_text_def)

lemma lines_of_pure: "newline \<notin> set s \<Longrightarrow> lines_of s = ([], s)"
  by (induction s) auto

lemma lines_of_line: "newline \<notin> set f \<Longrightarrow> lines_of (f @ newline # s) = (f # fst (lines_of s), snd (lines_of s))"
  by (induction f) (auto split: prod.splits)

lemma lines_of_sound:
  "s = frames_text (fst (lines_of s)) @ snd (lines_of s) \<and> newline \<notin> set (snd (lines_of s))
   \<and> (\<forall>f\<in>set (fst (lines_of s)). newline \<notin> set f)"
proof (induction s)
  case (Cons c s)
  obtain fs r where l: "lines_of s = (fs, r)" by fastforce
  with Cons show ?case by (cases fs) (auto simp: l)
qed simp

lemma lines_of_complete:
  "newline \<notin> set r \<Longrightarrow> \<forall>f\<in>set fs. newline \<notin> set f \<Longrightarrow> lines_of (frames_text fs @ r) = (fs, r)"
  by (induction fs) (simp_all add: lines_of_pure lines_of_line)

lemma lines_of_iff:
  "lines_of s = (fs, r) \<longleftrightarrow>
     s = frames_text fs @ r \<and> newline \<notin> set r \<and> (\<forall>f\<in>set fs. newline \<notin> set f)"
  using lines_of_sound [of s] lines_of_complete [of r fs] by auto

lemma lines_of_append:
  "lines_of (a @ b) = (fst (lines_of a) @ fst (lines_of (snd (lines_of a) @ b)), snd (lines_of (snd (lines_of a) @ b)))"
proof (induction a)
  case (Cons c a)
  obtain fs r where l: "lines_of a = (fs, r)" by fastforce
  obtain gs u where m: "lines_of (r @ b) = (gs, u)" by fastforce
  show ?case using Cons l m by (cases fs; cases gs) auto
qed simp

lemma lines_of_prefix: "newline \<notin> set t \<Longrightarrow> prefix t (hd (fst (lines_of (t @ b)) @ [snd (lines_of (t @ b))]))"
proof (induction t)
  case (Cons c t)
  obtain fs r where l: "lines_of (t @ b) = (fs, r)" by fastforce
  with Cons show ?case by (cases fs) auto
qed simp

locale newline_framing =
  fixes feed :: "string \<Rightarrow> 'e + string list \<times> string"
    and frame_ok :: "string \<Rightarrow> bool"
    and tail_ok :: "string \<Rightarrow> bool"
  assumes feed_iff: "feed b = Inr x \<longleftrightarrow>
      x = lines_of b \<and> list_all frame_ok (fst (lines_of b)) \<and> tail_ok (snd (lines_of b))"
begin

text \<open>Reading in chunks: each chunk is appended to what the last one left.\<close>

primrec feed_chunks :: "string \<Rightarrow> string list \<Rightarrow> 'e + string list \<times> string" where
  "feed_chunks buf [] = Inr ([], buf)"
| "feed_chunks buf (c # cs) =
     res_bind (feed (buf @ c)) (\<lambda>(fs, r). res_bind (feed_chunks r cs) (\<lambda>(gs, u). Inr (fs @ gs, u)))"

lemma feed_chunks_sound:
  "feed_chunks buf cs = Inr (fs, r) \<Longrightarrow> newline \<notin> set buf \<Longrightarrow>
     lines_of (buf @ concat cs) = (fs, r) \<and> list_all frame_ok fs"
proof (induction cs arbitrary: buf fs)
  case Nil
  then show ?case by (simp add: lines_of_pure)
next
  case (Cons c cs)
  from Cons.prems(1) obtain gs t hs where
    "feed (buf @ c) = Inr (gs, t)" "feed_chunks t cs = Inr (hs, r)" "fs = gs @ hs"
    by (auto simp: res_simps)
  moreover from this(1) have l: "lines_of (buf @ c) = (gs, t)" and "list_all frame_ok gs"
    by (metis feed_iff, metis feed_iff fst_conv)
  moreover have "newline \<notin> set t" using lines_of_sound [of "buf @ c"] l by simp
  ultimately show ?case using Cons.IH [of t hs] lines_of_append [of "buf @ c" "concat cs"] by auto
qed

lemma feed_chunks_complete:
  "lines_of (buf @ concat cs) = (fs, r) \<Longrightarrow> list_all frame_ok fs \<Longrightarrow>
     (\<And>f p. f \<in> set fs \<union> {r} \<Longrightarrow> prefix p f \<Longrightarrow> tail_ok p) \<Longrightarrow> newline \<notin> set buf \<Longrightarrow>
     feed_chunks buf cs = Inr (fs, r)"
proof (induction cs arbitrary: buf fs)
  case Nil
  then show ?case by (simp add: lines_of_pure)
next
  case (Cons c cs)
  obtain gs t where l: "lines_of (buf @ c) = (gs, t)" by fastforce
  obtain hs u where m: "lines_of (t @ concat cs) = (hs, u)" by fastforce
  have fs: "fs = gs @ hs" "r = u"
    using Cons.prems(1) lines_of_append [of "buf @ c" "concat cs"] l m by auto
  have t: "newline \<notin> set t" using lines_of_sound [of "buf @ c"] l by simp
  have "prefix t (hd (hs @ [u]))" using lines_of_prefix [OF t, of "concat cs"] m by simp
  moreover have "hd (hs @ [u]) \<in> set fs \<union> {r}" using fs by (cases hs) auto
  ultimately have "tail_ok t" using Cons.prems(3) by blast
  then have "feed (buf @ c) = Inr (gs, t)" using l Cons.prems(2) fs by (auto simp: feed_iff)
  moreover have "feed_chunks t cs = Inr (hs, r)"
    by (rule Cons.IH) (use Cons.prems(2,3) fs m t in auto)
  ultimately show ?case using fs by simp
qed

end

end
