(* ===== verification/Ez_Ipc.thy ===== *)
theory Ez_Ipc
  imports Ez_Time Ez_Json Ez_Framing Ez_Framing
begin

text \<open>
  \<^verbatim>\<open>src/ipc/ipc_codec.cpp\<close>: requests, responses, events and newline framing on the daemon's
  socket.  \<^verbatim>\<open>json::parse\<close> and \<^verbatim>\<open>dump\<close> are the parameters \<open>parse\<close> and \<open>dump\<close> of the definitions that
  call them (see Ez_Json); the exception handlers of \<^verbatim>\<open>parse_request\<close> are the branch where
  \<open>dump\<close> has no result.

  The lemmas say exactly which frames are requests, what an encoded event can contain, and
  that framing does not depend on how the stream was cut into reads.  The last is proved
  in the locale \<open>newline_framing\<close> of Ez_Framing, which the native host's reader shares.
\<close>

section \<open>Requests\<close>

definition kForbidden :: "string list" where
  "kForbidden = [''payload'', ''body'', ''cookies'', ''authorization'', ''password'', ''api_key'']"

definition has_forbidden_field :: "json \<Rightarrow> bool" where
  "has_forbidden_field doc = list_ex (contains doc) kForbidden"

definition ipc_err :: "error_code \<Rightarrow> string \<Rightarrow> ipc_error" where
  "ipc_err c m = \<lparr>err_code = c, err_message = m\<rparr>"

text \<open>\<^verbatim>\<open>guard c e\<close> is \<^verbatim>\<open>if (c) { error = e; return false; }\<close>.\<close>

definition guard :: "bool \<Rightarrow> 'e \<Rightarrow> 'e + unit" where
  "guard c e = (if c then Inl e else Inr ())"

definition member_is :: "json \<Rightarrow> string \<Rightarrow> (json \<Rightarrow> bool) \<Rightarrow> bool" where
  "member_is doc k P = (case member doc k of None \<Rightarrow> False | Some v \<Rightarrow> P v)"

definition member_at :: "json \<Rightarrow> string \<Rightarrow> json" where
  "member_at doc k = (case member doc k of None \<Rightarrow> JNull | Some v \<Rightarrow> v)"

definition parse_params :: "(json \<Rightarrow> string option) \<Rightarrow> json \<Rightarrow> ipc_error + string" where
  "parse_params dump doc =
     (case member doc ''params'' of
        None \<Rightarrow> Inr []
      | Some params \<Rightarrow>
          if \<not> is_object params then Inl (ipc_err SchemaViolation ''params must be an object'')
          else if 8 < jsize params then Inl (ipc_err SchemaViolation ''too many params'')
          else case dump params of
                 None \<Rightarrow> Inl (ipc_err InvalidJson ''request failed JSON validation'')
               | Some s \<Rightarrow> Inr s)"

definition parse_operation :: "json \<Rightarrow> ipc_error + operation" where
  "parse_operation doc =
     (if \<not> member_is doc ''operation'' is_string then Inl (ipc_err MissingField ''operation missing'')
      else case operation_from_name (get_string (member_at doc ''operation'')) of
             None \<Rightarrow> Inl (ipc_err UnknownOperation ''unknown operation'')
           | Some op \<Rightarrow> Inr op)"

definition parse_request_id :: "json \<Rightarrow> ipc_error + string" where
  "parse_request_id doc =
     (if \<not> member_is doc ''request_id'' is_string then Inl (ipc_err MissingField ''request_id missing'')
      else let request_id = get_string (member_at doc ''request_id'')
           in if request_id = [] \<or> 64 < length request_id
              then Inl (ipc_err SchemaViolation ''request_id must be 1-64 chars'')
              else Inr request_id)"

definition parse_request ::
    "(string \<Rightarrow> json option) \<Rightarrow> (json \<Rightarrow> string option) \<Rightarrow> string \<Rightarrow> nat \<Rightarrow> ipc_error + request" where
  "parse_request parse dump frame max_bytes =
     (if max_bytes < length frame then Inl (ipc_err MessageTooLarge ''request exceeds frame limit'')
      else case parse frame of
        None \<Rightarrow> Inl (ipc_err InvalidJson ''request is not valid JSON'')
      | Some doc \<Rightarrow>
          res_bind (guard (\<not> is_object doc) (ipc_err SchemaViolation ''request must be a JSON object'')) (\<lambda>_.
          res_bind (guard (has_forbidden_field doc) (ipc_err SchemaViolation ''request contains forbidden fields'')) (\<lambda>_.
          res_bind (guard (\<not> member_is doc ''protocol_version'' is_number_integer)
             (ipc_err MissingField ''protocol_version missing'')) (\<lambda>_.
          res_bind (guard (get_int64 (member_at doc ''protocol_version'') \<noteq> uint kProtocolVersion)
             (ipc_err UnsupportedVersion ''unsupported protocol version'')) (\<lambda>_.
          res_bind (parse_operation doc) (\<lambda>op.
          res_bind (parse_request_id doc) (\<lambda>request_id.
          res_bind (parse_params dump doc) (\<lambda>params_json.
            Inr \<lparr>rq_protocol_version = kProtocolVersion, rq_operation = op, rq_request_id = request_id,
                 rq_params_json = params_json\<rparr>))))))))"

section \<open>Responses\<close>

definition error_json :: "ipc_error \<Rightarrow> json" where
  "error_json err = assign ''message'' (JString (err_message err))
     (assign ''code'' (JString (error_code_name (err_code err))) JNull)"

definition response_json :: "(string \<Rightarrow> json option) \<Rightarrow> response \<Rightarrow> json" where
  "response_json parse r =
     (let doc = assign ''ok'' (JBool (rs_ok r)) (assign ''request_id'' (JString (rs_request_id r)) JNull)
      in if rs_ok r then
           assign ''result''
             (if rs_result_json r = [] then empty_object
              else case parse (rs_result_json r) of None \<Rightarrow> empty_object | Some d \<Rightarrow> d) doc
         else assign ''error'' (error_json (rs_error r)) doc)"

definition encode_response :: "(string \<Rightarrow> json option) \<Rightarrow> (json \<Rightarrow> string option) \<Rightarrow> response \<Rightarrow> string option" where
  "encode_response parse dump r = dump (response_json parse r)"

definition encode_error ::
    "(string \<Rightarrow> json option) \<Rightarrow> (json \<Rightarrow> string option) \<Rightarrow> string \<Rightarrow> ipc_error \<Rightarrow> string option" where
  "encode_error parse dump request_id err =
     encode_response parse dump (response_init\<lparr>rs_request_id := request_id, rs_ok := False, rs_error := err\<rparr>)"

section \<open>Events\<close>

abbreviation jstr :: "string \<Rightarrow> json" where "jstr \<equiv> JString"
abbreviation jnum :: "'a::len word \<Rightarrow> json" where "jnum w \<equiv> JUnsigned (ucast w)"

definition process_json :: "process_info \<Rightarrow> json" where
  "process_json p =
     (let d = assign ''pid'' (jnum (pi_pid p)) JNull;
          d = assign_if (pi_name p \<noteq> []) ''name'' (jstr (pi_name p)) d
      in case pi_uid p of None \<Rightarrow> d | Some u \<Rightarrow> assign ''uid'' (jnum u) d)"

definition network_json :: "network_info \<Rightarrow> json" where
  "network_json n =
     (let d = assign ''transport'' (jstr (transport_name (net_transport n))) JNull;
          d = assign_if (net_direction n \<noteq> UnknownDirection) ''direction'' (jstr (direction_name (net_direction n))) d;
          d = assign_if (net_local_address n \<noteq> []) ''local_address'' (jstr (net_local_address n)) d;
          d = assign_if (net_local_address n \<noteq> []) ''local_port'' (jnum (net_local_port n)) d;
          d = assign_if (net_remote_address n \<noteq> []) ''remote_address'' (jstr (net_remote_address n)) d;
          d = assign_if (net_remote_address n \<noteq> []) ''remote_port'' (jnum (net_remote_port n)) d;
          d = assign_if (net_dns_query_name n \<noteq> []) ''dns_query_name'' (jstr (net_dns_query_name n)) d;
          d = (case net_dns_response_code n of None \<Rightarrow> d | Some c \<Rightarrow> assign ''dns_response_code'' (jnum c) d);
          d = assign_if (net_interface n \<noteq> []) ''interface'' (jstr (net_interface n)) d
      in assign ''backend'' (jstr (event_source_name (net_backend n))) d)"

definition browser_json :: "browser_info \<Rightarrow> json" where
  "browser_json b =
     (let d = assign ''tab_id'' (jnum (br_tab_id b)) JNull;
          d = assign ''window_id'' (jnum (br_window_id b)) d;
          d = assign_if (br_url b \<noteq> []) ''url'' (jstr (br_url b)) d;
          d = assign_if (br_title b \<noteq> []) ''title'' (jstr (br_title b)) d
      in assign_if (br_navigation_id b \<noteq> []) ''navigation''
           (assign ''frame_id'' (jnum (br_frame_id b))
              (assign ''navigation_id'' (jstr (br_navigation_id b)) JNull)) d)"

definition redaction_names :: "redactions \<Rightarrow> string list" where
  "redaction_names r =
     (if rk_query_string r then [''query-string''] else [])
     @ (if rk_fragment r then [''fragment''] else [])
     @ (if rk_hostname_hash r then [''hostname-hash''] else [])
     @ (if rk_hostname_mask r then [''hostname-mask''] else [])
     @ (if rk_domain_excluded r then [''domain-excluded''] else [])"

definition privacy_json :: "privacy_info \<Rightarrow> json" where
  "privacy_json p =
     (let d = assign ''metadata_only'' (JBool True) (assign ''redacted'' (JBool (pv_redacted p)) JNull);
          names = redaction_names (pv_redactions p)
      in assign_if (names \<noteq> []) ''redactions'' (JArray (map JString names)) d)"

definition backend_json :: "backend_status \<Rightarrow> json" where
  "backend_json b =
     (let d = assign ''name'' (jstr (event_source_name (bs_name b))) JNull;
          d = assign ''state'' (jstr (if bs_active b then ''active'' else ''unavailable'')) d
      in assign_if (bs_detail b \<noteq> []) ''detail'' (jstr (bs_detail b)) d)"

definition event_json :: "event \<Rightarrow> json" where
  "event_json e =
     (let d = assign ''schema_version'' (jnum (ev_schema_version e)) JNull;
          d = assign ''event_id'' (jstr (ev_event_id e)) d;
          d = assign ''event_type'' (jstr (event_type_name (ev_type e))) d;
          d = assign ''timestamp'' (jstr (to_rfc3339 (ev_timestamp e))) d;
          d = assign ''source'' (jstr (event_source_name (ev_source e))) d;
          d = assign ''confidence'' (JFloat (ev_confidence e)) d;
          d = assign_if (ev_correlation_id e \<noteq> []) ''correlation_id'' (jstr (ev_correlation_id e)) d;
          d = (case ev_process e of None \<Rightarrow> d | Some p \<Rightarrow> assign ''process'' (process_json p) d);
          d = (case ev_network e of None \<Rightarrow> d | Some n \<Rightarrow> assign ''network'' (network_json n) d);
          d = (case ev_browser e of None \<Rightarrow> d | Some b \<Rightarrow> assign ''browser'' (browser_json b) d);
          d = assign ''privacy'' (privacy_json (ev_privacy e)) d;
          d = assign_if (ev_type e = Status \<and> ev_backend_statuses e \<noteq> []) ''status''
                (assign ''backends'' (JArray (map backend_json (ev_backend_statuses e)))
                   (assign ''state'' (jstr ''running'') JNull)) d
      in assign_if (ev_type e = Error) ''error''
           (assign ''message'' (jstr (ev_error_message e)) (assign ''code'' (jstr (ev_error_code e)) JNull)) d)"

definition encode_event :: "(json \<Rightarrow> string option) \<Rightarrow> event \<Rightarrow> string option" where
  "encode_event dump e = dump (event_json e)"

section \<open>Framing\<close>

lemma find_char_0: "find_char c s 0 = first_idx ((=) c) s"
  by (cases "first_idx ((=) c) s") (simp_all add: find_char_def)

lemma find_char_0_bound: "find_char c s 0 = Some i \<Longrightarrow> i < length s"
  unfolding find_char_0 by (drule first_idx_SomeD) simp

function split_loop :: "nat \<Rightarrow> string \<Rightarrow> ipc_error + string list \<times> string" where
  "split_loop max_bytes buffer =
     (case find_char newline buffer 0 of
        None \<Rightarrow> Inr ([], buffer)
      | Some nl \<Rightarrow>
          if max_bytes < nl then Inl (ipc_err MessageTooLarge ''frame exceeds size limit'')
          else res_bind (split_loop max_bytes (drop (nl + 1) buffer))
                 (\<lambda>(frames, rest). Inr (take nl buffer # frames, rest)))"
  by auto
termination
  by (relation "measure (\<lambda>(m, b). length b)") (auto dest: find_char_0_bound)

declare split_loop.simps [simp del]

definition split_frames :: "nat \<Rightarrow> string \<Rightarrow> ipc_error + string list \<times> string" where
  "split_frames max_bytes buffer =
     res_bind (split_loop max_bytes buffer)
       (\<lambda>(frames, rest).
          if max_bytes \<le> length rest then Inl (ipc_err MessageTooLarge ''frame exceeds size limit'')
          else Inr (frames, rest))"

section \<open>Which frames are requests\<close>

text \<open>The request document, stated without the order of the checks.\<close>

definition request_document :: "(json \<Rightarrow> string option) \<Rightarrow> json \<Rightarrow> request \<Rightarrow> bool" where
  "request_document dump doc rq \<longleftrightarrow>
     is_object doc \<and> (\<forall>f\<in>set kForbidden. member doc f = None)
     \<and> (\<exists>v. member doc ''protocol_version'' = Some v \<and> is_number_integer v \<and> get_int64 v = 1)
     \<and> member doc ''operation'' = Some (JString (operation_name (rq_operation rq)))
     \<and> member doc ''request_id'' = Some (JString (rq_request_id rq))
     \<and> 1 \<le> length (rq_request_id rq) \<and> length (rq_request_id rq) \<le> 64
     \<and> rq_protocol_version rq = kProtocolVersion
     \<and> (case member doc ''params'' of None \<Rightarrow> rq_params_json rq = []
        | Some p \<Rightarrow> is_object p \<and> jsize p \<le> 8 \<and> dump p = Some (rq_params_json rq))"

lemma guard_Inr [simp]: "guard c e = Inr u \<longleftrightarrow> \<not> c"
  by (simp add: guard_def)

lemma member_is_string:
  "member_is doc k is_string \<and> get_string (member_at doc k) = s \<longleftrightarrow> member doc k = Some (JString s)"
  by (auto simp: member_is_def member_at_def split: option.splits elim: is_string.elims)

lemma parse_operation_Inr: "parse_operation doc = Inr op \<longleftrightarrow> member doc ''operation'' = Some (JString (operation_name op))"
  using member_is_string [of doc "''operation''" "operation_name op"]
  by (auto simp: parse_operation_def operations.from_name_iff operations.name_inj split: option.splits if_splits)

lemma parse_request_id_Inr:
  "parse_request_id doc = Inr i \<longleftrightarrow> member doc ''request_id'' = Some (JString i) \<and> 1 \<le> length i \<and> length i \<le> 64"
  using member_is_string [of doc "''request_id''" i]
  by (auto simp: parse_request_id_def Let_def Suc_le_eq split: if_splits)

lemma parse_params_Inr:
  "parse_params dump doc = Inr s \<longleftrightarrow>
     (case member doc ''params'' of None \<Rightarrow> s = []
      | Some p \<Rightarrow> is_object p \<and> jsize p \<le> 8 \<and> dump p = Some s)"
  by (auto simp: parse_params_def split: option.splits)

lemma no_forbidden: "has_forbidden_field doc \<longleftrightarrow> \<not> (\<forall>f\<in>set kForbidden. member doc f = None)"
  by (simp add: has_forbidden_field_def list_ex_iff contains_def)

lemma version_ok:
  "member_is doc ''protocol_version'' is_number_integer
     \<and> get_int64 (member_at doc ''protocol_version'') = uint kProtocolVersion
   \<longleftrightarrow> (\<exists>v. member doc ''protocol_version'' = Some v \<and> is_number_integer v \<and> get_int64 v = 1)"
  by (auto simp: member_is_def member_at_def kProtocolVersion_def split: option.splits)

lemma parse_request_iff:
  "parse_request parse dump frame max_bytes = Inr rq \<longleftrightarrow>
     length frame \<le> max_bytes \<and> (\<exists>doc. parse frame = Some doc \<and> request_document dump doc rq)"
proof (cases "parse frame")
  case (Some doc)
  have "parse_request parse dump frame max_bytes = Inr rq \<longleftrightarrow>
      length frame \<le> max_bytes \<and> is_object doc \<and> \<not> has_forbidden_field doc
      \<and> member_is doc ''protocol_version'' is_number_integer
      \<and> get_int64 (member_at doc ''protocol_version'') = uint kProtocolVersion
      \<and> parse_operation doc = Inr (rq_operation rq) \<and> parse_request_id doc = Inr (rq_request_id rq)
      \<and> parse_params dump doc = Inr (rq_params_json rq) \<and> rq_protocol_version rq = kProtocolVersion"
    using Some by (cases rq) (auto simp: parse_request_def res_simps)
  with Some show ?thesis
    unfolding request_document_def parse_operation_Inr parse_request_id_Inr parse_params_Inr no_forbidden
      version_ok [symmetric]
    by auto
qed (simp add: parse_request_def)

text \<open>
  C12: a frame is accepted as a request exactly when it fits the limit, parses to an object
  that has protocol version 1, a known operation, a request id of 1 to 64 characters, none
  of the six forbidden payload fields and, if any, a params object of at most eight members
  that prints; the request then carries exactly those members.
\<close>

theorem parse_request_accepts:
  "parse_request parse dump frame max_bytes = Inr rq \<longleftrightarrow>
     length frame \<le> max_bytes \<and> (\<exists>doc. parse frame = Some doc \<and> request_document dump doc rq)"
  by (rule parse_request_iff)

section \<open>What an encoded event contains\<close>

text \<open>Every key of a document, at any depth.\<close>

fun all_keys :: "json \<Rightarrow> string list" where
  "all_keys (JArray xs) = concat (map all_keys xs)"
| "all_keys (JObject kvs) = concat (map (\<lambda>kv. fst kv # all_keys (snd kv)) kvs)"
| "all_keys _ = []"

lemma all_keys_obj_set:
  "set (all_keys (JObject (obj_set k v kvs))) \<subseteq> insert k (set (all_keys v) \<union> set (all_keys (JObject kvs)))"
  by (induction k v kvs rule: obj_set.induct) auto

lemma all_keys_assign: "set (all_keys (assign k v d)) \<subseteq> insert k (set (all_keys v) \<union> set (all_keys d))"
  using all_keys_obj_set [of k v] by (cases d) auto

definition allowed_keys :: "json \<Rightarrow> bool" where
  "allowed_keys d \<longleftrightarrow> set (all_keys d) \<inter> set kForbidden = {}"

lemma allowed_keys_assign [intro!]:
  "allowed_keys v \<Longrightarrow> allowed_keys d \<Longrightarrow> k \<notin> set kForbidden \<Longrightarrow> allowed_keys (assign k v d)"
  using all_keys_assign [of k v d] by (auto simp: allowed_keys_def)

lemma allowed_keys_assign_if [intro!]:
  "allowed_keys v \<Longrightarrow> allowed_keys d \<Longrightarrow> k \<notin> set kForbidden \<Longrightarrow> allowed_keys (assign_if b k v d)"
  by (simp add: assign_if_def allowed_keys_assign)

lemma allowed_keys_leaf [simp]:
  "allowed_keys JNull" "allowed_keys (JBool b)" "allowed_keys (JUnsigned w)" "allowed_keys (JFloat x)"
  "allowed_keys (JString s)"
  by (simp_all add: allowed_keys_def)

lemma allowed_keys_array [simp]: "allowed_keys (JArray ds) \<longleftrightarrow> (\<forall>d\<in>set ds. allowed_keys d)"
  by (auto simp: allowed_keys_def)

lemma allowed_sections:
  "allowed_keys (process_json p)" "allowed_keys (network_json n)" "allowed_keys (browser_json b)"
  "allowed_keys (privacy_json pv)" "allowed_keys (backend_json bs)"
  by (auto simp: process_json_def network_json_def browser_json_def privacy_json_def backend_json_def
      Let_def kForbidden_def simp del: assign.simps split: option.splits)

text \<open>
  C30: an encoded event has none of the forbidden payload fields, at any depth of the
  document, whatever the event.
\<close>

theorem event_json_no_forbidden: "set (all_keys (event_json e)) \<inter> set kForbidden = {}"
proof -
  have "allowed_keys (event_json e)"
    unfolding event_json_def Let_def
    by (auto simp: allowed_sections kForbidden_def simp del: assign.simps split: option.splits)
  then show ?thesis by (simp add: allowed_keys_def)
qed

text \<open>
  The sections of an encoded event are present exactly when the event has them, carry
  the encoding of that part, and the privacy section always claims metadata-only; status and
  error sections appear only on events of that type.
\<close>

theorem event_json_sections:
  "member (event_json e) ''process'' = map_option process_json (ev_process e)
   \<and> member (event_json e) ''network'' = map_option network_json (ev_network e)
   \<and> member (event_json e) ''browser'' = map_option browser_json (ev_browser e)
   \<and> member (event_json e) ''privacy'' = Some (privacy_json (ev_privacy e))
   \<and> member (privacy_json (ev_privacy e)) ''metadata_only'' = Some (JBool True)
   \<and> (member (event_json e) ''status'' \<noteq> None \<longleftrightarrow> ev_type e = Status \<and> ev_backend_statuses e \<noteq> [])
   \<and> (member (event_json e) ''error'' \<noteq> None \<longleftrightarrow> ev_type e = Error)
   \<and> member (event_json e) ''timestamp'' = Some (JString (to_rfc3339 (ev_timestamp e)))"
  by (cases "ev_process e"; cases "ev_network e"; cases "ev_browser e")
    (simp_all add: event_json_def privacy_json_def Let_def del: assign.simps)

section \<open>Frames\<close>

lemma split_loop_cases:
  "newline \<notin> set b \<Longrightarrow> split_loop m b = Inr ([], b)"
  "newline \<notin> set f \<Longrightarrow> split_loop m (f @ newline # s) =
     (if m < length f then Inl (ipc_err MessageTooLarge ''frame exceeds size limit'')
      else res_bind (split_loop m s) (\<lambda>(frames, rest). Inr (f # frames, rest)))"
proof -
  assume "newline \<notin> set b"
  then have "first_idx ((=) newline) b = None" by (auto simp: first_idx_None)
  then show "split_loop m b = Inr ([], b)" by (simp add: split_loop.simps [of m b] find_char_0)
next
  assume "newline \<notin> set f"
  then have "first_idx ((=) newline) f = None" by (auto simp: first_idx_None)
  then have "find_char newline (f @ newline # s) 0 = Some (length f)"
    by (simp add: find_char_0 first_idx_append)
  then show "split_loop m (f @ newline # s) =
     (if m < length f then Inl (ipc_err MessageTooLarge ''frame exceeds size limit'')
      else res_bind (split_loop m s) (\<lambda>(frames, rest). Inr (f # frames, rest)))"
    by (simp add: split_loop.simps [of m "f @ newline # s"])
qed

lemma split_loop_frames:
  "\<forall>f\<in>set fs. newline \<notin> set f \<Longrightarrow> newline \<notin> set r \<Longrightarrow>
     split_loop m (frames_text fs @ r) =
       (if list_all (\<lambda>f. length f \<le> m) fs then Inr (fs, r)
        else Inl (ipc_err MessageTooLarge ''frame exceeds size limit''))"
  by (induction fs) (simp_all add: split_loop_cases)

lemma split_frames_eq:
  "split_frames m b =
     (if list_all (\<lambda>f. length f \<le> m) (fst (lines_of b)) \<and> length (snd (lines_of b)) < m
      then Inr (lines_of b) else Inl (ipc_err MessageTooLarge ''frame exceeds size limit''))"
proof -
  have "split_loop m b = split_loop m (frames_text (fst (lines_of b)) @ snd (lines_of b))"
    using lines_of_sound [of b] by simp
  also have "\<dots> = (if list_all (\<lambda>f. length f \<le> m) (fst (lines_of b)) then Inr (lines_of b)
        else Inl (ipc_err MessageTooLarge ''frame exceeds size limit''))"
    using lines_of_sound [of b] by (subst split_loop_frames) auto
  finally show ?thesis by (auto simp: split_frames_def split: prod.splits)
qed

interpretation codec: newline_framing "split_frames m" "\<lambda>f. length f \<le> m" "\<lambda>r. length r < m" for m
  by unfold_locales (auto simp: split_frames_eq)

text \<open>
  Splitting a receive buffer succeeds exactly when the buffer is a sequence of complete
  lines of at most the limit followed by an unterminated rest shorter than the limit; the
  frames are those lines, in order and without their newlines, and the rest stays.
\<close>

theorem split_frames_iff:
  "split_frames m buffer = Inr (frames, rest) \<longleftrightarrow>
     buffer = frames_text frames @ rest \<and> newline \<notin> set rest \<and> length rest < m
     \<and> list_all (\<lambda>f. newline \<notin> set f \<and> length f \<le> m) frames"
proof -
  have "split_frames m buffer = Inr (frames, rest) \<longleftrightarrow>
      lines_of buffer = (frames, rest) \<and> list_all (\<lambda>f. length f \<le> m) frames \<and> length rest < m"
    by (auto simp: split_frames_eq)
  then show ?thesis by (auto simp: lines_of_iff list_all_iff)
qed

text \<open>The client loop of the server: every read is appended to what the last one left.\<close>

primrec receive_all :: "nat \<Rightarrow> string \<Rightarrow> string list \<Rightarrow> ipc_error + string list \<times> string" where
  "receive_all m buf [] = Inr ([], buf)"
| "receive_all m buf (c # cs) =
     res_bind (split_frames m (buf @ c)) (\<lambda>(fs, r). res_bind (receive_all m r cs) (\<lambda>(gs, u). Inr (fs @ gs, u)))"

lemma receive_all_feed: "receive_all m buf cs = codec.feed_chunks m buf cs"
proof (induction cs arbitrary: buf)
  case (Cons c cs)
  show ?case by (cases "split_frames m (buf @ c)") (auto simp: Cons)
qed simp



text \<open>
  A frame of exactly the limit is accepted when its newline arrives with it and refused when
  the newline is late.
\<close>

lemma full_frame_needs_newline:
  "receive_all 3 [] [''abc'' @ [newline]] = Inr ([''abc''], [])"
  "receive_all 3 [] [''abc'', [newline]] = Inl (ipc_err MessageTooLarge ''frame exceeds size limit'')"
  by (simp_all add: split_frames_eq)

end
