(* ===== verification/Ez_Bytes.thy ===== *)
theory Ez_Bytes
  imports Ez_Prelude "HOL-Library.Monad_Syntax"
begin

text \<open>
  Access to raw memory shared by the packet parser, the kernel programs, the ring-buffer reader
  and the native messaging reader.  Every access is checked: a read outside the object, which is
  undefined in the sources, is \<^const>\<open>None\<close>.  Integers of the sources are stored little
  endian (the supported hosts are x86-64 and AArch64).
\<close>

section \<open>Checked access\<close>

definition read_u8 :: "bytes \<Rightarrow> nat \<Rightarrow> u8 option" where
  "read_u8 s i = (if i < length s then Some (s ! i) else None)"

definition read_bytes :: "bytes \<Rightarrow> nat \<Rightarrow> nat \<Rightarrow> bytes option" where
  "read_bytes s i n = (if i + n \<le> length s then Some (take n (drop i s)) else None)"

definition subspan :: "bytes \<Rightarrow> nat \<Rightarrow> bytes option" where
  "subspan s i = (if i \<le> length s then Some (drop i s) else None)"

definition size_sub :: "nat \<Rightarrow> nat \<Rightarrow> nat option" where
  "size_sub a b = (if b \<le> a then Some (a - b) else None)"

lemma read_u8_ok [simp]: "i < length s \<Longrightarrow> read_u8 s i = Some (s ! i)"
  by (simp add: read_u8_def)

lemma read_bytes_ok [simp]: "i + n \<le> length s \<Longrightarrow> read_bytes s i n = Some (take n (drop i s))"
  by (simp add: read_bytes_def)

section \<open>Little endian integers\<close>

fun le_word :: "bytes \<Rightarrow> 'a::len word" where
  "le_word [] = 0"
| "le_word (b # bs) = ucast b OR push_bit 8 (le_word bs)"

definition le_bytes :: "nat \<Rightarrow> 'a::len word \<Rightarrow> bytes" where
  "le_bytes n w = map (\<lambda>i. ucast (drop_bit (8 * i) w)) [0..<n]"

lemma length_le_bytes [simp]: "length (le_bytes n w) = n"
  by (simp add: le_bytes_def)

lemma le_bytes_Suc: "le_bytes (Suc n) w = ucast w # le_bytes n (drop_bit 8 w)"
proof (rule nth_equalityI)
  fix i assume "i < length (le_bytes (Suc n) w)"
  then show "le_bytes (Suc n) w ! i = (ucast w # le_bytes n (drop_bit 8 w)) ! i"
    by (cases i) (simp_all add: le_bytes_def drop_bit_drop_bit add.commute del: upt_Suc)
qed simp

lemma bit_u8_le: "bit (b :: u8) i \<Longrightarrow> i < 8"
  using bit_imp_le_length [of b i] by simp

lemma le_word_le_bytes_take: "le_word (le_bytes n w) = take_bit (8 * n) w"
proof (induction n arbitrary: w)
  case 0
  then show ?case by (simp add: le_bytes_def)
next
  case (Suc n)
  show ?case
    by (rule bit_word_eqI)
      (auto simp: le_bytes_Suc Suc bit_or_iff bit_push_bit_iff bit_take_bit_iff bit_drop_bit_eq
        bit_ucast_iff dest: bit_u8_le)
qed

text \<open>Storing an integer and loading it again is the identity.\<close>

lemma le_word_le_bytes: "LENGTH('a) \<le> 8 * n \<Longrightarrow> le_word (le_bytes n w) = (w :: 'a::len word)"
  by (simp add: le_word_le_bytes_take take_bit_word_eq_self)

lemma le_bytes_inj: "LENGTH('a) \<le> 8 * n \<Longrightarrow> le_bytes n v = le_bytes n w \<longleftrightarrow> v = (w :: 'a::len word)"
  by (metis le_word_le_bytes)

lemma hex_byte_inj: "hex_byte b = hex_byte c \<longleftrightarrow> b = c"
proof
  assume *: "hex_byte b = hex_byte c"
  have "drop_bit 4 b = drop_bit 4 c" "b AND 15 = c AND 15"
    using * hex_digit_inj [OF unat_high_nibble [of b] unat_high_nibble [of c]]
      hex_digit_inj [OF unat_low_nibble [of b] unat_low_nibble [of c]]
    by (auto simp: hex_byte_def word_unat_eq_iff)
  moreover have "push_bit 4 (drop_bit 4 x) + (x AND 15) = x" for x :: u8
    using bits_ident [of 4 x] by (simp add: take_bit_eq_mask mask_eq_exp_minus_1)
  ultimately show "b = c" by metis
qed simp

end
