(* ===== verification/Ez_Records.thy ===== *)
theory Ez_Records
  imports Ez_Bytes
begin

text \<open>
  \<^verbatim>\<open>ebpf/include/ebpf_events.h\<close>: the records the kernel programs and user space exchange through
  the ring buffer, and their memory layout (the System V and AAPCS64 rules agree on it).  Loading
  a record from the bytes of the ring buffer is checked; the lemmas show that a buffer of the size
  user space tests for is enough, and that loading inverts the layout.
\<close>

section \<open>Records\<close>

definition EZCAP_EVENT_VERSION :: u8 where "EZCAP_EVENT_VERSION = 1"
definition EZCAP_EVENT_TAG_CONNECT :: u8 where "EZCAP_EVENT_TAG_CONNECT = 1"
definition EZCAP_EVENT_TAG_DNS :: u8 where "EZCAP_EVENT_TAG_DNS = 2"
definition EZCAP_EVENT_TAG_SOCKET_STATE :: u8 where "EZCAP_EVENT_TAG_SOCKET_STATE = 3"
definition EZCAP_IFNAME_MAX :: nat where "EZCAP_IFNAME_MAX = 16"
definition EZCAP_DNS_NAME_MAX :: nat where "EZCAP_DNS_NAME_MAX = 253"

record ezcap_event_header =
  eh_version :: u8
  eh_tag :: u8
  eh_pad0 :: u16
  eh_pid :: u32
  eh_uid :: u32
  eh_timestamp_ns :: u64

record ezcap_connect_event =
  ce_hdr :: ezcap_event_header
  ce_local_addr4 :: u32
  ce_remote_addr4 :: u32
  ce_local_addr6 :: bytes
  ce_remote_addr6 :: bytes
  ce_local_port :: u16
  ce_remote_port :: u16
  ce_transport :: u8
  ce_direction :: u8
  ce_is_ipv6 :: u8
  ce_pad0 :: u8
  ce_ifname :: bytes

record ezcap_dns_event =
  de_hdr :: ezcap_event_header
  de_local_addr4 :: u32
  de_local_addr6 :: bytes
  de_local_port :: u16
  de_pad0 :: u16
  de_is_ipv6 :: u8
  de_transport :: u8
  de_query_len :: u16
  de_query_name :: bytes
  de_ifname :: bytes

record ezcap_socket_state_event =
  se_hdr :: ezcap_event_header
  se_local_addr4 :: u32
  se_remote_addr4 :: u32
  se_local_addr6 :: bytes
  se_remote_addr6 :: bytes
  se_local_port :: u16
  se_remote_port :: u16
  se_transport :: u8
  se_direction :: u8
  se_is_ipv6 :: u8
  se_new_state :: u8
  se_duration_ns :: u64
  se_bytes_tx :: u64
  se_bytes_rx :: u64
  se_ifname :: bytes

text \<open>The arrays have their declared lengths.\<close>

definition connect_wf :: "ezcap_connect_event \<Rightarrow> bool" where
  "connect_wf e \<longleftrightarrow> length (ce_local_addr6 e) = 16 \<and> length (ce_remote_addr6 e) = 16 \<and>
     length (ce_ifname e) = EZCAP_IFNAME_MAX"

definition dns_wf :: "ezcap_dns_event \<Rightarrow> bool" where
  "dns_wf e \<longleftrightarrow> length (de_local_addr6 e) = 16 \<and> length (de_query_name e) = EZCAP_DNS_NAME_MAX \<and>
     length (de_ifname e) = EZCAP_IFNAME_MAX"

definition socket_state_wf :: "ezcap_socket_state_event \<Rightarrow> bool" where
  "socket_state_wf e \<longleftrightarrow> length (se_local_addr6 e) = 16 \<and> length (se_remote_addr6 e) = 16 \<and>
     length (se_ifname e) = EZCAP_IFNAME_MAX"

text \<open>
  Loading a record from the bytes of the ring buffer.  The header has four bytes of padding
  before its time stamp and a size of 24; the records have sizes 88, 328 and 112.
\<close>

definition load :: "bytes \<Rightarrow> nat \<Rightarrow> nat \<Rightarrow> 'a::len word option" where
  "load d off n = map_option le_word (read_bytes d off n)"

definition load_header :: "bytes \<Rightarrow> ezcap_event_header option" where
  "load_header d = do {
     version \<leftarrow> load d 0 1; tag \<leftarrow> load d 1 1; pad0 \<leftarrow> load d 2 2; pid \<leftarrow> load d 4 4; uid \<leftarrow> load d 8 4;
     ts \<leftarrow> load d 16 8;
     Some \<lparr>eh_version = version, eh_tag = tag, eh_pad0 = pad0, eh_pid = pid, eh_uid = uid,
           eh_timestamp_ns = ts\<rparr>
   }"

definition load_connect :: "bytes \<Rightarrow> ezcap_connect_event option" where
  "load_connect d = do {
     hdr \<leftarrow> load_header d; l4 \<leftarrow> load d 24 4; r4 \<leftarrow> load d 28 4; l6 \<leftarrow> read_bytes d 32 16;
     r6 \<leftarrow> read_bytes d 48 16; lp \<leftarrow> load d 64 2; rp \<leftarrow> load d 66 2; tr \<leftarrow> load d 68 1; dir \<leftarrow> load d 69 1;
     v6 \<leftarrow> load d 70 1; pad0 \<leftarrow> load d 71 1; ifname \<leftarrow> read_bytes d 72 16;
     Some \<lparr>ce_hdr = hdr, ce_local_addr4 = l4, ce_remote_addr4 = r4, ce_local_addr6 = l6,
           ce_remote_addr6 = r6, ce_local_port = lp, ce_remote_port = rp, ce_transport = tr,
           ce_direction = dir, ce_is_ipv6 = v6, ce_pad0 = pad0, ce_ifname = ifname\<rparr>
   }"

definition load_dns :: "bytes \<Rightarrow> ezcap_dns_event option" where
  "load_dns d = do {
     hdr \<leftarrow> load_header d; l4 \<leftarrow> load d 24 4; l6 \<leftarrow> read_bytes d 28 16; lp \<leftarrow> load d 44 2; pad0 \<leftarrow> load d 46 2;
     v6 \<leftarrow> load d 48 1; tr \<leftarrow> load d 49 1; ql \<leftarrow> load d 50 2; qn \<leftarrow> read_bytes d 52 253;
     ifname \<leftarrow> read_bytes d 305 16;
     Some \<lparr>de_hdr = hdr, de_local_addr4 = l4, de_local_addr6 = l6, de_local_port = lp, de_pad0 = pad0,
           de_is_ipv6 = v6, de_transport = tr, de_query_len = ql, de_query_name = qn, de_ifname = ifname\<rparr>
   }"

definition load_socket_state :: "bytes \<Rightarrow> ezcap_socket_state_event option" where
  "load_socket_state d = do {
     hdr \<leftarrow> load_header d; l4 \<leftarrow> load d 24 4; r4 \<leftarrow> load d 28 4; l6 \<leftarrow> read_bytes d 32 16;
     r6 \<leftarrow> read_bytes d 48 16; lp \<leftarrow> load d 64 2; rp \<leftarrow> load d 66 2; tr \<leftarrow> load d 68 1; dir \<leftarrow> load d 69 1;
     v6 \<leftarrow> load d 70 1; st \<leftarrow> load d 71 1; dur \<leftarrow> load d 72 8; tx \<leftarrow> load d 80 8; rx \<leftarrow> load d 88 8;
     ifname \<leftarrow> read_bytes d 96 16;
     Some \<lparr>se_hdr = hdr, se_local_addr4 = l4, se_remote_addr4 = r4, se_local_addr6 = l6,
           se_remote_addr6 = r6, se_local_port = lp, se_remote_port = rp, se_transport = tr,
           se_direction = dir, se_is_ipv6 = v6, se_new_state = st, se_duration_ns = dur,
           se_bytes_tx = tx, se_bytes_rx = rx, se_ifname = ifname\<rparr>
   }"

definition sizeof_header :: nat where "sizeof_header = 24"
definition sizeof_connect :: nat where "sizeof_connect = 88"
definition sizeof_dns :: nat where "sizeof_dns = 328"
definition sizeof_socket_state :: nat where "sizeof_socket_state = 112"

text \<open>The bytes of a record; \<open>pad\<close> and \<open>pad2\<close> are the bytes between and after its fields.\<close>

definition header_image :: "bytes \<Rightarrow> ezcap_event_header \<Rightarrow> bytes" where
  "header_image pad h = [eh_version h, eh_tag h] @ le_bytes 2 (eh_pad0 h) @ le_bytes 4 (eh_pid h) @
     le_bytes 4 (eh_uid h) @ pad @ le_bytes 8 (eh_timestamp_ns h)"

definition connect_image :: "bytes \<Rightarrow> ezcap_connect_event \<Rightarrow> bytes" where
  "connect_image pad e = header_image pad (ce_hdr e) @ le_bytes 4 (ce_local_addr4 e) @
     le_bytes 4 (ce_remote_addr4 e) @ ce_local_addr6 e @ ce_remote_addr6 e @ le_bytes 2 (ce_local_port e) @
     le_bytes 2 (ce_remote_port e) @ [ce_transport e, ce_direction e, ce_is_ipv6 e, ce_pad0 e] @ ce_ifname e"

definition dns_image :: "bytes \<Rightarrow> bytes \<Rightarrow> ezcap_dns_event \<Rightarrow> bytes" where
  "dns_image pad pad2 e = header_image pad (de_hdr e) @ le_bytes 4 (de_local_addr4 e) @ de_local_addr6 e @
     le_bytes 2 (de_local_port e) @ le_bytes 2 (de_pad0 e) @ [de_is_ipv6 e, de_transport e] @
     le_bytes 2 (de_query_len e) @ de_query_name e @ de_ifname e @ pad2"

definition socket_state_image :: "bytes \<Rightarrow> ezcap_socket_state_event \<Rightarrow> bytes" where
  "socket_state_image pad e = header_image pad (se_hdr e) @ le_bytes 4 (se_local_addr4 e) @
     le_bytes 4 (se_remote_addr4 e) @ se_local_addr6 e @ se_remote_addr6 e @ le_bytes 2 (se_local_port e) @
     le_bytes 2 (se_remote_port e) @ [se_transport e, se_direction e, se_is_ipv6 e, se_new_state e] @
     le_bytes 8 (se_duration_ns e) @ le_bytes 8 (se_bytes_tx e) @ le_bytes 8 (se_bytes_rx e) @ se_ifname e"

section \<open>The layout\<close>

lemma load_ok [simp]: "off + n \<le> length d \<Longrightarrow> load d off n = Some (le_word (take n (drop off d)))"
  by (simp add: load_def)

lemma load_header_ok: "sizeof_header \<le> length d \<Longrightarrow> \<exists>h. load_header d = Some h"
  by (simp add: load_header_def sizeof_header_def)

lemma load_connect_ok: "sizeof_connect \<le> length d \<Longrightarrow> \<exists>e. load_connect d = Some e \<and> connect_wf e \<and> load_header d = Some (ce_hdr e)"
  using load_header_ok [of d]
  by (auto simp: load_connect_def connect_wf_def sizeof_connect_def sizeof_header_def EZCAP_IFNAME_MAX_def)

lemma load_dns_ok: "sizeof_dns \<le> length d \<Longrightarrow> \<exists>e. load_dns d = Some e \<and> dns_wf e \<and> load_header d = Some (de_hdr e)"
  using load_header_ok [of d]
  by (auto simp: load_dns_def dns_wf_def sizeof_dns_def sizeof_header_def EZCAP_IFNAME_MAX_def EZCAP_DNS_NAME_MAX_def)

lemma load_socket_state_ok:
  "sizeof_socket_state \<le> length d \<Longrightarrow> \<exists>e. load_socket_state d = Some e \<and> socket_state_wf e \<and> load_header d = Some (se_hdr e)"
  using load_header_ok [of d]
  by (auto simp: load_socket_state_def socket_state_wf_def sizeof_socket_state_def sizeof_header_def EZCAP_IFNAME_MAX_def)

lemma length_header_image: "length pad = 4 \<Longrightarrow> length (header_image pad h) = 24"
  by (simp add: header_image_def)

lemma le_word_u8 [simp]: "le_word [b] = (b :: u8)"
  by simp

lemma load_header_image:
  "length pad = 4 \<Longrightarrow> load_header (header_image pad h @ r) = Some h"
  by (simp add: load_header_def header_image_def load_def read_bytes_def le_word_le_bytes take_Cons' drop_Cons')

lemma load_connect_image:
  "length pad = 4 \<Longrightarrow> connect_wf e \<Longrightarrow> load_connect (connect_image pad e) = Some e"
  by (simp add: load_connect_def connect_image_def load_header_image connect_wf_def length_header_image
      load_def read_bytes_def le_word_le_bytes EZCAP_IFNAME_MAX_def take_Cons' drop_Cons')

lemma load_dns_image:
  "length pad = 4 \<Longrightarrow> length pad2 = 7 \<Longrightarrow> dns_wf e \<Longrightarrow> load_dns (dns_image pad pad2 e) = Some e"
  by (simp add: load_dns_def dns_image_def load_header_image dns_wf_def length_header_image
      load_def read_bytes_def le_word_le_bytes EZCAP_IFNAME_MAX_def EZCAP_DNS_NAME_MAX_def take_Cons' drop_Cons')

lemma load_socket_state_image:
  "length pad = 4 \<Longrightarrow> socket_state_wf e \<Longrightarrow> load_socket_state (socket_state_image pad e) = Some e"
  by (simp add: load_socket_state_def socket_state_image_def load_header_image socket_state_wf_def
      length_header_image load_def read_bytes_def le_word_le_bytes EZCAP_IFNAME_MAX_def take_Cons' drop_Cons')

end
