(* ===== verification/Ez_Packet.thy ===== *)
theory Ez_Packet
  imports Ez_Types Ez_Bytes
begin

text \<open>
  \<^verbatim>\<open>src/capture/packet_parser.cpp\<close>: metadata of Ethernet frames.  Every access to the frame is
  checked (theory \<open>Ez_Bytes\<close>): a read outside the span is \<^const>\<open>None\<close>, and so is a
  subtraction of sizes that would wrap.  \<^verbatim>\<open>inet_ntop\<close> is the pair of parameters \<open>ntop4\<close> and
  \<open>ntop6\<close>, \<^const>\<open>None\<close> for a null result.

  The lemmas show that no frame leads to such a read, that TCP payload never influences the
  result, and that question names decode to what was encoded.
\<close>

section \<open>The code\<close>

definition kEthHeaderLen :: nat where "kEthHeaderLen = 14"
definition kEthTypeIp4 :: u16 where "kEthTypeIp4 = 0x0800"
definition kEthTypeIp6 :: u16 where "kEthTypeIp6 = 0x86DD"
definition kProtoTcp :: u8 where "kProtoTcp = 6"
definition kProtoUdp :: u8 where "kProtoUdp = 17"
definition kDnsPort :: u16 where "kDnsPort = 53"

definition read_be16 :: "bytes \<Rightarrow> nat \<Rightarrow> u16 option" where
  "read_be16 s i = do {
     hi \<leftarrow> read_u8 s i;
     lo \<leftarrow> read_u8 s (i + 1);
     Some (push_bit 8 (ucast hi) OR ucast lo)
   }"

definition qname_char_ok :: "u8 \<Rightarrow> bool" where
  "qname_char_ok ch \<longleftrightarrow> (97 \<le> ch \<and> ch \<le> 122) \<or> (65 \<le> ch \<and> ch \<le> 90) \<or> (48 \<le> ch \<and> ch \<le> 57)
     \<or> ch = 45 \<or> ch = 95 \<or> ch = 46"

text \<open>The inner loop over one label; \<^const>\<open>None\<close> is the early return of an empty name.\<close>

fun qname_label :: "bytes \<Rightarrow> string \<Rightarrow> string option" where
  "qname_label [] out = Some out"
| "qname_label (ch # chs) out =
     (if \<not> qname_char_ok ch then None
      else if 253 \<le> length out + 1 then None
      else qname_label chs (out @ [char_of (unat ch)]))"

text \<open>
  The outer loop, from position \<open>i\<close> with \<open>labels\<close> labels read.  The outer option is the checked
  access, the result is empty on a malformed name.
\<close>

function qname_loop :: "bytes \<Rightarrow> nat \<Rightarrow> nat \<Rightarrow> string \<Rightarrow> string option" where
  "qname_loop data i labels out =
     (if \<not> (i < length data \<and> labels < 128) then Some []
      else do {
        label_len \<leftarrow> read_u8 data i;
        if label_len = 0 then Some out
        else if label_len AND 0xC0 \<noteq> 0 \<or> 63 < label_len then Some []
        else if length data < i + 1 + unat label_len then Some []
        else if out \<noteq> [] \<and> 253 \<le> length out + 1 then Some []
        else do {
          label \<leftarrow> read_bytes data (i + 1) (unat label_len);
          case qname_label label (if out \<noteq> [] then out @ ''.'' else out) of
            None \<Rightarrow> Some []
          | Some out' \<Rightarrow> qname_loop data (i + (1 + unat label_len)) (labels + 1) out'
        }
      })"
  by pat_completeness auto
termination by (relation "measure (\<lambda>(data, i, labels, out). 128 - labels)") auto

declare qname_loop.simps [simp del]

definition parse_dns_qname :: "bytes \<Rightarrow> string option" where
  "parse_dns_qname data = qname_loop data 0 0 []"

record packet_metadata =
  pm_valid :: bool
  pm_transport :: transport
  pm_direction :: direction
  pm_local_address :: string
  pm_remote_address :: string
  pm_source_port :: u16
  pm_destination_port :: u16
  pm_dns_query_name :: string
  pm_dns_response_code :: u8
  pm_has_dns_response_code :: bool

definition packet_metadata_init :: packet_metadata where
  "packet_metadata_init = \<lparr>pm_valid = False, pm_transport = OtherTransport, pm_direction = UnknownDirection,
     pm_local_address = [], pm_remote_address = [], pm_source_port = 0, pm_destination_port = 0,
     pm_dns_query_name = [], pm_dns_response_code = 0, pm_has_dns_response_code = False\<rparr>"

type_synonym ntop = "bytes \<Rightarrow> string option"

definition format_ip :: "ntop \<Rightarrow> bytes \<Rightarrow> string" where
  "format_ip ntop b = (case ntop b of None \<Rightarrow> [] | Some s \<Rightarrow> s)"

text \<open>
  The network headers: the metadata so far, and where the transport header starts;
  no position is an early return of the metadata.
\<close>

definition parse_ip4 :: "ntop \<Rightarrow> bytes \<Rightarrow> packet_metadata \<Rightarrow> (packet_metadata \<times> nat option) option" where
  "parse_ip4 ntop4 frame meta =
     (let offset = kEthHeaderLen in
      if length frame < offset + 20 then Some (meta, None)
      else do {
        b \<leftarrow> read_u8 frame offset;
        let ihl = unat (b AND 0x0F) * 4;
        if ihl < 20 \<or> length frame < offset + ihl then Some (meta, None)
        else do {
          src \<leftarrow> read_bytes frame (offset + 12) 4;
          dst \<leftarrow> read_bytes frame (offset + 16) 4;
          let meta = meta\<lparr>pm_local_address := format_ip ntop4 src, pm_remote_address := format_ip ntop4 dst\<rparr>;
          proto \<leftarrow> read_u8 frame (offset + 9);
          if proto \<noteq> kProtoTcp \<and> proto \<noteq> kProtoUdp then Some (meta, None)
          else Some (meta\<lparr>pm_transport := if proto = kProtoTcp then Tcp else Udp\<rparr>, Some (offset + ihl))
        }
      })"

definition parse_ip6 :: "ntop \<Rightarrow> bytes \<Rightarrow> packet_metadata \<Rightarrow> (packet_metadata \<times> nat option) option" where
  "parse_ip6 ntop6 frame meta =
     (let offset = kEthHeaderLen in
      if length frame < offset + 40 then Some (meta, None)
      else do {
        next_header \<leftarrow> read_u8 frame (offset + 6);
        if next_header \<noteq> kProtoTcp \<and> next_header \<noteq> kProtoUdp then Some (meta, None)
        else do {
          src \<leftarrow> read_bytes frame (offset + 8) 16;
          dst \<leftarrow> read_bytes frame (offset + 24) 16;
          Some (meta\<lparr>pm_local_address := format_ip ntop6 src, pm_remote_address := format_ip ntop6 dst,
                     pm_transport := if next_header = kProtoTcp then Tcp else Udp\<rparr>, Some (offset + 40))
        }
      })"

definition parse_tcp :: "bytes \<Rightarrow> nat \<Rightarrow> nat \<Rightarrow> packet_metadata \<Rightarrow> packet_metadata option" where
  "parse_tcp frame offset remaining meta =
     (if remaining < 20 then Some (meta\<lparr>pm_transport := OtherTransport\<rparr>)
      else do {
        sp \<leftarrow> read_be16 frame offset;
        dp \<leftarrow> read_be16 frame (offset + 2);
        Some (meta\<lparr>pm_source_port := sp, pm_destination_port := dp, pm_valid := True\<rparr>)
      })"

definition parse_dns :: "bytes \<Rightarrow> packet_metadata \<Rightarrow> packet_metadata option" where
  "parse_dns payload meta =
     (if length payload < 12 then Some meta
      else do {
        qdcount \<leftarrow> read_be16 payload 4;
        b \<leftarrow> read_u8 payload 3;
        let meta = meta\<lparr>pm_has_dns_response_code := True, pm_dns_response_code := b AND 0x0F\<rparr>;
        if 1 \<le> qdcount then do {
          questions \<leftarrow> subspan payload 12;
          name \<leftarrow> parse_dns_qname questions;
          Some (meta\<lparr>pm_dns_query_name := name\<rparr>)
        } else Some meta
      })"

text \<open>The declared datagram length is read and compared, and the comparison has no effect.\<close>

definition parse_udp :: "bytes \<Rightarrow> nat \<Rightarrow> nat \<Rightarrow> packet_metadata \<Rightarrow> packet_metadata option" where
  "parse_udp frame offset remaining meta =
     (if remaining < 8 then Some (meta\<lparr>pm_transport := OtherTransport\<rparr>)
      else do {
        sp \<leftarrow> read_be16 frame offset;
        dp \<leftarrow> read_be16 frame (offset + 2);
        dgram_len \<leftarrow> read_be16 frame (offset + 4);
        let meta = meta\<lparr>pm_source_port := sp, pm_destination_port := dp\<rparr>;
        meta \<leftarrow> (if dp = kDnsPort \<or> sp = kDnsPort then do {
                     payload \<leftarrow> subspan frame (offset + 8);
                     parse_dns payload meta
                   } else Some meta);
        Some (meta\<lparr>pm_valid := True\<rparr>)
      })"

definition parse_ip :: "ntop \<Rightarrow> ntop \<Rightarrow> bytes \<Rightarrow> packet_metadata \<Rightarrow> (packet_metadata \<times> nat option) option" where
  "parse_ip ntop4 ntop6 frame meta = do {
     eth_type \<leftarrow> read_be16 frame 12;
     if eth_type = kEthTypeIp4 then parse_ip4 ntop4 frame meta
     else if eth_type = kEthTypeIp6 then parse_ip6 ntop6 frame meta
     else Some (meta, None)
   }"

definition parse_ethernet_frame :: "ntop \<Rightarrow> ntop \<Rightarrow> bytes \<Rightarrow> packet_metadata option" where
  "parse_ethernet_frame ntop4 ntop6 frame =
     (let meta = packet_metadata_init in
      if length frame < kEthHeaderLen then Some meta
      else do {
        (meta, off) \<leftarrow> parse_ip ntop4 ntop6 frame meta;
        case off of
          None \<Rightarrow> Some meta
        | Some offset \<Rightarrow> do {
            remaining \<leftarrow> size_sub (length frame) offset;
            if pm_transport meta = Tcp then parse_tcp frame offset remaining meta
            else parse_udp frame offset remaining meta
          }
      })"

section \<open>No read leaves the frame\<close>

lemma read_be16_ok: "i + 1 < length s \<Longrightarrow> \<exists>w. read_be16 s i = Some w"
  by (simp add: read_be16_def)

lemma qname_loop_returns: "\<exists>name. qname_loop data i labels out = Some name"
proof (induction data i labels out rule: qname_loop.induct)
  case (1 data i labels out)
  show ?case
  proof (cases "i < length data \<and> labels < 128")
    case True
    then show ?thesis
      using "1.IH" by (auto simp: qname_loop.simps [of data i labels out] split: option.splits)
  qed (simp add: qname_loop.simps)
qed

text \<open>What the network headers leave: an early return, or a transport header inside the frame.\<close>

definition ip_result :: "bytes \<Rightarrow> packet_metadata \<times> nat option \<Rightarrow> bool" where
  "ip_result frame r = (\<not> pm_valid (fst r) \<and>
     (case snd r of None \<Rightarrow> True | Some k \<Rightarrow> k \<le> length frame \<and> pm_transport (fst r) \<in> {Tcp, Udp}))"

lemma parse_ip4_returns: "\<not> pm_valid meta \<Longrightarrow> \<exists>r. parse_ip4 ntop frame meta = Some r \<and> ip_result frame r"
  by (auto simp: parse_ip4_def kEthHeaderLen_def Let_def ip_result_def)

lemma parse_ip6_returns: "\<not> pm_valid meta \<Longrightarrow> \<exists>r. parse_ip6 ntop frame meta = Some r \<and> ip_result frame r"
  by (auto simp: parse_ip6_def kEthHeaderLen_def Let_def ip_result_def)

lemma parse_ip_returns:
  "14 \<le> length frame \<Longrightarrow> \<not> pm_valid meta \<Longrightarrow> \<exists>r. parse_ip ntop4 ntop6 frame meta = Some r \<and> ip_result frame r"
  using read_be16_ok [of 12 frame] parse_ip4_returns parse_ip6_returns
  by (auto simp: parse_ip_def ip_result_def)

lemma parse_tcp_returns:
  "offset + remaining \<le> length frame \<Longrightarrow> pm_transport meta = Tcp \<Longrightarrow> \<not> pm_valid meta \<Longrightarrow>
     \<exists>m. parse_tcp frame offset remaining meta = Some m \<and> (pm_valid m \<longrightarrow> pm_transport m = Tcp)"
  using read_be16_ok [of offset frame] read_be16_ok [of "offset + 2" frame]
  by (auto simp: parse_tcp_def)

lemma parse_dns_returns: "\<exists>m. parse_dns payload meta = Some m \<and> pm_transport m = pm_transport meta"
proof -
  obtain name where "parse_dns_qname (drop 12 payload) = Some name"
    using qname_loop_returns unfolding parse_dns_qname_def by blast
  then show ?thesis
    using read_be16_ok [of 4 payload] by (auto simp: parse_dns_def Let_def subspan_def)
qed

lemma parse_udp_returns:
  assumes "offset + remaining \<le> length frame" "pm_transport meta = Udp" "\<not> pm_valid meta"
  shows "\<exists>m. parse_udp frame offset remaining meta = Some m \<and> (pm_valid m \<longrightarrow> pm_transport m = Udp)"
proof (cases "remaining < 8")
  case False
  with assms(1) obtain sp dp dl where "read_be16 frame offset = Some sp" "read_be16 frame (offset + 2) = Some dp"
    "read_be16 frame (offset + 4) = Some dl"
    using read_be16_ok [of offset frame] read_be16_ok [of "offset + 2" frame] read_be16_ok [of "offset + 4" frame]
    by auto
  with False assms show ?thesis
    using parse_dns_returns [of "drop (offset + 8) frame" "meta\<lparr>pm_source_port := sp, pm_destination_port := dp\<rparr>"]
    by (auto simp: parse_udp_def Let_def subspan_def)
qed (use assms in \<open>simp add: parse_udp_def\<close>)

text \<open>
  C14: parsing any byte string as a frame returns: no read leaves the frame, no size wraps and
  the name loop stops, whatever the lengths the headers declare; and metadata marked valid is
  that of a TCP or UDP packet.
\<close>

theorem parse_frame_safe:
  "\<exists>m. parse_ethernet_frame ntop4 ntop6 frame = Some m \<and> (pm_valid m \<longrightarrow> pm_transport m \<in> {Tcp, Udp})"
proof (cases "length frame < 14")
  case True
  then show ?thesis by (simp add: parse_ethernet_frame_def packet_metadata_init_def kEthHeaderLen_def)
next
  case False
  then obtain m off where ip: "parse_ip ntop4 ntop6 frame packet_metadata_init = Some (m, off)"
    and r: "ip_result frame (m, off)"
    using parse_ip_returns [of frame packet_metadata_init ntop4 ntop6]
    by (auto simp: packet_metadata_init_def)
  show ?thesis
  proof (cases off)
    case None
    with False ip r show ?thesis
      by (simp add: parse_ethernet_frame_def kEthHeaderLen_def ip_result_def)
  next
    case (Some k)
    with r have k: "k + (length frame - k) \<le> length frame" "\<not> pm_valid m"
      and t: "pm_transport m = Tcp \<or> pm_transport m = Udp" by (auto simp: ip_result_def)
    from t show ?thesis
      using False ip Some k parse_tcp_returns [OF k(1) _ k(2)] parse_udp_returns [OF k(1) _ k(2)]
      by (elim disjE) (auto simp: parse_ethernet_frame_def kEthHeaderLen_def size_sub_def)
  qed
qed

text \<open>An IPv4 TCP segment without payload, port 443 to 8080.\<close>

definition sample_tcp :: bytes where
  "sample_tcp = replicate 12 0 @ [0x08, 0x00] @ [0x45] @ replicate 8 0 @ [6, 0, 0] @ [10, 0, 0, 1] @ [10, 0, 0, 2]
     @ [0x01, 0xBB, 0x1F, 0x90] @ replicate 16 0"

definition sample_ntop :: ntop where
  "sample_ntop b = Some (concat (map hex_byte b))"

lemmas frame_eval = parse_ethernet_frame_def parse_ip_def parse_ip4_def parse_tcp_def read_be16_def read_u8_def
  read_bytes_def size_sub_def kEthHeaderLen_def kEthTypeIp4_def kEthTypeIp6_def kProtoTcp_def kProtoUdp_def
  packet_metadata_init_def Let_def

lemma sample_tcp_list:
  "sample_tcp = [0, 0, 0, 0, 0, 0, 0, 0, 0, 0, 0, 0, 0x08, 0x00, 0x45, 0, 0, 0, 0, 0, 0, 0, 0, 6, 0, 0,
     10, 0, 0, 1, 10, 0, 0, 2, 0x01, 0xBB, 0x1F, 0x90, 0, 0, 0, 0, 0, 0, 0, 0, 0, 0, 0, 0, 0, 0, 0, 0]"
  by (simp add: sample_tcp_def numeral_eq_Suc)

lemma sample_tcp_valid:
  "\<exists>m. parse_ethernet_frame sample_ntop sample_ntop sample_tcp = Some m \<and> pm_valid m \<and> pm_transport m = Tcp
     \<and> pm_source_port m = 443 \<and> pm_destination_port m = 8080"
  unfolding sample_tcp_list by (simp add: frame_eval)

theorem parse_frame_safe_witness:
  "\<exists>m. parse_ethernet_frame sample_ntop sample_ntop sample_tcp = Some m \<and> pm_transport m \<in> {Tcp, Udp}"
  using parse_frame_safe [of sample_ntop sample_ntop sample_tcp] sample_tcp_valid by auto

section \<open>TCP payload is not inspected\<close>

lemma read_u8_append: "read_u8 s i = Some b \<Longrightarrow> read_u8 (s @ p) i = Some b"
  by (auto simp: read_u8_def nth_append split: if_splits)

lemma read_bytes_append: "read_bytes s i n = Some b \<Longrightarrow> read_bytes (s @ p) i n = Some b"
  by (auto simp: read_bytes_def split: if_splits)

lemma read_be16_append: "read_be16 s i = Some b \<Longrightarrow> read_be16 (s @ p) i = Some b"
  by (auto simp: read_be16_def bind_eq_Some_conv dest: read_u8_append)

lemma parse_ip4_append: "parse_ip4 ntop s meta = Some (m, Some k) \<Longrightarrow> parse_ip4 ntop (s @ p) meta = Some (m, Some k)"
  by (auto simp: parse_ip4_def Let_def kEthHeaderLen_def nth_append split: if_splits)

lemma parse_ip6_append: "parse_ip6 ntop s meta = Some (m, Some k) \<Longrightarrow> parse_ip6 ntop (s @ p) meta = Some (m, Some k)"
  by (auto simp: parse_ip6_def Let_def kEthHeaderLen_def nth_append split: if_splits)

lemma parse_ip_append:
  "parse_ip ntop4 ntop6 s meta = Some (m, Some k) \<Longrightarrow> parse_ip ntop4 ntop6 (s @ p) meta = Some (m, Some k)"
  by (auto simp: parse_ip_def bind_eq_Some_conv split: if_splits
      dest: read_be16_append parse_ip4_append parse_ip6_append)

lemma parse_tcp_append:
  assumes "parse_tcp s k (length s - k) meta = Some m" "pm_valid m" "\<not> pm_valid meta"
  shows "parse_tcp (s @ p) k (length (s @ p) - k) meta = Some m"
  using assms by (auto simp: parse_tcp_def bind_eq_Some_conv split: if_splits dest: read_be16_append)

text \<open>
  Bytes after the TCP header never influence the metadata: if a frame is a valid TCP
  packet, appending any payload gives the same result.
\<close>

theorem tcp_payload_ignored:
  assumes "parse_ethernet_frame ntop4 ntop6 hdr = Some m" "pm_valid m" "pm_transport m = Tcp"
  shows "parse_ethernet_frame ntop4 ntop6 (hdr @ payload) = Some m"
proof -
  have len: "\<not> length hdr < kEthHeaderLen"
    using assms(1,2) by (auto simp: parse_ethernet_frame_def packet_metadata_init_def)
  obtain m0 off where ip: "parse_ip ntop4 ntop6 hdr packet_metadata_init = Some (m0, off)"
    and r: "ip_result hdr (m0, off)"
    using len parse_ip_returns [of hdr packet_metadata_init ntop4 ntop6]
    by (auto simp: packet_metadata_init_def kEthHeaderLen_def)
  have nv: "\<not> pm_valid m0" using r by (simp add: ip_result_def)
  with assms(1,2) len ip obtain k where k: "off = Some k"
    by (auto simp: parse_ethernet_frame_def split: option.splits)
  have le: "k \<le> length hdr" and t: "pm_transport m0 = Tcp \<or> pm_transport m0 = Udp"
    using r k by (auto simp: ip_result_def)
  have "pm_transport m0 = Tcp"
  proof (rule ccontr)
    assume n: "pm_transport m0 \<noteq> Tcp"
    with t have "parse_udp hdr k (length hdr - k) m0 = Some m" "pm_transport m0 = Udp"
      using assms(1) len ip k le by (auto simp: parse_ethernet_frame_def size_sub_def)
    then show False
      using parse_udp_returns [of k "length hdr - k" hdr m0] le nv assms(2,3) by auto
  qed
  moreover from this have "parse_tcp hdr k (length hdr - k) m0 = Some m"
    using assms(1) len ip k le by (auto simp: parse_ethernet_frame_def size_sub_def)
  ultimately show ?thesis
    using parse_tcp_append [OF _ assms(2) nv] parse_ip_append [OF ip [unfolded k]] len le
    by (simp add: parse_ethernet_frame_def size_sub_def)
qed

section \<open>Question names\<close>

definition qname_alphabet :: "char \<Rightarrow> bool" where
  "qname_alphabet c \<longleftrightarrow> is_alnum c \<or> c \<in> set ''-_.''"

lemma char_of_u8: "code_of (char_of (unat (b :: u8))) = unat b"
proof -
  have "unat b < 256" using unsigned_less [of b] by simp
  then show ?thesis by (simp add: of_char_of)
qed

lemma qname_char_alphabet: "qname_char_ok ch \<longleftrightarrow> qname_alphabet (char_of (unat ch))"
proof -
  define n where "n = unat ch"
  have c: "code_of (char_of n :: char) = n" unfolding n_def by (rule char_of_u8)
  have set: "x \<in> set ''-_.'' \<longleftrightarrow> code_of x = 45 \<or> code_of x = 95 \<or> code_of x = 46" for x
    by (simp add: char_eq_iff_code)
  have "qname_alphabet (char_of n) \<longleftrightarrow>
      (65 \<le> n \<and> n \<le> 90 \<or> 97 \<le> n \<and> n \<le> 122 \<or> 48 \<le> n \<and> n \<le> 57) \<or> n = 45 \<or> n = 95 \<or> n = 46"
    by (simp only: qname_alphabet_def is_alnum_def is_upper_def is_lower_def is_digit_def set c)
  moreover have "ch = 45 \<longleftrightarrow> n = 45" "ch = 95 \<longleftrightarrow> n = 95" "ch = 46 \<longleftrightarrow> n = 46"
    by (simp_all add: word_unat_eq_iff n_def)
  moreover have "k \<le> ch \<longleftrightarrow> unat k \<le> n" "ch \<le> k \<longleftrightarrow> n \<le> unat k" for k
    by (simp_all add: word_le_nat_alt n_def)
  ultimately show ?thesis unfolding qname_char_ok_def n_def [symmetric] by simp blast
qed

lemma qname_label_shape:
  "qname_label chs out = Some out' \<Longrightarrow> length out \<le> 252 \<Longrightarrow> list_all qname_alphabet out \<Longrightarrow>
     length out' \<le> 252 \<and> list_all qname_alphabet out'"
  by (induction chs out rule: qname_label.induct) (auto simp: qname_char_alphabet split: if_splits)

text \<open>One round of the outer loop: it ends, or reads a label and goes on.\<close>

lemma qname_loop_cases:
  assumes "qname_loop data i labels out = Some name"
  obtains "name = []" | "name = out"
  | lab out' where "qname_label lab (if out \<noteq> [] then out @ ''.'' else out) = Some out'" "labels < 128"
      "out \<noteq> [] \<longrightarrow> length out < 252" "qname_loop data (i + (1 + length lab)) (labels + 1) out' = Some name"
proof (cases "i < length data \<and> labels < 128")
  case False
  then show thesis using assms that(1) by (simp add: qname_loop.simps)
next
  case True
  define n where "n = unat (data ! i)"
  show thesis
  proof (cases "data ! i = 0 \<or> data ! i AND 0xC0 \<noteq> 0 \<or> 63 < data ! i \<or> length data < i + 1 + n
      \<or> (out \<noteq> [] \<and> 253 \<le> length out + 1)")
    case True
    then show thesis
      using assms \<open>i < length data \<and> labels < 128\<close> that(1,2)
      by (auto simp: qname_loop.simps [of data i] n_def split: if_splits)
  next
    case False
    define lab where "lab = take n (drop (i + 1) data)"
    have "i + 1 + n \<le> length data" using False by auto
    then have len: "length lab = n" by (simp add: lab_def)
    have "qname_loop data i labels out = (case qname_label lab (if out \<noteq> [] then out @ ''.'' else out) of
        None \<Rightarrow> Some [] | Some out' \<Rightarrow> qname_loop data (i + (1 + n)) (labels + 1) out')"
      using True False unfolding lab_def n_def by (auto simp: qname_loop.simps [of data i])
    then show thesis
      using assms that(1) that(3) [of lab] True False len
      by (auto split: option.splits)
  qed
qed

lemma qname_loop_shape:
  "qname_loop data i labels out = Some name \<Longrightarrow> length out \<le> 252 \<Longrightarrow> list_all qname_alphabet out \<Longrightarrow>
     length name \<le> 252 \<and> list_all qname_alphabet name"
proof (induction "128 - labels" arbitrary: i labels out rule: less_induct)
  case less
  from less.prems(1) show ?case
  proof (cases rule: qname_loop_cases)
    case (3 lab out')
    have "length out' \<le> 252 \<and> list_all qname_alphabet out'"
      using 3(1,3) less.prems(2,3)
      by (intro qname_label_shape [OF 3(1)]) (auto simp: qname_alphabet_def)
    with 3 show ?thesis by (intro less.hyps [OF _ 3(4)]) auto
  qed (use less.prems in auto)
qed

text \<open>The wire form of a name, and its text.\<close>

definition encode_label :: "string \<Rightarrow> bytes" where
  "encode_label l = of_nat (length l) # map (\<lambda>c. of_nat (code_of c)) l"

definition label_ok :: "string \<Rightarrow> bool" where
  "label_ok l \<longleftrightarrow> 1 \<le> length l \<and> length l \<le> 63 \<and> list_all qname_alphabet l"

fun join_dots :: "string list \<Rightarrow> string" where
  "join_dots [] = []"
| "join_dots [l] = l"
| "join_dots (l # ls) = l @ ''.'' @ join_dots ls"

text \<open>The text after more labels.\<close>

definition add_label :: "string \<Rightarrow> string \<Rightarrow> string" where
  "add_label out l = (if out \<noteq> [] then out @ ''.'' else out) @ l"

lemma add_label_simps [simp]:
  "add_label [] l = l" "out \<noteq> [] \<Longrightarrow> add_label out l = out @ ''.'' @ l"
  by (simp_all add: add_label_def)

lemma foldl_add_label: "out \<noteq> [] \<Longrightarrow> foldl add_label out ls = out @ concat (map ((@) ''.'') ls)"
  by (induction ls arbitrary: out) auto

lemma join_dots_foldl: "list_all label_ok ls \<Longrightarrow> join_dots ls = foldl add_label [] ls"
proof (induction ls rule: join_dots.induct)
  case (3 l m ls)
  then have "l \<noteq> []" "m \<noteq> []" by (auto simp: label_ok_def)
  with 3 show ?case by (simp add: foldl_add_label)
qed auto

lemma length_foldl_add_label: "length out \<le> length (foldl add_label out ls)"
proof (induction ls arbitrary: out)
  case (Cons l ls)
  have "length out \<le> length (add_label out l)" by (simp add: add_label_def)
  then show ?case using Cons [of "add_label out l"] by simp
qed simp

lemma length_byte: "n < 64 \<Longrightarrow> unat (of_nat n :: u8) = n \<and> (of_nat n :: u8) AND 0xC0 = 0 \<and> \<not> 63 < (of_nat n :: u8)"
proof -
  assume n: "n < 64"
  have "list_all (\<lambda>n. (of_nat n :: u8) AND 0xC0 = 0) [0..<64]" by code_simp
  with n have "(of_nat n :: u8) AND 0xC0 = 0" by (simp add: list_all_iff)
  moreover have u: "unat (of_nat n :: u8) = n" using n by (simp add: unat_of_nat)
  ultimately show ?thesis using n by (simp add: word_less_nat_alt)
qed

lemma qname_label_encode:
  "list_all qname_alphabet l \<Longrightarrow> length out + length l \<le> 252 \<Longrightarrow>
     qname_label (map (\<lambda>c. of_nat (code_of c)) l) out = Some (out @ l)"
proof (induction l arbitrary: out)
  case (Cons c l)
  have "unat (of_nat (code_of c) :: u8) = code_of c"
    by (simp add: unat_of_nat)
  then have "char_of (unat (of_nat (code_of c) :: u8)) = c" by simp
  then show ?case using Cons by (simp add: qname_char_alphabet)
qed simp

lemma qname_loop_label:
  assumes "label_ok l" "labels < 128" "length (add_label out l) \<le> 252"
  shows "qname_loop (pre @ encode_label l @ rest) (length pre) labels out =
     qname_loop (pre @ encode_label l @ rest) (length (pre @ encode_label l)) (labels + 1) (add_label out l)"
proof -
  define data where "data = pre @ encode_label l @ rest"
  have l: "length l < 64" "l \<noteq> []" "list_all qname_alphabet l" using assms(1) by (auto simp: label_ok_def)
  have i: "length pre < length data" and b: "data ! length pre = of_nat (length l)"
    by (simp_all add: data_def encode_label_def nth_append)
  have nz: "(of_nat (length l) :: u8) \<noteq> 0"
    using length_byte [OF l(1)] l(2) by (metis length_0_conv unat_0)
  have lab: "take (length l) (drop (length pre + 1) data) = map (\<lambda>c. of_nat (code_of c)) l"
    by (simp add: data_def encode_label_def)
  have "qname_label (map (\<lambda>c. of_nat (code_of c)) l) (if out \<noteq> [] then out @ ''.'' else out) = Some (add_label out l)"
    using qname_label_encode [OF l(3)] assms(3) by (simp add: add_label_def)
  moreover have "\<not> (out \<noteq> [] \<and> 253 \<le> length out + 1)" using assms(3) l(2) by (cases l) (auto simp: add_label_def)
  moreover have "\<not> length data < length pre + 1 + length l" by (simp add: data_def encode_label_def)
  ultimately show ?thesis
    unfolding data_def [symmetric]
    using i assms(2) b nz lab length_byte [OF l(1)]
    by (auto simp: qname_loop.simps [of data "length pre"] encode_label_def)
qed

lemma qname_loop_encode:
  "list_all label_ok ls \<Longrightarrow> labels + length ls < 128 \<Longrightarrow> length (foldl add_label out ls) \<le> 252 \<Longrightarrow>
     qname_loop (pre @ concat (map encode_label ls) @ 0 # rest) (length pre) labels out = Some (foldl add_label out ls)"
proof (induction ls arbitrary: pre labels out)
  case Nil
  then show ?case by (simp add: qname_loop.simps [of _ "length pre"])
next
  case (Cons l ls)
  have "length (add_label out l) \<le> 252"
    using Cons.prems(3) length_foldl_add_label [of "add_label out l" ls] by simp
  then show ?case
    using Cons qname_loop_label [of l labels out pre "concat (map encode_label ls) @ 0 # rest"]
      Cons.IH [of "labels + 1" "add_label out l" "pre @ encode_label l"]
    by simp
qed

lemma labels_count: "list_all label_ok ls \<Longrightarrow> 2 * length ls \<le> length (join_dots ls) + 1"
proof (induction ls rule: join_dots.induct)
  case (3 l m ls)
  then show ?case by (auto simp: label_ok_def)
qed (auto simp: label_ok_def)

lemma parse_dns_qname_encode:
  assumes "list_all label_ok ls" "length (join_dots ls) \<le> 252"
  shows "parse_dns_qname (concat (map encode_label ls) @ 0 # rest) = Some (join_dots ls)"
proof -
  have "length ls < 128" using labels_count [OF assms(1)] assms(2) by simp
  then show ?thesis
    using qname_loop_encode [OF assms(1), of 0 "[]" "[]"] assms
    by (simp add: parse_dns_qname_def join_dots_foldl)
qed

lemma join_dots_alphabet: "list_all label_ok ls \<Longrightarrow> list_all qname_alphabet (join_dots ls)"
  by (induction ls rule: join_dots.induct) (auto simp: label_ok_def qname_alphabet_def)

text \<open>
  A question name survives the wire: the labels of any well-formed name of at most 252
  characters, encoded with their length bytes and followed by anything, decode to the dotted
  name; and every decoded name, of any input at all, has at most 252 characters, all of them
  letters, digits, dashes, underscores or dots.
\<close>

theorem dns_qname_round_trip:
  assumes "list_all label_ok ls" "length (join_dots ls) \<le> 252"
  shows "parse_dns_qname (concat (map encode_label ls) @ 0 # rest) = Some (join_dots ls)
     \<and> (case parse_dns_qname data of None \<Rightarrow> False
        | Some name \<Rightarrow> length name \<le> 252 \<and> list_all qname_alphabet name)"
proof
  show "parse_dns_qname (concat (map encode_label ls) @ 0 # rest) = Some (join_dots ls)"
    by (rule parse_dns_qname_encode [OF assms])
  obtain name where "parse_dns_qname data = Some name"
    using qname_loop_returns unfolding parse_dns_qname_def by blast
  then show "case parse_dns_qname data of None \<Rightarrow> False
      | Some name \<Rightarrow> length name \<le> 252 \<and> list_all qname_alphabet name"
    using qname_loop_shape [of data 0 0 "[]" name] by (simp add: parse_dns_qname_def)
qed

end
