(* ===== verification/Ez_Kernel.thy ===== *)
theory Ez_Kernel
  imports Ez_Records Ez_Packet
begin

text \<open>
  \<^verbatim>\<open>ebpf/src/connect.bpf.c\<close>, \<^verbatim>\<open>dns.bpf.c\<close> and \<^verbatim>\<open>socket_state.bpf.c\<close>: the kernel programs.  The
  fields of the kernel socket, the task identifiers, the clock and the packet are their
  arguments; memory obtained from \<^verbatim>\<open>bpf_ringbuf_reserve\<close> is the previous contents of the
  record, \<^const>\<open>None\<close> for a null pointer, and the result is the submitted record.

  The lemmas show that copying a question name never writes outside the record, reads
  inside the announced length, and leaves the name followed by a NUL.
\<close>

section \<open>The kernel programs\<close>

definition bswap16 :: "u16 \<Rightarrow> u16" where
  "bswap16 w = push_bit 8 w OR drop_bit 8 w"

record task =
  tk_pid_tgid :: u64
  tk_uid_gid :: u64
  tk_ktime_ns :: u64

text \<open>
  What the programs read of a socket.  The port of the peer is in network byte order.  The read
  of \<^verbatim>\<open>sk_txhash\<close> has the size of its destination, so it takes the eight bytes found there.
\<close>

record sock =
  skc_rcv_saddr :: u32
  skc_daddr :: u32
  skc_v6_rcv_saddr :: bytes
  skc_v6_daddr :: bytes
  skc_dport :: u16
  skc_num :: u16
  sk_txhash8 :: u64

definition fill_header :: "task \<Rightarrow> u8 \<Rightarrow> ezcap_event_header" where
  "fill_header t tag = \<lparr>eh_version = EZCAP_EVENT_VERSION, eh_tag = tag, eh_pad0 = 0,
     eh_pid = ucast (drop_bit 32 (tk_pid_tgid t)), eh_uid = ucast (tk_uid_gid t),
     eh_timestamp_ns = tk_ktime_ns t\<rparr>"

definition ezcap_tcp_v4_connect :: "task \<Rightarrow> sock \<Rightarrow> ezcap_connect_event option \<Rightarrow> ezcap_connect_event option" where
  "ezcap_tcp_v4_connect t sk reserved = do {
     ev \<leftarrow> reserved;
     Some (ev\<lparr>ce_hdr := fill_header t EZCAP_EVENT_TAG_CONNECT,
       ce_remote_addr4 := skc_rcv_saddr sk, ce_local_addr4 := skc_daddr sk,
       ce_local_port := skc_num sk, ce_remote_port := bswap16 (skc_dport sk),
       ce_transport := 6, ce_direction := 1, ce_is_ipv6 := 0, ce_pad0 := 0,
       ce_ifname := (ce_ifname ev)[0 := 0]\<rparr>)
   }"

definition ezcap_tcp_v6_connect :: "task \<Rightarrow> sock \<Rightarrow> ezcap_connect_event option \<Rightarrow> ezcap_connect_event option" where
  "ezcap_tcp_v6_connect t sk reserved = do {
     ev \<leftarrow> reserved;
     Some (ev\<lparr>ce_hdr := fill_header t EZCAP_EVENT_TAG_CONNECT,
       ce_remote_addr6 := skc_v6_daddr sk, ce_local_addr6 := skc_v6_rcv_saddr sk,
       ce_local_port := skc_num sk, ce_remote_port := bswap16 (skc_dport sk),
       ce_transport := 6, ce_direction := 1, ce_is_ipv6 := 1, ce_pad0 := 0,
       ce_ifname := (ce_ifname ev)[0 := 0]\<rparr>)
   }"

definition fill_socket_header :: "task \<Rightarrow> ezcap_event_header" where
  "fill_socket_header t = \<lparr>eh_version = EZCAP_EVENT_VERSION, eh_tag = EZCAP_EVENT_TAG_SOCKET_STATE,
     eh_pad0 = 0, eh_pid = ucast (drop_bit 32 (tk_pid_tgid t)), eh_uid = ucast (tk_uid_gid t),
     eh_timestamp_ns = tk_ktime_ns t\<rparr>"

definition ezcap_tcp_destroy_sock ::
  "task \<Rightarrow> sock \<Rightarrow> ezcap_socket_state_event option \<Rightarrow> ezcap_socket_state_event option" where
  "ezcap_tcp_destroy_sock t sk reserved = do {
     ev \<leftarrow> reserved;
     let hdr = fill_socket_header t;
     let issued_at = sk_txhash8 sk;
     Some (ev\<lparr>se_hdr := hdr,
       se_local_addr4 := skc_rcv_saddr sk, se_remote_addr4 := skc_daddr sk,
       se_local_addr6 := skc_v6_rcv_saddr sk, se_remote_addr6 := skc_v6_daddr sk,
       se_local_port := skc_num sk, se_remote_port := bswap16 (skc_dport sk),
       se_bytes_tx := 0, se_bytes_rx := 0,
       se_duration_ns := (if issued_at < eh_timestamp_ns hdr then eh_timestamp_ns hdr - issued_at else 0),
       se_transport := 6, se_direction := 1,
       se_is_ipv6 := (if skc_rcv_saddr sk = 0 then 1 else 0), se_new_state := 7,
       se_ifname := (se_ifname ev)[0 := 0]\<rparr>)
   }"

text \<open>
  The DNS program.  Every access to the packet and to the name of the record is checked: an
  access outside is \<^const>\<open>None\<close>.  The lengths \<^verbatim>\<open>copy_qname\<close> computes with are at most 512, so
  its 32-bit arithmetic is that of the naturals.
\<close>

definition write_u8 :: "bytes \<Rightarrow> nat \<Rightarrow> u8 \<Rightarrow> bytes option" where
  "write_u8 s i b = (if i < length s then Some (s[i := b]) else None)"

text \<open>
  The inner loop over a label; \<open>k\<close> is the number of bytes left.  The result is the buffer
  and the position reached in it, or -1.
\<close>

fun copy_label :: "bytes \<Rightarrow> nat \<Rightarrow> nat \<Rightarrow> nat \<Rightarrow> bytes \<Rightarrow> nat \<Rightarrow> (bytes \<times> int) option" where
  "copy_label payload payload_len pos 0 out n = Some (out, int n)"
| "copy_label payload payload_len pos (Suc k) out n =
     (if EZCAP_DNS_NAME_MAX - 1 \<le> n then Some (out, -1)
      else if payload_len \<le> pos then Some (out, -1)
      else do {
        b \<leftarrow> read_u8 payload pos;
        out \<leftarrow> write_u8 out n b;
        copy_label payload payload_len (pos + 1) k out (n + 1)
      })"

definition copy_dot :: "bytes \<Rightarrow> nat \<Rightarrow> (bytes \<times> nat) option" where
  "copy_dot out n = (if 0 < n then do { out \<leftarrow> write_u8 out n 46; Some (out, n + 1) } else Some (out, n))"

definition copy_end :: "bytes \<Rightarrow> nat \<Rightarrow> (bytes \<times> int) option" where
  "copy_end out n = do { out \<leftarrow> write_u8 out n 0; Some (out, int n) }"

function copy_qname_loop :: "bytes \<Rightarrow> nat \<Rightarrow> nat \<Rightarrow> nat \<Rightarrow> nat \<Rightarrow> bytes \<Rightarrow> (bytes \<times> int) option" where
  "copy_qname_loop payload payload_len i n hops out =
     (if \<not> (i < payload_len \<and> hops < 128) then copy_end out n
      else do {
        label_len \<leftarrow> read_u8 payload i;
        if label_len = 0 then copy_end out n
        else if label_len AND 0xC0 \<noteq> 0 \<or> 63 < label_len then Some (out, -1)
        else if payload_len < i + 1 + unat label_len then Some (out, -1)
        else if 0 < n \<and> EZCAP_DNS_NAME_MAX - 1 \<le> n then Some (out, -1)
        else do {
          (out, n) \<leftarrow> copy_dot out n;
          (out, r) \<leftarrow> copy_label payload payload_len (i + 1) (unat label_len) out n;
          if r < 0 then Some (out, -1)
          else copy_qname_loop payload payload_len (i + 1 + unat label_len) (nat r) (hops + 1) out
        }
      })"
  by pat_completeness auto
termination
  by (relation "measure (\<lambda>(payload, payload_len, i, n, hops, out). 128 - hops)") auto

declare copy_qname_loop.simps [simp del]

definition copy_qname :: "bytes \<Rightarrow> nat \<Rightarrow> bytes \<Rightarrow> (bytes \<times> int) option" where
  "copy_qname payload payload_len out = copy_qname_loop payload payload_len 0 0 0 out"

record sk_buff =
  skb_protocol :: u16
  skb_len :: u32
  skb_data :: bytes

definition fill_dns_header :: "task \<Rightarrow> ezcap_event_header" where
  "fill_dns_header t = \<lparr>eh_version = EZCAP_EVENT_VERSION, eh_tag = EZCAP_EVENT_TAG_DNS, eh_pad0 = 0,
     eh_pid = ucast (drop_bit 32 (tk_pid_tgid t)), eh_uid = ucast (tk_uid_gid t),
     eh_timestamp_ns = tk_ktime_ns t\<rparr>"

text \<open>
  The tests before a record is reserved; the result is the length of the IP header, or
  nothing when the packet is ignored.  Sizes: IP header 20, UDP header 8, DNS header 12.
\<close>

definition dns_trace_udp :: "bytes \<Rightarrow> nat \<Rightarrow> (nat option) option" where
  "dns_trace_udp data ihl = do {
     sport \<leftarrow> read_be16 data ihl;
     dport \<leftarrow> read_be16 data (ihl + 2);
     if sport \<noteq> 53 \<and> dport \<noteq> 53 then Some None
     else if length data < ihl + 8 + 12 then Some None
     else do {
       qdcount \<leftarrow> read_be16 data (ihl + 8 + 4);
       Some (if qdcount < 1 then None else Some ihl)
     }
   }"

definition dns_trace_header :: "sk_buff \<Rightarrow> (nat option) option" where
  "dns_trace_header skb =
     (if skb_protocol skb \<noteq> bswap16 0x0800 \<and> skb_protocol skb \<noteq> bswap16 0x86DD then Some None
      else let data = skb_data skb in
      if length data < 20 then Some None
      else do {
        protocol \<leftarrow> read_u8 data 9;
        if protocol \<noteq> 17 then Some None
        else do {
          b \<leftarrow> read_u8 data 0;
          let ihl = unat (b AND 0x0F) * 4;
          if ihl < 20 \<or> length data < ihl + 8 then Some None
          else dns_trace_udp data ihl
        }
      })"

definition dns_payload_len :: "sk_buff \<Rightarrow> u16 \<Rightarrow> nat \<Rightarrow> nat" where
  "dns_payload_len skb udp_len udp_off =
     (let payload_len = (ucast udp_len :: u32);
          payload_len = (if payload_len < 8 + 12 then skb_len skb - of_nat udp_off
                         else payload_len - 8 - 12)
      in if 512 < payload_len then 512 else unat payload_len)"

definition fill_dns_event :: "task \<Rightarrow> ezcap_dns_event \<Rightarrow> u32 \<Rightarrow> u16 \<Rightarrow> bytes \<Rightarrow> int \<Rightarrow> ezcap_dns_event" where
  "fill_dns_event t ev saddr sport name r = ev\<lparr>de_hdr := fill_dns_header t, de_local_addr4 := saddr,
     de_local_port := sport, de_pad0 := 0, de_is_ipv6 := 0, de_transport := 17,
     de_ifname := (de_ifname ev)[0 := 0], de_query_name := name,
     de_query_len := (if 0 \<le> r then of_int (r + 1) else 0)\<rparr>"

definition ezcap_dns_trace :: "task \<Rightarrow> sk_buff \<Rightarrow> ezcap_dns_event option \<Rightarrow> (ezcap_dns_event option) option" where
  "ezcap_dns_trace t skb reserved = do {
     header \<leftarrow> dns_trace_header skb;
     case (header, reserved) of
       (Some ihl, Some ev) \<Rightarrow> do {
         saddr \<leftarrow> load (skb_data skb) 12 4;
         sport \<leftarrow> read_be16 (skb_data skb) ihl;
         udp_len \<leftarrow> read_be16 (skb_data skb) (ihl + 4);
         let udp_off = ihl + 8;
         qname \<leftarrow> subspan (skb_data skb) (udp_off + 12);
         (name, r) \<leftarrow> copy_qname qname (dns_payload_len skb udp_len udp_off) ((de_query_name ev)[0 := 0]);
         Some (Some (fill_dns_event t ev saddr sport name r))
       }
     | _ \<Rightarrow> Some None
   }"

section \<open>Copying a name is safe\<close>

lemma write_u8_ok [simp]: "i < length s \<Longrightarrow> write_u8 s i b = Some (s[i := b])"
  by (simp add: write_u8_def)

text \<open>What a copy leaves: a buffer of the same size, and -1 or a position in it.\<close>

definition copied :: "bytes \<times> int \<Rightarrow> bool" where
  "copied r \<longleftrightarrow> length (fst r) = EZCAP_DNS_NAME_MAX \<and> (snd r = -1 \<or> (0 \<le> snd r \<and> snd r \<le> 252))"

lemma copy_label_safe:
  "payload_len \<le> length payload \<Longrightarrow> length out = EZCAP_DNS_NAME_MAX \<Longrightarrow> n \<le> 252 \<Longrightarrow>
     \<exists>r. copy_label payload payload_len pos k out n = Some r \<and> copied r"
  by (induction payload payload_len pos k out n rule: copy_label.induct)
    (auto simp: copied_def EZCAP_DNS_NAME_MAX_def)

lemma copy_end_safe:
  "length out = EZCAP_DNS_NAME_MAX \<Longrightarrow> n \<le> 252 \<Longrightarrow> \<exists>r. copy_end out n = Some r \<and> copied r"
  by (simp add: copy_end_def copied_def EZCAP_DNS_NAME_MAX_def)

lemma copy_dot_safe:
  "length out = EZCAP_DNS_NAME_MAX \<Longrightarrow> \<not> (0 < n \<and> EZCAP_DNS_NAME_MAX - 1 \<le> n) \<Longrightarrow>
     \<exists>out' n'. copy_dot out n = Some (out', n') \<and> length out' = EZCAP_DNS_NAME_MAX \<and> n' \<le> 252"
  by (auto simp: copy_dot_def EZCAP_DNS_NAME_MAX_def)

lemma copy_qname_loop_safe:
  "payload_len \<le> length payload \<Longrightarrow> length out = EZCAP_DNS_NAME_MAX \<Longrightarrow> n \<le> 252 \<Longrightarrow>
     \<exists>r. copy_qname_loop payload payload_len i n hops out = Some r \<and> copied r"
proof (induction payload payload_len i n hops out rule: copy_qname_loop.induct)
  case (1 payload payload_len i n hops out)
  let ?b = "payload ! i"
  show ?case
  proof (cases "i < payload_len \<and> hops < 128")
    case False
    then show ?thesis using copy_end_safe "1.prems" by (simp add: copy_qname_loop.simps [of _ _ i])
  next
    case True
    then have b: "read_u8 payload i = Some ?b" using "1.prems"(1) by simp
    show ?thesis
    proof (cases "?b = 0 \<or> ?b AND 0xC0 \<noteq> 0 \<or> 63 < ?b \<or> payload_len < i + 1 + unat ?b
        \<or> (0 < n \<and> EZCAP_DNS_NAME_MAX - 1 \<le> n)")
      case stop: True
      then show ?thesis
        using True b copy_end_safe "1.prems" by (auto simp: copy_qname_loop.simps [of _ _ i] copied_def)
    next
      case go: False
      then obtain out' n' where dot: "copy_dot out n = Some (out', n')" "length out' = EZCAP_DNS_NAME_MAX" "n' \<le> 252"
        using copy_dot_safe [OF "1.prems"(2)] by blast
      obtain out'' r where lab: "copy_label payload payload_len (i + 1) (unat ?b) out' n' = Some (out'', r)" "copied (out'', r)"
        using copy_label_safe [OF "1.prems"(1) dot(2,3)] by fastforce
      show ?thesis
      proof (cases "r < 0")
        case True
        with \<open>i < payload_len \<and> hops < 128\<close> b go dot lab show ?thesis
          by (auto simp: copy_qname_loop.simps [of _ _ i] copied_def)
      next
        case False
        have "\<exists>x. copy_qname_loop payload payload_len (i + 1 + unat ?b) (nat r) (hops + 1) out'' = Some x \<and> copied x"
          using "1.IH" [of ?b "(out', n')" out' n' "(out'', r)" out'' r] True b go dot lab False "1.prems"(1)
          by (auto simp: copied_def)
        with True b go dot lab False show ?thesis
          by (auto simp: copy_qname_loop.simps [of _ _ i])
      qed
    qed
  qed
qed

section \<open>Copying a name is faithful\<close>

definition str_bytes :: "string \<Rightarrow> bytes" where
  "str_bytes s = map (\<lambda>c. of_nat (code_of c)) s"

lemma length_str_bytes [simp]: "length (str_bytes s) = length s"
  by (simp add: str_bytes_def)

lemma str_bytes_append [simp]: "str_bytes (s @ t) = str_bytes s @ str_bytes t"
  by (simp add: str_bytes_def)

lemma encode_label_bytes: "encode_label l = of_nat (length l) # str_bytes l"
  by (simp add: encode_label_def str_bytes_def)

lemma copy_label_copies:
  "length pre + length bs \<le> payload_len \<Longrightarrow> length w + length bs \<le> 252 \<Longrightarrow> length w + length bs \<le> length (w @ tll) \<Longrightarrow>
     copy_label (pre @ bs @ rest) payload_len (length pre) (length bs) (w @ tll) (length w) =
       Some (w @ bs @ drop (length bs) tll, int (length w + length bs))"
proof (induction bs arbitrary: pre w tll)
  case (Cons b bs)
  then obtain t0 tll' where tll: "tll = t0 # tll'" by (cases tll) auto
  show ?case
    using Cons.prems Cons.IH [of "pre @ [b]" "w @ [b]" tll']
    by (simp add: tll nth_append list_update_append EZCAP_DNS_NAME_MAX_def)
qed simp

lemma copy_dot_label:
  assumes "l \<noteq> []" "length (add_label s l) \<le> 252" "length (str_bytes s @ tll) = EZCAP_DNS_NAME_MAX"
  shows "\<exists>tll'. copy_dot (str_bytes s @ tll) (length s) =
      Some (str_bytes (if s \<noteq> [] then s @ ''.'' else s) @ tll', length (if s \<noteq> [] then s @ ''.'' else s))
    \<and> length (str_bytes (if s \<noteq> [] then s @ ''.'' else s) @ tll') = EZCAP_DNS_NAME_MAX"
proof (cases "s = []")
  case False
  then have "length s < 252" using assms(1,2) by (cases l) (auto simp: add_label_def)
  then obtain t0 tll' where tll: "tll = t0 # tll'"
    using assms(3) by (cases tll) (auto simp: EZCAP_DNS_NAME_MAX_def)
  show ?thesis using False assms(3)
    by (intro exI [of _ tll']) (simp add: tll copy_dot_def list_update_append str_bytes_def)
qed (use assms(3) in \<open>auto simp: copy_dot_def str_bytes_def\<close>)

lemma copy_qname_loop_label:
  assumes l: "label_ok l" and h: "hops < 128" and len: "length (add_label s l) \<le> 252"
    and out: "length (str_bytes s @ tll) = EZCAP_DNS_NAME_MAX"
    and pl: "length (pre @ encode_label l) \<le> payload_len"
  shows "\<exists>tll'. copy_qname_loop (pre @ encode_label l @ rest) payload_len (length pre) (length s) hops (str_bytes s @ tll) =
      copy_qname_loop (pre @ encode_label l @ rest) payload_len (length (pre @ encode_label l)) (length (add_label s l))
        (hops + 1) (str_bytes (add_label s l) @ tll')
    \<and> length (str_bytes (add_label s l) @ tll') = EZCAP_DNS_NAME_MAX"
proof -
  let ?p = "pre @ encode_label l @ rest" and ?s = "if s \<noteq> [] then s @ ''.'' else s"
  have l': "length l < 64" "l \<noteq> []" using l by (auto simp: label_ok_def)
  have b: "read_u8 ?p (length pre) = Some (of_nat (length l))"
    by (simp add: encode_label_bytes nth_append)
  have nz: "(of_nat (length l) :: u8) \<noteq> 0"
    using length_byte [OF l'(1)] l'(2) by (metis length_0_conv unat_0)
  obtain tll1 where dot: "copy_dot (str_bytes s @ tll) (length s) = Some (str_bytes ?s @ tll1, length ?s)"
      "length (str_bytes ?s @ tll1) = EZCAP_DNS_NAME_MAX"
    using copy_dot_label [OF l'(2) len out] by blast
  have al: "add_label s l = ?s @ l" by (simp add: add_label_def)
  have "copy_label ((pre @ [of_nat (length l)]) @ str_bytes l @ rest) payload_len (length (pre @ [of_nat (length l)]))
      (length (str_bytes l)) (str_bytes ?s @ tll1) (length (str_bytes ?s)) =
      Some (str_bytes ?s @ str_bytes l @ drop (length (str_bytes l)) tll1, int (length (str_bytes ?s) + length (str_bytes l)))"
    using pl len dot(2) by (intro copy_label_copies) (auto simp: al encode_label_bytes EZCAP_DNS_NAME_MAX_def)
  then have lab: "copy_label ?p payload_len (length pre + 1) (length l) (str_bytes ?s @ tll1) (length ?s) =
      Some (str_bytes (add_label s l) @ drop (length l) tll1, int (length (add_label s l)))"
    by (simp only: encode_label_bytes al str_bytes_append length_append append_assoc append_Cons append_Nil
        length_str_bytes list.size add_0 add_0_right One_nat_def)
  have stop: "\<not> (0 < length s \<and> EZCAP_DNS_NAME_MAX - 1 \<le> length s)"
    using len l'(2) by (cases l) (auto simp: add_label_def EZCAP_DNS_NAME_MAX_def)
  have "copy_qname_loop ?p payload_len (length pre) (length s) hops (str_bytes s @ tll) =
      copy_qname_loop ?p payload_len (length pre + 1 + length l) (length (add_label s l)) (hops + 1)
        (str_bytes (add_label s l) @ drop (length l) tll1)"
    using b nz length_byte [OF l'(1)] stop h pl dot(1) lab
    by (auto simp: copy_qname_loop.simps [of _ _ "length pre"] encode_label_bytes)
  moreover have "length (str_bytes (add_label s l) @ drop (length l) tll1) = EZCAP_DNS_NAME_MAX"
    using dot(2) len by (auto simp: al EZCAP_DNS_NAME_MAX_def)
  ultimately show ?thesis by (auto simp: encode_label_bytes)
qed

lemma copy_qname_loop_encode:
  "list_all label_ok ls \<Longrightarrow> hops + length ls < 128 \<Longrightarrow> length (foldl add_label s ls) \<le> 252 \<Longrightarrow>
   length (str_bytes s @ tll) = EZCAP_DNS_NAME_MAX \<Longrightarrow> length (pre @ concat (map encode_label ls)) \<le> payload_len \<Longrightarrow>
     \<exists>tll'. copy_qname_loop (pre @ concat (map encode_label ls) @ 0 # rest) payload_len (length pre) (length s) hops (str_bytes s @ tll)
       = Some (str_bytes (foldl add_label s ls) @ 0 # tll', int (length (foldl add_label s ls)))
       \<and> length (str_bytes (foldl add_label s ls) @ 0 # tll') = EZCAP_DNS_NAME_MAX"
proof (induction ls arbitrary: pre hops s tll)
  case Nil
  then obtain t0 tll' where "tll = t0 # tll'" by (cases tll) (auto simp: EZCAP_DNS_NAME_MAX_def)
  with Nil show ?case
    by (auto simp: copy_qname_loop.simps [of _ _ "length pre"] copy_end_def list_update_append
        EZCAP_DNS_NAME_MAX_def nth_append read_u8_def)
next
  case (Cons l ls)
  have len: "length (add_label s l) \<le> 252"
    using Cons.prems(3) length_foldl_add_label [of "add_label s l" ls] by simp
  obtain tll' where step: "copy_qname_loop (pre @ encode_label l @ (concat (map encode_label ls) @ 0 # rest)) payload_len
        (length pre) (length s) hops (str_bytes s @ tll) =
      copy_qname_loop (pre @ encode_label l @ (concat (map encode_label ls) @ 0 # rest)) payload_len
        (length (pre @ encode_label l)) (length (add_label s l)) (hops + 1) (str_bytes (add_label s l) @ tll')"
      "length (str_bytes (add_label s l) @ tll') = EZCAP_DNS_NAME_MAX"
    using copy_qname_loop_label [of l hops s tll pre payload_len "concat (map encode_label ls) @ 0 # rest"] Cons.prems len
    by auto
  then show ?case
    using Cons.IH [of "hops + 1" "add_label s l" tll' "pre @ encode_label l"] Cons.prems by simp
qed

lemma copy_qname_encode:
  assumes "list_all label_ok ls" "length (join_dots ls) \<le> 252" "length out = EZCAP_DNS_NAME_MAX"
    "length (concat (map encode_label ls)) \<le> payload_len"
  shows "\<exists>tll. copy_qname (concat (map encode_label ls) @ 0 # rest) payload_len out =
    Some (str_bytes (join_dots ls) @ 0 # tll, int (length (join_dots ls)))
    \<and> length (str_bytes (join_dots ls) @ 0 # tll) = EZCAP_DNS_NAME_MAX"
proof -
  have "length ls < 128" using labels_count [OF assms(1)] assms(2) by simp
  then show ?thesis
    using copy_qname_loop_encode [OF assms(1), of 0 "[]" out "[]" payload_len rest] assms
    by (simp add: copy_qname_def join_dots_foldl str_bytes_def)
qed

section \<open>The DNS program\<close>

lemma dns_trace_udp_ok:
  assumes "20 \<le> ihl" "ihl + 8 \<le> length d"
  shows "\<exists>h. dns_trace_udp d ihl = Some h \<and> (\<forall>ihl. h = Some ihl \<longrightarrow> 20 \<le> ihl \<and> ihl + 20 \<le> length d)"
proof -
  obtain sp dp where "read_be16 d ihl = Some sp" "read_be16 d (ihl + 2) = Some dp"
    using assms read_be16_ok [of ihl d] read_be16_ok [of "ihl + 2" d] by auto
  moreover have "ihl + 20 \<le> length d \<Longrightarrow> \<exists>q. read_be16 d (ihl + 8 + 4) = Some q"
    using read_be16_ok [of "ihl + 8 + 4" d] by simp
  ultimately show ?thesis using assms(1) by (auto simp: dns_trace_udp_def)
qed

lemma dns_trace_header_ok:
  "\<exists>h. dns_trace_header skb = Some h \<and> (\<forall>ihl. h = Some ihl \<longrightarrow> 20 \<le> ihl \<and> ihl + 20 \<le> length (skb_data skb))"
proof (cases "20 \<le> length (skb_data skb)")
  case True
  then have "read_u8 (skb_data skb) 0 = Some (skb_data skb ! 0)" by (intro read_u8_ok) linarith
  then show ?thesis
    using True dns_trace_udp_ok [of "unat (skb_data skb ! 0 AND 15) * 4" "skb_data skb"]
    by (auto simp: dns_trace_header_def Let_def)
qed (simp add: dns_trace_header_def)

text \<open>The UDP header does not announce more bytes than the packet has.\<close>

definition udp_length_honest :: "sk_buff \<Rightarrow> bool" where
  "udp_length_honest skb = (case dns_trace_header skb of
     Some (Some ihl) \<Rightarrow> (case read_be16 (skb_data skb) (ihl + 4) of
         Some l \<Rightarrow> dns_payload_len skb l (ihl + 8) \<le> length (skb_data skb) - (ihl + 20)
       | None \<Rightarrow> True)
   | _ \<Rightarrow> True)"

text \<open>The part of the program after the record is reserved.\<close>

lemma dns_trace_reserved:
  assumes "dns_trace_header skb = Some (Some ihl)"
  obtains saddr sport l where
    "read_be16 (skb_data skb) (ihl + 4) = Some l"
    "\<And>t ev. ezcap_dns_trace t skb (Some ev) = do {
         (name, r) \<leftarrow> copy_qname (drop (ihl + 20) (skb_data skb)) (dns_payload_len skb l (ihl + 8)) ((de_query_name ev)[0 := 0]);
         Some (Some (fill_dns_event t ev saddr sport name r))
       }"
proof -
  have len: "20 \<le> ihl" "ihl + 20 \<le> length (skb_data skb)" using dns_trace_header_ok [of skb] assms by auto
  then obtain sport l where "read_be16 (skb_data skb) ihl = Some sport" "read_be16 (skb_data skb) (ihl + 4) = Some l"
    using read_be16_ok [of ihl "skb_data skb"] read_be16_ok [of "ihl + 4" "skb_data skb"] by auto
  moreover have "subspan (skb_data skb) (ihl + 8 + 12) = Some (drop (ihl + 20) (skb_data skb))"
    using len by (simp add: subspan_def add.commute)
  moreover obtain saddr where "load (skb_data skb) 12 4 = Some (saddr :: u32)"
    using len by simp
  ultimately show thesis using that [of l saddr sport] assms by (simp add: ezcap_dns_trace_def Let_def)
qed

text \<open>
  C15: when the UDP header of a packet does not announce more bytes than the packet has, the DNS
  program runs to its end without an access outside the packet or outside the name buffer
  of the record, and a submitted record has a name length of at most 253 inside its array.
\<close>

theorem dns_trace_safe:
  assumes "udp_length_honest skb" "\<And>ev. reserved = Some ev \<Longrightarrow> dns_wf ev"
  shows "\<exists>r. ezcap_dns_trace t skb reserved = Some r \<and> (\<forall>ev. r = Some ev \<longrightarrow> dns_wf ev \<and> unat (de_query_len ev) \<le> 253)"
proof (cases "\<exists>ihl ev. dns_trace_header skb = Some (Some ihl) \<and> reserved = Some ev")
  case False
  obtain h where "dns_trace_header skb = Some h" using dns_trace_header_ok by blast
  with False show ?thesis
    by (intro exI [of _ None]) (auto simp: ezcap_dns_trace_def split: option.splits)
next
  case True
  then obtain ihl ev where h: "dns_trace_header skb = Some (Some ihl)" and ev: "reserved = Some ev" by blast
  have wf: "dns_wf ev" using assms(2) ev by simp
  obtain saddr sport l where l: "read_be16 (skb_data skb) (ihl + 4) = Some l" and
    eq: "\<And>t ev. ezcap_dns_trace t skb (Some ev) = do {
         (name, r) \<leftarrow> copy_qname (drop (ihl + 20) (skb_data skb)) (dns_payload_len skb l (ihl + 8)) ((de_query_name ev)[0 := 0]);
         Some (Some (fill_dns_event t ev saddr sport name r))
       }"
    by (rule dns_trace_reserved [OF h]) (rule that)
  have "dns_payload_len skb l (ihl + 8) \<le> length (drop (ihl + 20) (skb_data skb))"
    using assms(1) h l by (simp add: udp_length_honest_def)
  then obtain name r where c: "copy_qname (drop (ihl + 20) (skb_data skb)) (dns_payload_len skb l (ihl + 8))
      ((de_query_name ev)[0 := 0]) = Some (name, r)" "copied (name, r)"
    using copy_qname_loop_safe [of "dns_payload_len skb l (ihl + 8)" "drop (ihl + 20) (skb_data skb)"
        "(de_query_name ev)[0 := 0]" 0 0 0] wf
    by (auto simp: dns_wf_def copy_qname_def)
  have "unat (of_int (r + 1) :: u16) \<le> 253" if "0 \<le> r" "r \<le> 252"
  proof -
    have "(of_int (r + 1) :: u16) = of_nat (nat (r + 1))" using that by simp
    moreover have "nat (r + 1) \<le> 253" using that by simp
    ultimately show ?thesis by (simp only: unat_of_nat) simp
  qed
  then show ?thesis using c wf by (auto simp: ev eq copied_def dns_wf_def fill_dns_event_def)
qed

text \<open>A query for \<^verbatim>\<open>a\<close>: IP, UDP and DNS headers, then the question.\<close>

definition sample_dns :: "u16 \<Rightarrow> sk_buff" where
  "sample_dns udp_len = \<lparr>skb_protocol = 8, skb_len = 47,
     skb_data = [0x45, 0, 0, 47, 0, 0, 0, 0, 64, 17, 0, 0, 10, 0, 0, 1, 10, 0, 0, 2,
                 0xC0, 0, 0, 53, ucast (drop_bit 8 udp_len), ucast udp_len, 0, 0,
                 0, 1, 1, 0, 0, 1, 0, 0, 0, 0, 0, 0, 1, 97, 0]\<rparr>"

definition empty_dns_event :: ezcap_dns_event where
  "empty_dns_event = \<lparr>de_hdr = \<lparr>eh_version = 0, eh_tag = 0, eh_pad0 = 0, eh_pid = 0, eh_uid = 0, eh_timestamp_ns = 0\<rparr>,
     de_local_addr4 = 0, de_local_addr6 = replicate 16 0, de_local_port = 0, de_pad0 = 0, de_is_ipv6 = 0,
     de_transport = 0, de_query_len = 0, de_query_name = replicate 253 0, de_ifname = replicate 16 0\<rparr>"

lemma sample_dns_honest: "udp_length_honest (sample_dns 23)"
  by code_simp

theorem dns_trace_safe_witness:
  "\<exists>r. ezcap_dns_trace \<lparr>tk_pid_tgid = 0, tk_uid_gid = 0, tk_ktime_ns = 0\<rparr> (sample_dns 23) (Some empty_dns_event) = Some r
     \<and> (\<forall>ev. r = Some ev \<longrightarrow> dns_wf ev \<and> unat (de_query_len ev) \<le> 253)"
  by (rule dns_trace_safe [OF sample_dns_honest])
    (auto simp: empty_dns_event_def dns_wf_def EZCAP_DNS_NAME_MAX_def EZCAP_IFNAME_MAX_def)

text \<open>
  The condition is needed: with a UDP header that announces 200 bytes of payload behind a
  question that ends without its terminator the program reads past the end of the packet.
\<close>

lemma dns_trace_overread:
  "ezcap_dns_trace \<lparr>tk_pid_tgid = 0, tk_uid_gid = 0, tk_ktime_ns = 0\<rparr>
     ((sample_dns 220)\<lparr>skb_data := butlast (skb_data (sample_dns 220))\<rparr>) (Some empty_dns_event) = None"
  by code_simp

end
