(* ===== verification/Ez_Normalizer.thy ===== *)
theory Ez_Normalizer
  imports Ez_Packet Ez_Time
begin

text \<open>
  \<^verbatim>\<open>src/capture/event_normalizer.cpp\<close>: the events made from parsed packets, and the event
  identifiers.  What \<^verbatim>\<open>fread\<close> of \<^verbatim>\<open>/dev/urandom\<close> delivers is an argument, \<^const>\<open>None\<close> when
  the device does not open; the static counter of the generator is passed and returned.
  \<^verbatim>\<open>src/common/process_info.cpp\<close>: the name of a process, where opening and reading a file is the
  argument \<open>proc_read\<close>.

  The lemmas give the shape of an identifier, when two identifiers drawn without randomness are
  equal, and that a name read from \<^verbatim>\<open>/proc\<close> is bounded and stripped.
\<close>

section \<open>Event identifiers\<close>

definition uuid_text :: "bytes \<Rightarrow> string" where
  "uuid_text bytes = (let hex = (\<lambda>i n. concat (map hex_byte (take n (drop i bytes)))) in
     hex 0 4 @ ''-'' @ hex 4 2 @ ''-'' @ hex 6 2 @ ''-'' @ hex 8 2 @ ''-'' @ hex 10 6)"

type_synonym urandom = "bytes option"

definition uuid_bytes :: "urandom \<Rightarrow> u64 \<Rightarrow> bytes" where
  "uuid_bytes ur seq =
     (let bytes = (case ur of Some got \<Rightarrow> if length got \<noteq> 16 then replicate 16 0 else got
                             | None \<Rightarrow> replicate 16 0);
          bytes = take 8 bytes @ le_bytes 8 seq;
          bytes = bytes[6 := (bytes ! 6 AND 0x0F) OR 0x40]
      in bytes[8 := (bytes ! 8 AND 0x3F) OR 0x80])"

definition random_uuid :: "urandom \<Rightarrow> u64 \<Rightarrow> string \<times> u64" where
  "random_uuid ur counter = (uuid_text (uuid_bytes ur counter), counter + 1)"

section \<open>Events from packets\<close>

definition packet_network :: "packet_metadata \<Rightarrow> string \<Rightarrow> network_info" where
  "packet_network meta iface = network_init\<lparr>
     net_transport := pm_transport meta, net_direction := pm_direction meta,
     net_local_address := pm_local_address meta, net_local_port := pm_source_port meta,
     net_remote_address := pm_remote_address meta, net_remote_port := pm_destination_port meta,
     net_interface := iface, net_backend := Pcap\<rparr>"

definition from_packet_metadata ::
  "urandom \<Rightarrow> u64 \<Rightarrow> packet_metadata \<Rightarrow> time_point \<Rightarrow> string \<Rightarrow> event \<times> u64" where
  "from_packet_metadata ur counter meta timestamp iface =
     (let (id, counter) = random_uuid ur counter in
      (event_init\<lparr>ev_event_id := id, ev_type := Connection, ev_source := Pcap,
         ev_timestamp := timestamp, ev_confidence := rnd (1/10),
         ev_network := Some (packet_network meta iface),
         ev_privacy := privacy_init\<lparr>pv_metadata_only := True\<rparr>\<rparr>, counter))"

definition dns_from_packet_metadata ::
  "urandom \<Rightarrow> u64 \<Rightarrow> packet_metadata \<Rightarrow> time_point \<Rightarrow> string \<Rightarrow> event \<times> u64" where
  "dns_from_packet_metadata ur counter meta timestamp iface =
     (let (id, counter) = random_uuid ur counter;
          network = (packet_network meta iface)\<lparr>net_dns_query_name := pm_dns_query_name meta\<rparr>;
          network = (if pm_has_dns_response_code meta
                     then network\<lparr>net_dns_response_code := Some (pm_dns_response_code meta)\<rparr> else network)
      in (event_init\<lparr>ev_event_id := id, ev_type := Dns, ev_source := Pcap,
            ev_timestamp := timestamp, ev_confidence := rnd (2/10),
            ev_network := Some network,
            ev_privacy := privacy_init\<lparr>pv_metadata_only := True\<rparr>\<rparr>, counter))"

definition status_event :: "urandom \<Rightarrow> u64 \<Rightarrow> time_point \<Rightarrow> backend_status list \<Rightarrow> event \<times> u64" where
  "status_event ur counter now backends =
     (let (id, counter) = random_uuid ur counter in
      (event_init\<lparr>ev_event_id := id, ev_type := Status, ev_source := Pcap, ev_timestamp := now,
         ev_confidence := 1, ev_backend_statuses := backends,
         ev_privacy := privacy_init\<lparr>pv_metadata_only := True\<rparr>\<rparr>, counter))"

definition error_event :: "urandom \<Rightarrow> u64 \<Rightarrow> time_point \<Rightarrow> string \<Rightarrow> string \<Rightarrow> event \<times> u64" where
  "error_event ur counter now code message =
     (let (id, counter) = random_uuid ur counter in
      (event_init\<lparr>ev_event_id := id, ev_type := Error, ev_source := Pcap, ev_timestamp := now,
         ev_confidence := 1, ev_error_code := code, ev_error_message := message,
         ev_privacy := privacy_init\<lparr>pv_metadata_only := True\<rparr>\<rparr>, counter))"

section \<open>Process names\<close>

text \<open>
  \<open>proc_read path n\<close> opens \<open>path\<close> and reads at most \<open>n\<close> bytes; \<^const>\<open>None\<close> is a failure.  The loop
  that drops trailing newlines and NULs counts \<open>n\<close> down.
\<close>

type_synonym proc_read = "string \<Rightarrow> nat \<Rightarrow> string option"

fun comm_length :: "string \<Rightarrow> nat \<Rightarrow> nat" where
  "comm_length buf 0 = 0"
| "comm_length buf (Suc n) =
     (if buf ! n = CHR 0x0A \<or> buf ! n = CHR 0x00 then comm_length buf n else Suc n)"

definition read_process_comm :: "proc_read \<Rightarrow> u32 \<Rightarrow> string" where
  "read_process_comm proc_read pid =
     (if pid = 0 then []
      else case proc_read (''/proc/'' @ dec (unat pid) @ ''/comm'') 63 of
             None \<Rightarrow> []
           | Some buf \<Rightarrow> if buf = [] then [] else take (comm_length buf (length buf)) buf)"

definition lookup_process_name :: "proc_read \<Rightarrow> process_info \<Rightarrow> process_info" where
  "lookup_process_name proc_read info =
     (let name = read_process_comm proc_read (pi_pid info)
      in info\<lparr>pi_name := if 64 < length name then take 64 name else name\<rparr>)"

section \<open>Shape of an identifier\<close>

lemma length_uuid_bytes [simp]: "length (uuid_bytes ur seq) = 16"
  by (simp add: uuid_bytes_def Let_def split: option.splits)

lemma hex_bytes_inj: "concat (map hex_byte a) = concat (map hex_byte b) \<longleftrightarrow> a = b"
proof (induction a arbitrary: b)
  case Nil
  then show ?case by (cases b) (simp_all add: hex_byte_def)
next
  case (Cons x a)
  then show ?case
    by (cases b) (simp_all add: hex_byte_inj append_eq_append_conv, simp add: hex_byte_def)
qed

lemma uuid_text_inj:
  assumes "length a = 16" "length b = 16" shows "uuid_text a = uuid_text b \<longleftrightarrow> a = b"
proof
  have split: "xs = take 4 xs @ take 2 (drop 4 xs) @ take 2 (drop 6 xs) @ take 2 (drop 8 xs) @ take 6 (drop 10 xs)"
    if "length xs = 16" for xs :: bytes
    using that append_take_drop_id [of 4 xs] append_take_drop_id [of 2 "drop 4 xs"]
      append_take_drop_id [of 2 "drop 6 xs"] append_take_drop_id [of 2 "drop 8 xs"] by simp
  assume "uuid_text a = uuid_text b"
  then have "take 4 a = take 4 b \<and> take 2 (drop 4 a) = take 2 (drop 4 b) \<and> take 2 (drop 6 a) = take 2 (drop 6 b)
      \<and> take 2 (drop 8 a) = take 2 (drop 8 b) \<and> take 6 (drop 10 a) = take 6 (drop 10 b)"
    by (simp add: uuid_text_def assms length_hex_bytes append_eq_append_conv hex_bytes_inj)
  then show "a = b" using split [OF assms(1)] split [OF assms(2)] by metis
qed simp

text \<open>The counter fills the last eight bytes, and the variant bits overwrite two of its bits.\<close>

lemma uuid_bytes_eq_iff:
  "uuid_bytes ur n = uuid_bytes ur m \<longleftrightarrow>
     ucast n AND 0x3F = (ucast m AND 0x3F :: u8) \<and> drop_bit 8 n = drop_bit 8 m"
proof -
  define r where "r = (case ur of Some got \<Rightarrow> if length got \<noteq> 16 then replicate 16 0 else got
                             | None \<Rightarrow> replicate 16 (0 :: u8))"
  have [simp]: "length r = 16" by (simp add: r_def split: option.splits)
  have split: "le_bytes 8 w = ucast w # le_bytes 7 (drop_bit 8 w)" for w :: u64
    using le_bytes_Suc [of 7 w] by simp
  have bytes: "uuid_bytes ur w =
      (take 8 r)[6 := (r ! 6 AND 0x0F) OR 0x40] @ ((ucast w AND 0x3F) OR 0x80) # le_bytes 7 (drop_bit 8 w)" for w
    by (simp add: uuid_bytes_def r_def [symmetric] Let_def list_update_append nth_append split)
  have mask: "(b AND 0x3F) OR 0x80 = (c AND 0x3F) OR 0x80 \<longleftrightarrow> b AND 0x3F = c AND 0x3F" for b c :: u8
  proof
    assume "(b AND 0x3F) OR 0x80 = (c AND 0x3F) OR 0x80"
    then have "((b AND 0x3F) OR 0x80) AND 0x3F = ((c AND 0x3F) OR 0x80) AND 0x3F" by simp
    then show "b AND 0x3F = c AND 0x3F" by (simp only: word_ao_dist) simp
  qed simp
  have "le_bytes 7 (drop_bit 8 n) = le_bytes 7 (drop_bit 8 m) \<longleftrightarrow> drop_bit 8 n = drop_bit 8 m"
    by (auto dest: arg_cong [where f = "le_word :: bytes \<Rightarrow> u64"]
        simp: le_word_le_bytes_take take_bit_drop_bit take_bit_word_eq_self)
  then show ?thesis by (simp add: bytes mask)
qed

lemma variant_mask_bits: "bit (w AND NOT 0xC0) i \<longleftrightarrow> bit w i \<and> i \<noteq> 6 \<and> i \<noteq> 7" for w :: u64
proof -
  have c: "0xC0 = (push_bit 6 (mask 2) :: u64)" by (simp add: mask_eq_exp_minus_1)
  have "\<not> (6 \<le> i \<and> i - 6 < 2) \<longleftrightarrow> i \<noteq> 6 \<and> i \<noteq> 7" by arith
  then show ?thesis
    by (simp only: c) (auto simp: bit_and_iff bit_not_iff bit_push_bit_iff bit_mask_iff dest: bit_imp_le_length)
qed

lemma counter_bits:
  "ucast n AND 0x3F = (ucast m AND 0x3F :: u8) \<and> drop_bit 8 n = drop_bit 8 m \<longleftrightarrow>
     n AND NOT 0xC0 = m AND NOT (0xC0 :: u64)"
proof -
  have "0x3F = (mask 6 :: u8)" by (simp add: mask_eq_exp_minus_1)
  have 1: "ucast n AND 0x3F = (ucast m AND 0x3F :: u8) \<longleftrightarrow> (\<forall>i<6. bit n i = bit m i)"
    by (simp only: \<open>0x3F = (mask 6 :: u8)\<close>) (auto simp: bit_eq_iff bit_and_iff bit_mask_iff bit_ucast_iff, (drule_tac x = i in spec, simp)+)
  have 2: "drop_bit 8 n = drop_bit 8 m \<longleftrightarrow> (\<forall>i\<ge>8. bit n i = bit m i)"
  proof
    assume e: "drop_bit 8 n = drop_bit 8 m"
    show "\<forall>i\<ge>8. bit n i = bit m i"
    proof (intro allI impI)
      fix i :: nat assume "8 \<le> i"
      with arg_cong [OF e, of "\<lambda>w. bit w (i - 8)"] show "bit n i = bit m i"
        by (simp add: bit_drop_bit_eq)
    qed
  qed (auto intro: bit_word_eqI simp: bit_drop_bit_eq)
  have 3: "n AND NOT 0xC0 = m AND NOT (0xC0 :: u64) \<longleftrightarrow> (\<forall>i. i \<noteq> 6 \<and> i \<noteq> 7 \<longrightarrow> bit n i = bit m i)"
  proof
    assume e: "n AND NOT 0xC0 = m AND NOT (0xC0 :: u64)"
    show "\<forall>i. i \<noteq> 6 \<and> i \<noteq> 7 \<longrightarrow> bit n i = bit m i"
      using variant_mask_bits [of n] variant_mask_bits [of m] unfolding e by blast
  next
    assume "\<forall>i. i \<noteq> 6 \<and> i \<noteq> 7 \<longrightarrow> bit n i = bit m i"
    then show "n AND NOT 0xC0 = m AND NOT (0xC0 :: u64)"
      by (intro bit_word_eqI) (simp only: variant_mask_bits, blast)
  qed
  show ?thesis unfolding 1 2 3
  proof -
    have "i < 6 \<or> 8 \<le> i \<longleftrightarrow> i \<noteq> 6 \<and> i \<noteq> 7" for i :: nat by arith
    then show "(\<forall>i<6. bit n i = bit m i) \<and> (\<forall>i\<ge>8. bit n i = bit m i) \<longleftrightarrow>
        (\<forall>i. i \<noteq> 6 \<and> i \<noteq> 7 \<longrightarrow> bit n i = bit m i)" by blast
  qed
qed

text \<open>
  Two identifiers drawn with the same (or with no) randomness are equal exactly when their
  counters differ in bits 6 and 7 only.  The counter alone therefore does not keep identifiers apart:
  of every 256 consecutive draws without randomness, each identifier occurs four times.
\<close>

theorem uuid_equal_iff:
  "fst (random_uuid ur n) = fst (random_uuid ur m) \<longleftrightarrow> n AND NOT 0xC0 = m AND NOT 0xC0"
  by (simp add: random_uuid_def uuid_text_inj uuid_bytes_eq_iff counter_bits)

section \<open>Process names are bounded and stripped\<close>

lemma comm_length_le: "comm_length buf n \<le> n"
  by (induction n) auto

lemma comm_length_last:
  "0 < comm_length buf n \<Longrightarrow> buf ! (comm_length buf n - 1) \<noteq> CHR 0x0A \<and> buf ! (comm_length buf n - 1) \<noteq> CHR 0x00"
  by (induction n) auto

lemma lookup_process_name_bounded:
  assumes "\<And>p n s. proc_read p n = Some s \<Longrightarrow> length s \<le> n"
  shows "length (pi_name (lookup_process_name proc_read info)) \<le> 63"
    and "pi_name (lookup_process_name proc_read info) \<noteq> [] \<Longrightarrow>
      last (pi_name (lookup_process_name proc_read info)) \<notin> {CHR 0x0A, CHR 0x00}"
proof -
  let ?c = "read_process_comm proc_read (pi_pid info)"
  have "length ?c \<le> 63 \<and> (?c \<noteq> [] \<longrightarrow> last ?c \<notin> {CHR 0x0A, CHR 0x00})"
  proof (cases "proc_read (''/proc/'' @ dec (unat (pi_pid info)) @ ''/comm'') 63")
    case (Some buf)
    have "length buf \<le> 63" using assms [OF Some] .
    then show ?thesis
      using Some comm_length_le [of buf "length buf"] comm_length_last [of buf "length buf"]
      by (auto simp: read_process_comm_def last_conv_nth min_absorb2)
  qed (simp add: read_process_comm_def)
  then show "length (pi_name (lookup_process_name proc_read info)) \<le> 63"
    "pi_name (lookup_process_name proc_read info) \<noteq> [] \<Longrightarrow>
      last (pi_name (lookup_process_name proc_read info)) \<notin> {CHR 0x0A, CHR 0x00}"
    by (auto simp: lookup_process_name_def Let_def)
qed

end
