(* ===== verification/Ez_Ebpf.thy ===== *)
theory Ez_Ebpf
  imports Ez_Kernel Ez_Normalizer
begin

text \<open>
  \<^verbatim>\<open>src/capture/ebpf/ebpf_events.cpp\<close> and the ring-buffer callback of
  \<^verbatim>\<open>src/capture/ebpf/ebpf_manager.cpp\<close>: how user space turns a record of the kernel programs into an
  event.  \<^verbatim>\<open>inet_ntop\<close> and the contents of \<^verbatim>\<open>/proc/stat\<close> are parameters.  A copy out of a
  character array is checked against the size of the array.

  The theorems follow records from the kernel programs to the events: every byte string in
  the ring buffer is handled without a read outside it, and a question name and an endpoint
  arrive as the kernel saw them.
\<close>

section \<open>Normalization\<close>

definition wall_time :: "u64 \<Rightarrow> time_point \<Rightarrow> time_point" where
  "wall_time timestamp_ns boot_walltime = from_ktime_ns timestamp_ns boot_walltime"

text \<open>The counting loop of \<^verbatim>\<open>bounded_string\<close>; \<open>k\<close> is what is left of the capacity.\<close>

fun bounded_length :: "bytes \<Rightarrow> nat \<Rightarrow> nat \<Rightarrow> nat option" where
  "bounded_length src len 0 = Some len"
| "bounded_length src len (Suc k) = do {
     c \<leftarrow> read_u8 src len;
     if c \<noteq> 0 then bounded_length src (len + 1) k else Some len
   }"

definition bounded_string :: "bytes \<Rightarrow> nat \<Rightarrow> string option" where
  "bounded_string src cap = do {
     len \<leftarrow> bounded_length src 0 cap;
     s \<leftarrow> read_bytes src 0 len;
     Some (map (\<lambda>b. char_of (unat b)) s)
   }"

definition raw_direction :: "u8 \<Rightarrow> direction" where
  "raw_direction d = (if d = 1 then Outbound else if d = 2 then Inbound else UnknownDirection)"

definition raw_process :: "ezcap_event_header \<Rightarrow> process_info" where
  "raw_process hdr = process_init\<lparr>pi_pid := eh_pid hdr, pi_uid := Some (eh_uid hdr)\<rparr>"

definition raw_address :: "ntop \<Rightarrow> ntop \<Rightarrow> u8 \<Rightarrow> u32 \<Rightarrow> bytes \<Rightarrow> string" where
  "raw_address ntop4 ntop6 is_ipv6 addr4 addr6 =
     (if is_ipv6 \<noteq> 0 then format_ip ntop6 addr6 else format_ip ntop4 (le_bytes 4 addr4))"

definition normalize_connect_event :: "ntop \<Rightarrow> ntop \<Rightarrow> ezcap_connect_event \<Rightarrow> time_point \<Rightarrow> event option" where
  "normalize_connect_event ntop4 ntop6 raw boot = do {
     iface \<leftarrow> bounded_string (ce_ifname raw) EZCAP_IFNAME_MAX;
     Some (event_init\<lparr>ev_type := Connection, ev_source := Ebpf,
       ev_timestamp := wall_time (eh_timestamp_ns (ce_hdr raw)) boot, ev_confidence := rnd (95/100),
       ev_process := Some (raw_process (ce_hdr raw)),
       ev_network := Some (network_init\<lparr>
         net_transport := (if ce_transport raw = 6 then Tcp else if ce_transport raw = 17 then Udp
                           else OtherTransport),
         net_direction := raw_direction (ce_direction raw),
         net_local_port := ce_local_port raw, net_remote_port := ce_remote_port raw,
         net_local_address := raw_address ntop4 ntop6 (ce_is_ipv6 raw) (ce_local_addr4 raw) (ce_local_addr6 raw),
         net_remote_address := raw_address ntop4 ntop6 (ce_is_ipv6 raw) (ce_remote_addr4 raw) (ce_remote_addr6 raw),
         net_interface := iface, net_backend := Ebpf\<rparr>),
       ev_privacy := privacy_init\<lparr>pv_metadata_only := True\<rparr>\<rparr>)
   }"

definition normalize_dns_event :: "ntop \<Rightarrow> ntop \<Rightarrow> ezcap_dns_event \<Rightarrow> time_point \<Rightarrow> event option" where
  "normalize_dns_event ntop4 ntop6 raw boot = do {
     name \<leftarrow> (if 0 < de_query_len raw \<and> unat (de_query_len raw) \<le> EZCAP_DNS_NAME_MAX
              then bounded_string (de_query_name raw) (unat (de_query_len raw)) else Some []);
     iface \<leftarrow> bounded_string (de_ifname raw) EZCAP_IFNAME_MAX;
     Some (event_init\<lparr>ev_type := Dns, ev_source := Ebpf,
       ev_timestamp := wall_time (eh_timestamp_ns (de_hdr raw)) boot, ev_confidence := rnd (9/10),
       ev_process := Some (raw_process (de_hdr raw)),
       ev_network := Some (network_init\<lparr>
         net_transport := (if de_transport raw = 17 then Udp else OtherTransport),
         net_local_address := raw_address ntop4 ntop6 (de_is_ipv6 raw) (de_local_addr4 raw) (de_local_addr6 raw),
         net_local_port := de_local_port raw, net_dns_query_name := name,
         net_interface := iface, net_backend := Ebpf\<rparr>),
       ev_privacy := privacy_init\<lparr>pv_metadata_only := True\<rparr>\<rparr>)
   }"

definition normalize_socket_state_event ::
  "ntop \<Rightarrow> ntop \<Rightarrow> ezcap_socket_state_event \<Rightarrow> time_point \<Rightarrow> event option" where
  "normalize_socket_state_event ntop4 ntop6 raw boot = do {
     iface \<leftarrow> bounded_string (se_ifname raw) EZCAP_IFNAME_MAX;
     Some (event_init\<lparr>ev_type := Connection, ev_source := Ebpf,
       ev_timestamp := wall_time (eh_timestamp_ns (se_hdr raw)) boot, ev_confidence := rnd (9/10),
       ev_process := Some (raw_process (se_hdr raw)),
       ev_network := Some (network_init\<lparr>
         net_transport := Tcp, net_direction := raw_direction (se_direction raw),
         net_local_port := se_local_port raw, net_remote_port := se_remote_port raw,
         net_local_address := raw_address ntop4 ntop6 (se_is_ipv6 raw) (se_local_addr4 raw) (se_local_addr6 raw),
         net_remote_address := raw_address ntop4 ntop6 (se_is_ipv6 raw) (se_remote_addr4 raw) (se_remote_addr6 raw),
         net_interface := iface, net_backend := Ebpf\<rparr>),
       ev_privacy := privacy_init\<lparr>pv_metadata_only := True\<rparr>\<rparr>)
   }"

section \<open>The ring-buffer callback\<close>

text \<open>
  \<^verbatim>\<open>atoll\<close> skips white space, reads an optional sign and digits.  The text of \<^verbatim>\<open>/proc/stat\<close>
  ends at its first NUL for \<^verbatim>\<open>strstr\<close>.
\<close>

definition is_space :: "char \<Rightarrow> bool" where
  "is_space c \<longleftrightarrow> code_of c = 32 \<or> (9 \<le> code_of c \<and> code_of c \<le> 13)"

definition atoll :: "string \<Rightarrow> int" where
  "atoll s = (let s = dropWhile is_space s;
                  neg = (s \<noteq> [] \<and> hd s = CHR ''-'');
                  s = (if s \<noteq> [] \<and> (hd s = CHR ''-'' \<or> hd s = CHR ''+'') then List.tl s else s);
                  v = foldl (\<lambda>n c. 10 * n + int (code_of c - 48)) 0 (takeWhile is_digit s)
              in if neg then - v else v)"

definition boot_walltime :: "proc_read \<Rightarrow> time_point" where
  "boot_walltime proc_read =
     (case proc_read ''/proc/stat'' 4095 of
        None \<Rightarrow> 0
      | Some buf \<Rightarrow>
          if buf = [] then 0
          else let buf = takeWhile (\<lambda>c. c \<noteq> CHR 0x00) buf in
            case find_sub ''btime '' buf of
              None \<Rightarrow> 0
            | Some p \<Rightarrow> (let secs = atoll (drop (p + 6) buf) in if 0 < secs then seconds secs else 0))"

definition on_record :: "ntop \<Rightarrow> ntop \<Rightarrow> proc_read \<Rightarrow> bytes \<Rightarrow> (event list) option" where
  "on_record ntop4 ntop6 proc_read data =
     (let size = length data in
      if size < sizeof_header then Some []
      else do {
        hdr \<leftarrow> load_header data;
        if eh_version hdr \<noteq> EZCAP_EVENT_VERSION then Some []
        else let boot = boot_walltime proc_read in
          if eh_tag hdr = EZCAP_EVENT_TAG_CONNECT then
            (if sizeof_connect \<le> size
             then do { raw \<leftarrow> load_connect data; e \<leftarrow> normalize_connect_event ntop4 ntop6 raw boot; Some [e] }
             else Some [])
          else if eh_tag hdr = EZCAP_EVENT_TAG_DNS then
            (if sizeof_dns \<le> size
             then do { raw \<leftarrow> load_dns data; e \<leftarrow> normalize_dns_event ntop4 ntop6 raw boot; Some [e] }
             else Some [])
          else if eh_tag hdr = EZCAP_EVENT_TAG_SOCKET_STATE then
            (if sizeof_socket_state \<le> size
             then do { raw \<leftarrow> load_socket_state data; e \<leftarrow> normalize_socket_state_event ntop4 ntop6 raw boot; Some [e] }
             else Some [])
          else Some []
      })"

section \<open>Every record is handled\<close>

lemma bounded_length_ok:
  "len + k \<le> length src \<Longrightarrow> \<exists>n. bounded_length src len k = Some n \<and> len \<le> n \<and> n \<le> len + k \<and> 0 \<notin> set (take (n - len) (drop len src))"
proof (induction src len k rule: bounded_length.induct)
  case (2 src len k)
  then have r: "read_u8 src len = Some (src ! len)" by simp
  show ?case
  proof (cases "src ! len = 0")
    case False
    with 2 r obtain n where n: "bounded_length src (len + 1) k = Some n" "len + 1 \<le> n" "n \<le> len + 1 + k"
      "0 \<notin> set (take (n - (len + 1)) (drop (len + 1) src))" by auto
    have "drop len src = src ! len # drop (len + 1) src" using 2(2) by (simp add: Cons_nth_drop_Suc)
    moreover have "n - len = Suc (n - (len + 1))" using n(2) by simp
    ultimately show ?thesis using n r False by auto
  qed (use r in auto)
qed auto

lemma bounded_string_ok:
  "cap \<le> length src \<Longrightarrow> \<exists>s. bounded_string src cap = Some s \<and> length s \<le> cap \<and> CHR 0x00 \<notin> set s"
proof -
  assume c: "cap \<le> length src"
  then obtain n where n: "bounded_length src 0 cap = Some n" "n \<le> cap" "0 \<notin> set (take n src)"
    using bounded_length_ok [of 0 cap src] by auto
  have "CHR 0x00 \<notin> set (map (\<lambda>b. char_of (unat b)) (take n src))"
  proof
    assume "CHR 0x00 \<in> set (map (\<lambda>b. char_of (unat b)) (take n src))"
    then obtain b where b: "b \<in> set (take n src)" "CHR 0x00 = char_of (unat b)" by (auto simp del: char_of_eq_iff)
    have "unat b = code_of (CHR 0x00)" unfolding b(2) char_of_u8 ..
    then have "b = 0" by (intro word_unat_eq_iff [THEN iffD2]) simp
    with b(1) n(3) show False by simp
  qed
  with n c show ?thesis by (auto simp: bounded_string_def)
qed

text \<open>What user space promises of an event made from a record.\<close>

definition ebpf_event_ok :: "event \<Rightarrow> bool" where
  "ebpf_event_ok e \<longleftrightarrow> ev_source e = Ebpf \<and> pv_metadata_only (ev_privacy e) \<and> ev_browser e = None \<and>
     (case ev_network e of None \<Rightarrow> False
      | Some n \<Rightarrow> net_backend n = Ebpf \<and>
          length (net_dns_query_name n) \<le> EZCAP_DNS_NAME_MAX \<and> CHR 0x00 \<notin> set (net_dns_query_name n) \<and>
          length (net_interface n) \<le> EZCAP_IFNAME_MAX \<and> CHR 0x00 \<notin> set (net_interface n))"

lemma normalize_connect_ok:
  "connect_wf raw \<Longrightarrow> \<exists>e. normalize_connect_event ntop4 ntop6 raw boot = Some e \<and> ebpf_event_ok e"
  using bounded_string_ok [of EZCAP_IFNAME_MAX "ce_ifname raw"]
  by (auto simp: normalize_connect_event_def connect_wf_def ebpf_event_ok_def event_init_def privacy_init_def network_init_def)

lemma normalize_socket_state_ok:
  "socket_state_wf raw \<Longrightarrow> \<exists>e. normalize_socket_state_event ntop4 ntop6 raw boot = Some e \<and> ebpf_event_ok e"
  using bounded_string_ok [of EZCAP_IFNAME_MAX "se_ifname raw"]
  by (auto simp: normalize_socket_state_event_def socket_state_wf_def ebpf_event_ok_def event_init_def privacy_init_def
      network_init_def)

lemma normalize_dns_ok:
  assumes "dns_wf raw" shows "\<exists>e. normalize_dns_event ntop4 ntop6 raw boot = Some e \<and> ebpf_event_ok e"
proof -
  obtain name where "(if 0 < de_query_len raw \<and> unat (de_query_len raw) \<le> EZCAP_DNS_NAME_MAX
        then bounded_string (de_query_name raw) (unat (de_query_len raw)) else Some []) = Some name"
      "length name \<le> EZCAP_DNS_NAME_MAX" "CHR 0x00 \<notin> set name"
  proof (cases "0 < de_query_len raw \<and> unat (de_query_len raw) \<le> EZCAP_DNS_NAME_MAX")
    case True
    then have "unat (de_query_len raw) \<le> length (de_query_name raw)" using assms by (simp add: dns_wf_def)
    from bounded_string_ok [OF this] True that show thesis by (auto intro: le_trans)
  qed (use that [of "[]"] in auto)
  moreover obtain iface where "bounded_string (de_ifname raw) EZCAP_IFNAME_MAX = Some iface"
      "length iface \<le> EZCAP_IFNAME_MAX" "CHR 0x00 \<notin> set iface"
    using bounded_string_ok [of EZCAP_IFNAME_MAX "de_ifname raw"] assms by (auto simp: dns_wf_def)
  ultimately show ?thesis
    by (simp add: normalize_dns_event_def ebpf_event_ok_def event_init_def privacy_init_def network_init_def)
qed

definition handled :: "(event list) option \<Rightarrow> bool" where
  "handled r = (case r of None \<Rightarrow> False | Some es \<Rightarrow> length es \<le> 1 \<and> list_all ebpf_event_ok es)"

lemma handled_none [simp]: "handled (Some [])"
  by (simp add: handled_def)

lemma handled_bind: "r = Some raw \<Longrightarrow> \<exists>e. f raw = Some e \<and> ebpf_event_ok e \<Longrightarrow> handled (do { raw \<leftarrow> r; e \<leftarrow> f raw; Some [e] })"
  by (auto simp: handled_def)

lemma handled_connect: "sizeof_connect \<le> length data \<Longrightarrow>
    handled (do { raw \<leftarrow> load_connect data; e \<leftarrow> normalize_connect_event ntop4 ntop6 raw boot; Some [e] })"
  by (drule load_connect_ok, elim exE conjE, rule handled_bind, assumption, erule normalize_connect_ok)

lemma handled_dns: "sizeof_dns \<le> length data \<Longrightarrow>
    handled (do { raw \<leftarrow> load_dns data; e \<leftarrow> normalize_dns_event ntop4 ntop6 raw boot; Some [e] })"
  by (drule load_dns_ok, elim exE conjE, rule handled_bind, assumption, erule normalize_dns_ok)

lemma handled_socket_state: "sizeof_socket_state \<le> length data \<Longrightarrow>
    handled (do { raw \<leftarrow> load_socket_state data; e \<leftarrow> normalize_socket_state_event ntop4 ntop6 raw boot; Some [e] })"
  by (drule load_socket_state_ok, elim exE conjE, rule handled_bind, assumption, erule normalize_socket_state_ok)

text \<open>
  C13: whatever bytes the ring buffer delivers, the callback reads only inside them, and hands on
  at most one event: metadata of the eBPF backend, without browser data, whose question name
  has at most 253 characters and whose interface name has at most 16, neither with a NUL.
\<close>

theorem on_record_safe:
  "case on_record ntop4 ntop6 proc_read data of
     None \<Rightarrow> False
   | Some es \<Rightarrow> length es \<le> 1 \<and> list_all ebpf_event_ok es"
proof (cases "length data < sizeof_header")
  case False
  then obtain hdr where hdr: "load_header data = Some hdr" using load_header_ok [of data] by auto
  note handled_connect handled_dns handled_socket_state
  then show ?thesis
    using False unfolding on_record_def handled_def [symmetric] Let_def by (simp add: hdr)
qed (simp add: on_record_def)

section \<open>From the kernel programs to the events\<close>

lemma bounded_length_stop:
  "0 \<notin> set w \<Longrightarrow> length w < k \<Longrightarrow> bounded_length (pre @ w @ 0 # r) (length pre) k = Some (length pre + length w)"
proof (induction w arbitrary: pre k)
  case Nil
  then show ?case by (cases k) (auto simp: nth_append)
next
  case (Cons x w)
  then obtain k' where k: "k = Suc k'" by (cases k) auto
  show ?case using Cons.prems Cons.IH [of k' "pre @ [x]"] by (simp add: k nth_append)
qed

lemma bounded_string_stop:
  assumes "CHR 0x00 \<notin> set s" "length s < cap"
  shows "bounded_string (str_bytes s @ 0 # r) cap = Some s"
proof -
  have u: "unat (of_nat (code_of c) :: u8) = code_of c" for c by (simp add: unat_of_nat)
  have "0 \<notin> set (str_bytes s)"
  proof
    assume "0 \<in> set (str_bytes s)"
    then obtain c where c: "c \<in> set s" "0 = (of_nat (code_of c) :: u8)" unfolding str_bytes_def set_map by (elim imageE)
    have "code_of c = 0" using arg_cong [OF c(2), of unat] unfolding u unat_0 by (rule sym)
    then have "c = CHR 0x00" by (simp add: char_eq_iff_code)
    with c(1) assms(1) show False by simp
  qed
  then have "bounded_length (str_bytes s @ 0 # r) 0 cap = Some (length s)"
    using bounded_length_stop [of "str_bytes s" cap "[]" r] assms(2) by simp
  moreover have "map (\<lambda>b. char_of (unat b)) (str_bytes s) = s"
    by (simp add: str_bytes_def u comp_def)
  ultimately show ?thesis by (simp add: bounded_string_def)
qed

text \<open>An interface name that starts with a NUL is empty.\<close>

lemma bounded_string_empty: "length ifname = EZCAP_IFNAME_MAX \<Longrightarrow> bounded_string (ifname[0 := 0]) EZCAP_IFNAME_MAX = Some []"
  by (cases ifname) (auto simp: bounded_string_def EZCAP_IFNAME_MAX_def numeral_eq_Suc)

lemma length_images:
  "length pad = 4 \<Longrightarrow> connect_wf e \<Longrightarrow> length (connect_image pad e) = sizeof_connect"
  "length pad = 4 \<Longrightarrow> length pad2 = 7 \<Longrightarrow> dns_wf d \<Longrightarrow> length (dns_image pad pad2 d) = sizeof_dns"
  by (simp_all add: connect_image_def connect_wf_def length_header_image sizeof_connect_def EZCAP_IFNAME_MAX_def
      dns_image_def dns_wf_def EZCAP_DNS_NAME_MAX_def sizeof_dns_def)

lemma load_header_images:
  "length pad = 4 \<Longrightarrow> load_header (connect_image pad e) = Some (ce_hdr e)"
  "length pad = 4 \<Longrightarrow> load_header (dns_image pad pad2 d) = Some (de_hdr d)"
  by (simp_all add: connect_image_def dns_image_def load_header_image)

lemma on_record_connect:
  "length pad = 4 \<Longrightarrow> connect_wf e \<Longrightarrow> eh_version (ce_hdr e) = EZCAP_EVENT_VERSION \<Longrightarrow>
   eh_tag (ce_hdr e) = EZCAP_EVENT_TAG_CONNECT \<Longrightarrow>
     on_record ntop4 ntop6 proc_read (connect_image pad e) =
       map_option (\<lambda>ev. [ev]) (normalize_connect_event ntop4 ntop6 e (boot_walltime proc_read))"
  by (simp add: on_record_def length_images load_header_images load_connect_image sizeof_header_def sizeof_connect_def
      map_conv_bind_option comp_def)

lemma on_record_dns:
  "length pad = 4 \<Longrightarrow> length pad2 = 7 \<Longrightarrow> dns_wf e \<Longrightarrow> eh_version (de_hdr e) = EZCAP_EVENT_VERSION \<Longrightarrow>
   eh_tag (de_hdr e) = EZCAP_EVENT_TAG_DNS \<Longrightarrow>
     on_record ntop4 ntop6 proc_read (dns_image pad pad2 e) =
       map_option (\<lambda>ev. [ev]) (normalize_dns_event ntop4 ntop6 e (boot_walltime proc_read))"
  by (simp add: on_record_def length_images load_header_images load_dns_image sizeof_header_def sizeof_dns_def
      map_conv_bind_option comp_def EZCAP_EVENT_TAG_DNS_def EZCAP_EVENT_TAG_CONNECT_def)

text \<open>The endpoints an event reports.\<close>

definition endpoints :: "event \<Rightarrow> (string \<times> u16 \<times> string \<times> u16) option" where
  "endpoints e = map_option (\<lambda>n. (net_local_address n, net_local_port n, net_remote_address n, net_remote_port n)) (ev_network e)"

lemma connect_event:
  assumes "connect_wf ev" "length pad = 4" "length l6 = 16" "length r6 = 16"
    and "r = ev\<lparr>ce_hdr := fill_header t EZCAP_EVENT_TAG_CONNECT, ce_local_addr4 := l4, ce_remote_addr4 := r4,
      ce_local_addr6 := l6, ce_remote_addr6 := r6, ce_local_port := lp, ce_remote_port := rp,
      ce_transport := 6, ce_direction := 1, ce_is_ipv6 := v6, ce_pad0 := 0, ce_ifname := (ce_ifname ev)[0 := 0]\<rparr>"
  shows "\<exists>e. on_record ntop4 ntop6 proc_read (connect_image pad r) = Some [e]
    \<and> endpoints e = Some (raw_address ntop4 ntop6 v6 l4 l6, lp, raw_address ntop4 ntop6 v6 r4 r6, rp)
    \<and> ev_process e = Some \<lparr>pi_pid = ucast (drop_bit 32 (tk_pid_tgid t)), pi_name = [], pi_uid = Some (ucast (tk_uid_gid t))\<rparr>"
proof -
  have wf: "connect_wf r" using assms by (simp add: connect_wf_def)
  have "on_record ntop4 ntop6 proc_read (connect_image pad r) =
      map_option (\<lambda>ev. [ev]) (normalize_connect_event ntop4 ntop6 r (boot_walltime proc_read))"
    by (rule on_record_connect [OF assms(2) wf]) (simp_all add: assms(5) fill_header_def)
  moreover have "bounded_string (ce_ifname r) EZCAP_IFNAME_MAX = Some []"
    using assms(1) bounded_string_empty [of "ce_ifname ev"] by (simp add: assms(5) connect_wf_def)
  ultimately show ?thesis
    by (simp add: normalize_connect_event_def endpoints_def raw_process_def process_init_def network_init_def event_init_def)
      (simp add: assms(5) fill_header_def)
qed

text \<open>
  An outbound connection over IPv6 is reported with the addresses and ports of its socket and
  the process that made it.  Over IPv4 the two addresses arrive exchanged: the remote address of
  the event is the local address of the socket and the other way round, because the program
  stores them exchanged and user space does not exchange them back.
\<close>

theorem connect_endpoints:
  assumes "connect_wf ev" "length pad = 4" "length (skc_v6_rcv_saddr sk) = 16" "length (skc_v6_daddr sk) = 16"
    and "ezcap_tcp_v4_connect t sk (Some ev) = Some r4" "ezcap_tcp_v6_connect t sk (Some ev) = Some r6"
  shows "\<exists>e4 e6. on_record ntop4 ntop6 proc_read (connect_image pad r4) = Some [e4]
    \<and> on_record ntop4 ntop6 proc_read (connect_image pad r6) = Some [e6]
    \<and> endpoints e6 = Some (format_ip ntop6 (skc_v6_rcv_saddr sk), skc_num sk,
                           format_ip ntop6 (skc_v6_daddr sk), bswap16 (skc_dport sk))
    \<and> endpoints e4 = Some (format_ip ntop4 (le_bytes 4 (skc_daddr sk)), skc_num sk,
                           format_ip ntop4 (le_bytes 4 (skc_rcv_saddr sk)), bswap16 (skc_dport sk))
    \<and> ev_process e4 = Some \<lparr>pi_pid = ucast (drop_bit 32 (tk_pid_tgid t)), pi_name = [], pi_uid = Some (ucast (tk_uid_gid t))\<rparr>
    \<and> ev_process e6 = ev_process e4"
proof -
  have r4: "r4 = ev\<lparr>ce_hdr := fill_header t EZCAP_EVENT_TAG_CONNECT, ce_local_addr4 := skc_daddr sk,
      ce_remote_addr4 := skc_rcv_saddr sk, ce_local_addr6 := ce_local_addr6 ev, ce_remote_addr6 := ce_remote_addr6 ev,
      ce_local_port := skc_num sk, ce_remote_port := bswap16 (skc_dport sk),
      ce_transport := 6, ce_direction := 1, ce_is_ipv6 := 0, ce_pad0 := 0, ce_ifname := (ce_ifname ev)[0 := 0]\<rparr>"
    using assms(5) by (cases ev) (auto simp: ezcap_tcp_v4_connect_def)
  have r6: "r6 = ev\<lparr>ce_hdr := fill_header t EZCAP_EVENT_TAG_CONNECT, ce_local_addr4 := ce_local_addr4 ev,
      ce_remote_addr4 := ce_remote_addr4 ev, ce_local_addr6 := skc_v6_rcv_saddr sk, ce_remote_addr6 := skc_v6_daddr sk,
      ce_local_port := skc_num sk, ce_remote_port := bswap16 (skc_dport sk),
      ce_transport := 6, ce_direction := 1, ce_is_ipv6 := 1, ce_pad0 := 0, ce_ifname := (ce_ifname ev)[0 := 0]\<rparr>"
    using assms(6) by (cases ev) (auto simp: ezcap_tcp_v6_connect_def)
  have len: "length (ce_local_addr6 ev) = 16" "length (ce_remote_addr6 ev) = 16"
    using assms(1) by (simp_all add: connect_wf_def)
  from connect_event [OF assms(1,2) len r4, of ntop4 ntop6 proc_read]
    connect_event [OF assms(1,2,3,4) r6, of ntop4 ntop6 proc_read]
  show ?thesis by (auto simp: raw_address_def)
qed

text \<open>A socket from 10.0.0.1 to 93.184.216.34 and the memory of a fresh record.\<close>

definition sample_sock :: sock where
  "sample_sock = \<lparr>skc_rcv_saddr = 0x0100000A, skc_daddr = 0x22D8B85D, skc_v6_rcv_saddr = replicate 16 1,
     skc_v6_daddr = replicate 16 2, skc_dport = 0xBB01, skc_num = 40000, sk_txhash8 = 0\<rparr>"

definition empty_connect_event :: ezcap_connect_event where
  "empty_connect_event = \<lparr>ce_hdr = \<lparr>eh_version = 0, eh_tag = 0, eh_pad0 = 0, eh_pid = 0, eh_uid = 0, eh_timestamp_ns = 0\<rparr>,
     ce_local_addr4 = 0, ce_remote_addr4 = 0, ce_local_addr6 = replicate 16 0, ce_remote_addr6 = replicate 16 0,
     ce_local_port = 0, ce_remote_port = 0, ce_transport = 0, ce_direction = 0, ce_is_ipv6 = 0, ce_pad0 = 0,
     ce_ifname = replicate 16 0\<rparr>"

definition sample_task :: task where
  "sample_task = \<lparr>tk_pid_tgid = 0x2A0000002A, tk_uid_gid = 1000, tk_ktime_ns = 5\<rparr>"

text \<open>
  C16: a well-formed question name of at most 252 characters in a DNS packet that the program
  accepts arrives in the event as the dotted name, attributed to the process of the
  task; it is the name that the packet parser of the pcap path decodes from the same bytes.
\<close>

theorem kernel_name_to_event:
  assumes "dns_trace_header skb = Some (Some ihl)" "read_be16 (skb_data skb) (ihl + 4) = Some l"
    and "drop (ihl + 20) (skb_data skb) = concat (map encode_label ls) @ 0 # rest"
    and "list_all label_ok ls" "length (join_dots ls) \<le> 252"
    and "length (concat (map encode_label ls)) \<le> dns_payload_len skb l (ihl + 8)"
    and "dns_wf ev" "length pad = 4" "length pad2 = 7"
  shows "\<exists>r e n. ezcap_dns_trace t skb (Some ev) = Some (Some r)
    \<and> on_record ntop4 ntop6 proc_read (dns_image pad pad2 r) = Some [e]
    \<and> ev_network e = Some n \<and> net_dns_query_name n = join_dots ls
    \<and> parse_dns_qname (drop (ihl + 20) (skb_data skb)) = Some (net_dns_query_name n)
    \<and> ev_type e = Dns \<and> map_option pi_pid (ev_process e) = Some (ucast (drop_bit 32 (tk_pid_tgid t)))"
proof -
  obtain saddr sport l' where l': "read_be16 (skb_data skb) (ihl + 4) = Some l'" and
    eq: "\<And>t ev. ezcap_dns_trace t skb (Some ev) = do {
         (name, r) \<leftarrow> copy_qname (drop (ihl + 20) (skb_data skb)) (dns_payload_len skb l' (ihl + 8)) ((de_query_name ev)[0 := 0]);
         Some (Some (fill_dns_event t ev saddr sport name r))
       }"
    by (rule dns_trace_reserved [OF assms(1)]) (rule that)
  have "l' = l" using l' assms(2) by simp
  have "length ((de_query_name ev)[0 := 0]) = EZCAP_DNS_NAME_MAX" using assms(7) by (simp add: dns_wf_def)
  from copy_qname_encode [OF assms(4,5) this assms(6)] obtain tll where
    c: "copy_qname (drop (ihl + 20) (skb_data skb)) (dns_payload_len skb l (ihl + 8)) ((de_query_name ev)[0 := 0]) =
      Some (str_bytes (join_dots ls) @ 0 # tll, int (length (join_dots ls)))"
      "length (str_bytes (join_dots ls) @ 0 # tll) = EZCAP_DNS_NAME_MAX"
    unfolding assms(3) by blast
  define r where "r = fill_dns_event t ev saddr sport (str_bytes (join_dots ls) @ 0 # tll) (int (length (join_dots ls)))"
  have run: "ezcap_dns_trace t skb (Some ev) = Some (Some r)"
    by (simp add: eq \<open>l' = l\<close> c(1) r_def)
  have wf: "dns_wf r" using assms(7) c(2) by (simp add: r_def fill_dns_event_def dns_wf_def)
  have ql: "unat (de_query_len r) = length (join_dots ls) + 1"
  proof -
    have "de_query_len r = of_nat (length (join_dots ls) + 1)" by (simp add: r_def fill_dns_event_def)
    then show ?thesis using assms(5) by (simp only: unat_of_nat) simp
  qed
  have nul: "CHR 0x00 \<notin> set (join_dots ls)"
    using join_dots_alphabet [OF assms(4)] by (auto simp: list_all_iff qname_alphabet_def chr_simps)
  have name: "bounded_string (de_query_name r) (unat (de_query_len r)) = Some (join_dots ls)"
    unfolding ql by (simp add: r_def fill_dns_event_def bounded_string_stop nul)
  have ifn: "bounded_string (de_ifname r) EZCAP_IFNAME_MAX = Some []"
    using assms(7) bounded_string_empty [of "de_ifname ev"] by (simp add: r_def fill_dns_event_def dns_wf_def)
  have q: "0 < de_query_len r \<and> unat (de_query_len r) \<le> EZCAP_DNS_NAME_MAX"
    using ql assms(5) by (simp add: EZCAP_DNS_NAME_MAX_def word_less_nat_alt)
  have hdr: "de_hdr r = fill_dns_header t" by (simp add: r_def fill_dns_event_def)
  have "on_record ntop4 ntop6 proc_read (dns_image pad pad2 r) =
      map_option (\<lambda>ev. [ev]) (normalize_dns_event ntop4 ntop6 r (boot_walltime proc_read))"
    using assms(8,9) wf by (intro on_record_dns) (auto simp: hdr fill_dns_header_def)
  moreover have "parse_dns_qname (drop (ihl + 20) (skb_data skb)) = Some (join_dots ls)"
    unfolding assms(3) by (rule parse_dns_qname_encode [OF assms(4,5)])
  ultimately show ?thesis
    by (simp add: run normalize_dns_event_def name ifn q raw_process_def process_init_def hdr fill_dns_header_def
      event_init_def network_init_def)
qed

theorem kernel_name_to_event_witness:
  "\<exists>r e n. ezcap_dns_trace sample_task (sample_dns 23) (Some empty_dns_event) = Some (Some r)
    \<and> on_record (\<lambda>_. None) (\<lambda>_. None) (\<lambda>_ _. None) (dns_image [0, 0, 0, 0] [0, 0, 0, 0, 0, 0, 0] r) = Some [e]
    \<and> ev_network e = Some n \<and> net_dns_query_name n = ''a''"
proof -
  have hdr: "dns_trace_header (sample_dns 23) = Some (Some 20)" by code_simp
  have len: "read_be16 (skb_data (sample_dns 23)) (20 + 4) = Some 23" by code_simp
  have qname: "drop (20 + 20) (skb_data (sample_dns 23)) = concat (map encode_label [''a'']) @ 0 # []" by code_simp
  have fits: "length (concat (map encode_label [''a''])) \<le> dns_payload_len (sample_dns 23) 23 (20 + 8)" by code_simp
  have ok: "list_all label_ok [''a'']" by (simp add: label_ok_def qname_alphabet_def chr_simps)
  have wf: "dns_wf empty_dns_event"
    by (simp add: empty_dns_event_def dns_wf_def EZCAP_IFNAME_MAX_def EZCAP_DNS_NAME_MAX_def)
  show ?thesis
    using kernel_name_to_event [OF hdr len qname ok _ fits wf, of "[0, 0, 0, 0]" "[0, 0, 0, 0, 0, 0, 0]"
        sample_task "\<lambda>_. None" "\<lambda>_. None" "\<lambda>_ _. None"] by auto
qed

end
