(* ===== verification/Ez_Backends.thy ===== *)
theory Ez_Backends
  imports Ez_Ebpf
begin

text \<open>
  \<^verbatim>\<open>src/capture/pcap/pcap_capture.cpp\<close> and \<^verbatim>\<open>src/capture/ebpf/ebpf_manager.cpp\<close>: the two capture backends
  behind the interface \<^verbatim>\<open>CaptureBackend\<close>.  The results of the libpcap and libbpf calls are the
  environment of a start; a backend is the flag \<^verbatim>\<open>running_\<close> and which resources it holds (the
  thread object, the capture handle or the loaded object with its ring buffer).  Destroying a
  joinable \<^verbatim>\<open>std::thread\<close> ends the process: \<^const>\<open>None\<close>.

  The locale \<open>capture_backend\<close> is the contract of the interface, proved for both classes; its
  lemmas give every sequence of starts and stops.  The worker loops are outside the contract:
  when a loop stops itself on an error the resources stay behind.
\<close>

section \<open>The interface\<close>

datatype 'env lifecycle_op = OpStart 'env | OpStop

type_synonym ('env, 's) backend_start = "'env \<Rightarrow> 's \<Rightarrow> ('s \<times> (string + unit)) option"

fun backend_exec :: "('env, 's) backend_start \<Rightarrow> ('s \<Rightarrow> 's) \<Rightarrow> 'env lifecycle_op list \<Rightarrow> 's \<Rightarrow> 's option" where
  "backend_exec start stop [] s = Some s"
| "backend_exec start stop (OpStart env # ops) s =
     (case start env s of None \<Rightarrow> None | Some (s', r) \<Rightarrow> backend_exec start stop ops s')"
| "backend_exec start stop (OpStop # ops) s = backend_exec start stop ops (stop s)"

locale capture_backend =
  fixes start :: "('env, 's) backend_start" and stop :: "'s \<Rightarrow> 's" and running :: "'s \<Rightarrow> bool" and idle :: "'s \<Rightarrow> bool"
  assumes start_idle: "idle s \<Longrightarrow> \<exists>s' r. start env s = Some (s', r) \<and> (if is_ok r then running s' else idle s')"
    and start_running: "running s \<Longrightarrow> start env s = Some (s, Inr ())"
    and stop_running: "running s \<Longrightarrow> idle (stop s)"
    and stop_not_running: "\<not> running s \<Longrightarrow> stop s = s"
    and idle_not_running: "idle s \<Longrightarrow> \<not> running s"
begin

lemma stop_idle: "idle s \<or> running s \<Longrightarrow> idle (stop s)"
  using stop_running stop_not_running idle_not_running by metis

lemma stop_idempotent: "stop (stop s) = stop s"
  by (cases "running s") (simp_all add: stop_not_running idle_not_running stop_running)

lemma start_keeps: "idle s \<or> running s \<Longrightarrow> \<exists>s' r. start env s = Some (s', r) \<and> (idle s' \<or> running s')"
  using start_idle [of s env] start_running [of s env] by (auto split: if_splits)

lemma exec_lifecycle:
  "idle s \<or> running s \<Longrightarrow> \<exists>s'. backend_exec start stop ops s = Some s' \<and> (idle s' \<or> running s') \<and> idle (stop s')"
proof (induction ops arbitrary: s)
  case Nil
  then show ?case by (simp add: stop_idle)
next
  case (Cons op ops)
  show ?case
  proof (cases op)
    case (OpStart env)
    with Cons.prems obtain s' r where "start env s = Some (s', r)" "idle s' \<or> running s'"
      using start_keeps by blast
    with Cons.IH [of s'] OpStart show ?thesis by simp
  next
    case OpStop
    with Cons.IH [of "stop s"] stop_idle [OF Cons.prems] show ?thesis by simp
  qed
qed

end

section \<open>pcap\<close>

record pcap_backend =
  pb_running :: bool
  pb_thread :: bool
  pb_handle :: bool

definition pcap_backend_init :: pcap_backend where
  "pcap_backend_init = \<lparr>pb_running = False, pb_thread = False, pb_handle = False\<rparr>"

text \<open>The results of the libpcap calls of a start, in their order.\<close>

record pcap_env =
  pe_create :: bool
  pe_set_snaplen :: int
  pe_set_promisc :: int
  pe_set_timeout :: int
  pe_activate :: int
  pe_compile :: int
  pe_setfilter :: int

definition pcap_start :: "(pcap_env, pcap_backend) backend_start" where
  "pcap_start env s =
     (if pb_running s then Some (s, Inr ())
      else if \<not> pe_create env
        then Some (s\<lparr>pb_handle := False\<rparr>, Inl ''pcap_create failed on interface (permission or missing device)'')
      else if pe_set_snaplen env \<noteq> 0 \<or> pe_set_promisc env \<noteq> 0 \<or> pe_set_timeout env \<noteq> 0
        then Some (s\<lparr>pb_handle := False\<rparr>, Inl ''pcap configuration failed'')
      else if pe_activate env \<noteq> 0
        then Some (s\<lparr>pb_handle := False\<rparr>, Inl ''pcap_activate failed (permission or busy device)'')
      else if pe_compile env \<noteq> 0 then Some (s\<lparr>pb_handle := False\<rparr>, Inl ''capture filter rejected'')
      else if pe_setfilter env \<noteq> 0 then Some (s\<lparr>pb_handle := False\<rparr>, Inl ''pcap_setfilter failed'')
      else if pb_thread s then None
      else Some (s\<lparr>pb_handle := True, pb_running := True, pb_thread := True\<rparr>, Inr ()))"

definition pcap_stop :: "pcap_backend \<Rightarrow> pcap_backend" where
  "pcap_stop s = (if \<not> pb_running s then s else s\<lparr>pb_running := False, pb_thread := False, pb_handle := False\<rparr>)"

definition pcap_destroy :: "pcap_backend \<Rightarrow> unit option" where
  "pcap_destroy s = (if pb_thread (pcap_stop s) then None else Some ())"

text \<open>
  A delivered packet: the length on the wire, the time stamp, the captured bytes, and what
  \<^verbatim>\<open>/dev/urandom\<close> gives when an identifier is drawn for it.
\<close>

record pcap_packet =
  pk_len :: nat
  pk_sec :: int
  pk_usec :: int
  pk_bytes :: bytes
  pk_urandom :: urandom

definition pcap_handler :: "ntop \<Rightarrow> ntop \<Rightarrow> string \<Rightarrow> u64 \<Rightarrow> pcap_packet \<Rightarrow> (event list \<times> u64) option" where
  "pcap_handler ntop4 ntop6 iface counter p =
     (if pk_len p < length (pk_bytes p) then Some ([], counter)
      else do {
        meta \<leftarrow> parse_ethernet_frame ntop4 ntop6 (pk_bytes p);
        if \<not> pm_valid meta then Some ([], counter)
        else let ts = seconds (pk_sec p) + microseconds (pk_usec p);
                 dns = (pm_dns_query_name meta \<noteq> [] \<or>
                   (pm_transport meta = Udp \<and> (pm_destination_port meta = 53 \<or> pm_source_port meta = 53)));
                 (e, counter) = (if dns then dns_from_packet_metadata (pk_urandom p) counter meta ts iface
                                 else from_packet_metadata (pk_urandom p) counter meta ts iface)
             in Some ([e], counter)
      })"

text \<open>
  The capture loop against a sequence of \<^verbatim>\<open>pcap_dispatch\<close> results, each with the packets it
  delivers: the events in order, and the state the loop leaves.  It ends when the results end,
  when \<^verbatim>\<open>running_\<close> is false, or on the two error codes.
\<close>

definition PCAP_ERROR :: int where "PCAP_ERROR = -1"
definition PCAP_ERROR_BREAK :: int where "PCAP_ERROR_BREAK = -2"

fun dispatch_packets :: "ntop \<Rightarrow> ntop \<Rightarrow> string \<Rightarrow> u64 \<Rightarrow> pcap_packet list \<Rightarrow> (event list \<times> u64) option" where
  "dispatch_packets ntop4 ntop6 iface counter [] = Some ([], counter)"
| "dispatch_packets ntop4 ntop6 iface counter (p # ps) = do {
     (es, counter) \<leftarrow> pcap_handler ntop4 ntop6 iface counter p;
     (es', counter) \<leftarrow> dispatch_packets ntop4 ntop6 iface counter ps;
     Some (es @ es', counter)
   }"

fun pcap_run_loop ::
  "ntop \<Rightarrow> ntop \<Rightarrow> string \<Rightarrow> u64 \<Rightarrow> (int \<times> pcap_packet list) list \<Rightarrow> pcap_backend \<Rightarrow> (event list \<times> u64 \<times> pcap_backend) option" where
  "pcap_run_loop ntop4 ntop6 iface counter [] s = Some ([], counter, s)"
| "pcap_run_loop ntop4 ntop6 iface counter ((rc, ps) # ds) s =
     (if \<not> pb_running s then Some ([], counter, s)
      else do {
        (es, counter) \<leftarrow> dispatch_packets ntop4 ntop6 iface counter ps;
        if rc = PCAP_ERROR_BREAK then Some (es, counter, s)
        else if rc = PCAP_ERROR then Some (es, counter, s\<lparr>pb_running := False\<rparr>)
        else do {
          (es', counter, s) \<leftarrow> pcap_run_loop ntop4 ntop6 iface counter ds s;
          Some (es @ es', counter, s)
        }
      })"

section \<open>eBPF\<close>

definition path_join :: "string \<Rightarrow> string \<Rightarrow> string" where
  "path_join a b = (if b \<noteq> [] \<and> hd b = CHR ''/'' then b
                    else if a = [] \<or> last a = CHR ''/'' then a @ b else a @ ''/'' @ b)"

definition parent_path :: "string \<Rightarrow> string" where
  "parent_path p = (case last_idx ((=) CHR ''/'') p of None \<Rightarrow> [] | Some 0 \<Rightarrow> ''/'' | Some i \<Rightarrow> take i p)"

text \<open>\<open>exe\<close> is what \<^verbatim>\<open>readlink("/proc/self/exe")\<close> returns, at most 511 bytes; empty on failure.\<close>

definition read_executable_dir :: "string \<Rightarrow> string" where
  "read_executable_dir exe = (let p = takeWhile (\<lambda>c. c \<noteq> CHR 0x00) exe in if p = [] then [] else parent_path p)"

definition ebpf_object_candidates :: "string \<Rightarrow> string \<Rightarrow> string list" where
  "ebpf_object_candidates configured exe =
     (if configured = [] then [] else [configured]) @
     (let base = read_executable_dir exe in
      if base = [] then []
      else map (foldl path_join base)
        [[''ezcap.bpf.o''], [''lib'', ''ezcap'', ''ezcap.bpf.o''], [''lib64'', ''ezcap'', ''ezcap.bpf.o''],
         [''ebpf'', ''ezcap.bpf.o''], [''ebpf'', ''generated'', ''ezcap.bpf.o''],
         [''..'', ''lib'', ''ezcap'', ''ezcap.bpf.o''], [''..'', ''lib64'', ''ezcap'', ''ezcap.bpf.o'']])"

text \<open>\<open>is_file\<close> says that a path exists and is a regular file.\<close>

definition find_existing_ebpf_object :: "(string \<Rightarrow> bool) \<Rightarrow> string \<Rightarrow> string \<Rightarrow> string" where
  "find_existing_ebpf_object is_file configured exe =
     (case find is_file (ebpf_object_candidates configured exe) of None \<Rightarrow> [] | Some p \<Rightarrow> p)"

record ebpf_backend =
  eb_running :: bool
  eb_thread :: bool
  eb_object :: bool
  eb_ringbuf :: bool

definition ebpf_backend_init :: ebpf_backend where
  "ebpf_backend_init = \<lparr>eb_running = False, eb_thread = False, eb_object = False, eb_ringbuf = False\<rparr>"

text \<open>
  The environment of a start: whether the kernel has BTF, the object path, the results of
  opening (null, or the error libbpf encodes in the pointer), loading, and attaching each
  program, whether the map is there and the ring buffer could be made.
\<close>

record ebpf_env =
  ee_btf :: bool
  ee_object_path :: string
  ee_open_null :: bool
  ee_open_error :: int
  ee_load :: int
  ee_attach :: "bool list"
  ee_events_map :: bool
  ee_ringbuf :: bool

definition host_supported :: "ebpf_env \<Rightarrow> string + unit" where
  "host_supported env = (if \<not> ee_btf env then Inl ''kernel BTF not available'' else Inr ())"

definition ebpf_start :: "(int \<Rightarrow> string) \<Rightarrow> (ebpf_env, ebpf_backend) backend_start" where
  "ebpf_start to_string env s =
     (if eb_running s then Some (s, Inr ())
      else case host_supported env of Inl reason \<Rightarrow> Some (s, Inl reason) | Inr _ \<Rightarrow>
      if ee_object_path env = [] then Some (s, Inl ''eBPF object not found in known locations'')
      else if ee_open_null env
        then Some (s\<lparr>eb_object := False\<rparr>, Inl (''eBPF object could not be opened at '' @ ee_object_path env))
      else if ee_open_error env \<noteq> 0
        then Some (s\<lparr>eb_object := False\<rparr>,
          Inl (''eBPF object could not be opened ('' @ ee_object_path env @ ''): '' @ to_string (- ee_open_error env)))
      else if ee_load env \<noteq> 0
        then Some (s\<lparr>eb_object := False\<rparr>, Inl ''eBPF load failed (kernel version or permissions)'')
      else if \<not> list_all id (ee_attach env) then Some (s\<lparr>eb_object := False\<rparr>, Inl ''eBPF attach failed'')
      else if \<not> ee_events_map env
        then Some (s\<lparr>eb_object := False\<rparr>, Inl ''events map missing from eBPF object'')
      else if \<not> ee_ringbuf env
        then Some (s\<lparr>eb_object := False, eb_ringbuf := False\<rparr>, Inl ''ring buffer allocation failed'')
      else if eb_thread s then None
      else Some (s\<lparr>eb_object := True, eb_ringbuf := True, eb_running := True, eb_thread := True\<rparr>, Inr ()))"

definition ebpf_stop :: "ebpf_backend \<Rightarrow> ebpf_backend" where
  "ebpf_stop s = (if \<not> eb_running s then s
     else s\<lparr>eb_running := False, eb_thread := False, eb_ringbuf := False, eb_object := False\<rparr>)"

definition ebpf_destroy :: "ebpf_backend \<Rightarrow> unit option" where
  "ebpf_destroy s = (if eb_thread (ebpf_stop s) then None else Some ())"

text \<open>The poll loop against a sequence of results; \<^verbatim>\<open>EINTR\<close> is 4.\<close>

fun ebpf_poll_loop :: "int list \<Rightarrow> ebpf_backend \<Rightarrow> ebpf_backend" where
  "ebpf_poll_loop [] s = s"
| "ebpf_poll_loop (rc # rcs) s =
     (if \<not> eb_running s then s
      else if rc = -4 then ebpf_poll_loop rcs s
      else if rc < 0 then s\<lparr>eb_running := False\<rparr>
      else ebpf_poll_loop rcs s)"

section \<open>Both backends keep the contract\<close>

definition pcap_idle :: "pcap_backend \<Rightarrow> bool" where
  "pcap_idle s \<longleftrightarrow> \<not> pb_running s \<and> \<not> pb_thread s \<and> \<not> pb_handle s"

definition ebpf_idle :: "ebpf_backend \<Rightarrow> bool" where
  "ebpf_idle s \<longleftrightarrow> \<not> eb_running s \<and> \<not> eb_thread s \<and> \<not> eb_object s \<and> \<not> eb_ringbuf s"

interpretation pcap: capture_backend pcap_start pcap_stop pb_running pcap_idle
  by unfold_locales (auto simp: pcap_start_def pcap_stop_def pcap_idle_def)

interpretation ebpf: capture_backend "ebpf_start to_string" ebpf_stop eb_running ebpf_idle
  by unfold_locales (auto simp: ebpf_start_def ebpf_stop_def ebpf_idle_def host_supported_def)


section \<open>The worker loops\<close>

text \<open>
  When a worker loop ends on an error of its capture library it clears the running flag
  itself, and from then on a stop does nothing: the thread object and the handle (or the object and
  its ring buffer) stay, destroying the backend terminates the process, and so does a start
  whose library calls all succeed.
\<close>

theorem loop_error_terminates:
  assumes "pb_running s" "pb_thread s" "pb_handle s" "eb_running t" "eb_thread t" "eb_object t" "rc < 0" "rc \<noteq> -4"
    and "env = \<lparr>pe_create = True, pe_set_snaplen = 0, pe_set_promisc = 0, pe_set_timeout = 0, pe_activate = 0,
      pe_compile = 0, pe_setfilter = 0\<rparr>"
  shows "\<exists>s'. pcap_run_loop ntop4 ntop6 iface c [(PCAP_ERROR, [])] s = Some ([], c, s')
      \<and> pcap_stop s' = s' \<and> pb_handle s' \<and> pcap_destroy s' = None \<and> pcap_start env s' = None
      \<and> ebpf_stop (ebpf_poll_loop [rc] t) = ebpf_poll_loop [rc] t \<and> eb_object (ebpf_poll_loop [rc] t)
      \<and> ebpf_destroy (ebpf_poll_loop [rc] t) = None"
  using assms
  by (simp add: PCAP_ERROR_def PCAP_ERROR_BREAK_def pcap_stop_def pcap_destroy_def pcap_start_def
      ebpf_stop_def ebpf_destroy_def)

section \<open>Events from packets\<close>

lemma qname_only_dns_ip4:
  "parse_ip4 ntop frame meta = Some (m, off) \<Longrightarrow> pm_dns_query_name m = pm_dns_query_name meta"
  by (auto simp: parse_ip4_def Let_def split: if_splits option.splits bind_splits)

lemma qname_only_dns_ip6:
  "parse_ip6 ntop frame meta = Some (m, off) \<Longrightarrow> pm_dns_query_name m = pm_dns_query_name meta"
  by (auto simp: parse_ip6_def Let_def split: if_splits option.splits bind_splits)

lemma qname_only_dns_ip:
  "parse_ip ntop4 ntop6 frame meta = Some (m, off) \<Longrightarrow> pm_dns_query_name m = pm_dns_query_name meta"
  by (auto simp: parse_ip_def dest: qname_only_dns_ip4 qname_only_dns_ip6 split: if_splits bind_splits)

lemma parse_dns_frame:
  "parse_dns payload meta = Some m \<Longrightarrow> pm_transport m = pm_transport meta \<and> pm_source_port m = pm_source_port meta
     \<and> pm_destination_port m = pm_destination_port meta"
  by (auto simp: parse_dns_def Let_def split: if_splits bind_splits)

lemma qname_only_dns_tcp: "parse_tcp frame off rem meta = Some m \<Longrightarrow> pm_dns_query_name m = pm_dns_query_name meta"
  by (auto simp: parse_tcp_def split: if_splits bind_splits)

lemma qname_only_dns_udp:
  "parse_udp frame off rem meta = Some m \<Longrightarrow> pm_dns_query_name meta = [] \<Longrightarrow> pm_dns_query_name m \<noteq> [] \<Longrightarrow>
     pm_transport m = pm_transport meta \<and> (pm_destination_port m = 53 \<or> pm_source_port m = 53)"
  by (auto simp: parse_udp_def Let_def kDnsPort_def dest!: parse_dns_frame split: if_splits bind_splits)

lemma qname_only_dns:
  assumes "parse_ethernet_frame ntop4 ntop6 frame = Some m" "pm_dns_query_name m \<noteq> []"
  shows "pm_transport m = Udp \<and> (pm_destination_port m = 53 \<or> pm_source_port m = 53)"
proof -
  have len: "14 \<le> length frame"
    using assms by (cases "length frame < 14") (auto simp: parse_ethernet_frame_def kEthHeaderLen_def packet_metadata_init_def)
  then obtain m0 off where ip: "parse_ip ntop4 ntop6 frame packet_metadata_init = Some (m0, off)" "ip_result frame (m0, off)"
    using parse_ip_returns [of frame packet_metadata_init ntop4 ntop6] by (auto simp: packet_metadata_init_def)
  have m0: "pm_dns_query_name m0 = []" using qname_only_dns_ip [OF ip(1)] by (simp add: packet_metadata_init_def)
  have run: "parse_ethernet_frame ntop4 ntop6 frame = (case off of None \<Rightarrow> Some m0
      | Some offset \<Rightarrow> size_sub (length frame) offset \<bind> (\<lambda>remaining.
          if pm_transport m0 = Tcp then parse_tcp frame offset remaining m0 else parse_udp frame offset remaining m0))"
    using len ip(1) by (simp add: parse_ethernet_frame_def kEthHeaderLen_def)
  show ?thesis
  proof (cases off)
    case None
    with run assms m0 show ?thesis by simp
  next
    case (Some offset)
    with run assms(1) obtain remaining where
      m: "(if pm_transport m0 = Tcp then parse_tcp frame offset remaining m0 else parse_udp frame offset remaining m0) = Some m"
      by (auto split: bind_splits)
    show ?thesis
    proof (cases "pm_transport m0 = Tcp")
      case True
      with m assms(2) m0 show ?thesis using qname_only_dns_tcp by fastforce
    next
      case False
      with ip(2) Some have "pm_transport m0 = Udp" by (auto simp: ip_result_def)
      with False m qname_only_dns_udp [of frame offset remaining m0 m] m0 assms(2) show ?thesis by simp
    qed
  qed
qed

text \<open>
  An event of the pcap backend comes from a frame whose headers parse, draws one identifier,
  carries no process or browser data and counts as weak evidence; it is a DNS event exactly when it
  is UDP with port 53 at one end, and only then can it carry a question name.
\<close>

theorem pcap_event_kind:
  assumes "pcap_handler ntop4 ntop6 iface c p = Some ([e], c')"
  shows "\<exists>meta net. parse_ethernet_frame ntop4 ntop6 (pk_bytes p) = Some meta \<and> pm_valid meta \<and> ev_network e = Some net
    \<and> c' = c + 1 \<and> ev_process e = None \<and> ev_browser e = None \<and> confidence_band (ev_confidence e) = Weak
    \<and> ev_timestamp e = seconds (pk_sec p) + microseconds (pk_usec p)
    \<and> ev_type e = (if net_transport net = Udp \<and> (net_remote_port net = 53 \<or> net_local_port net = 53) then Dns else Connection)
    \<and> net_transport net = pm_transport meta \<and> net_local_port net = pm_source_port meta
    \<and> net_remote_port net = pm_destination_port meta \<and> net_dns_query_name net = pm_dns_query_name meta"
proof -
  obtain meta where meta: "parse_ethernet_frame ntop4 ntop6 (pk_bytes p) = Some meta" "pm_valid meta"
    using assms by (auto simp: pcap_handler_def split: if_splits bind_splits)
  define dns where "dns = (pm_transport meta = Udp \<and> (pm_destination_port meta = 53 \<or> pm_source_port meta = 53))"
  have "pm_dns_query_name meta \<noteq> [] \<Longrightarrow> dns" using qname_only_dns [OF meta(1)] by (simp add: dns_def)
  then have "(pm_dns_query_name meta \<noteq> [] \<or> dns) = dns" "\<not> dns \<Longrightarrow> pm_dns_query_name meta = []" by auto
  with assms meta have "(e, c') = (if dns
      then dns_from_packet_metadata (pk_urandom p) c meta (seconds (pk_sec p) + microseconds (pk_usec p)) iface
      else from_packet_metadata (pk_urandom p) c meta (seconds (pk_sec p) + microseconds (pk_usec p)) iface)"
    by (simp add: pcap_handler_def Let_def case_prod_unfold dns_def [symmetric] prod_eq_iff split: if_splits)
  moreover have "confidence_band (rnd (1/10)) = Weak" "confidence_band (rnd (2/10)) = Weak"
    by (simp_all add: confidence_band_def rnd_eval Let_def)
  ultimately show ?thesis
    using meta \<open>\<not> dns \<Longrightarrow> pm_dns_query_name meta = []\<close>
    by (cases dns)
      (auto simp: dns_from_packet_metadata_def from_packet_metadata_def random_uuid_def packet_network_def Let_def
        event_init_def network_init_def dns_def)
qed

end
