(* ===== verification/Ez_Server.thy ===== *)
theory Ez_Server
  imports Ez_Ipc Ez_Backends
begin

text \<open>
  \<^verbatim>\<open>src/ipc/unix_socket_server.cpp\<close>: the daemon's side of the socket.  The operations of the class
  (start, stop, one round of the accept loop and of a client loop, broadcast) change a record of its members.  The
  request handler is a parameter with its own state, which may raise an exception (\<^const>\<open>None\<close>); \<open>send_ok\<close> says which messages \<^verbatim>\<open>send_all\<close>
  transmits, and \<open>sv_sent\<close> records what was handed to the sockets.  A thread can also fail to come
  back: it blocks on a mutex it already holds, or an exception leaves its function.

  The lemmas show the bounds and the authorization of the clients for every sequence of
  operations, what each request leads to, who gets an event, and what two threads that send to the
  same client can do to its stream.
\<close>

datatype abnormal = Deadlock | Uncaught

record client =
  cl_uid :: u32
  cl_rx :: string
  cl_subs :: "string set"
  cl_out :: "string list"

record 'd server =
  sv_running :: bool
  sv_listen :: bool
  sv_accept_thread :: bool
  sv_clients :: "(int \<times> client) list"
  sv_dropped :: u64
  sv_daemon :: 'd
  sv_sent :: "(int \<times> string) list"

record 'd server_cfg =
  sc_parse :: "string \<Rightarrow> json option"
  sc_dump :: "json \<Rightarrow> string option"
  sc_handler :: "request \<Rightarrow> 'd \<Rightarrow> (response \<times> 'd) option"
  sc_send_ok :: "int \<Rightarrow> string \<Rightarrow> bool"
  sc_euid :: u32

section \<open>Sending\<close>

text \<open>\<^verbatim>\<open>send_all\<close> against the results of its calls of \<^verbatim>\<open>send\<close>; no result left is a call that has not returned.\<close>

datatype send_result = Sent nat | SendInterrupted | SendFailed

fun send_all :: "send_result list \<Rightarrow> string \<Rightarrow> nat \<Rightarrow> string \<Rightarrow> (bool \<times> string) option" where
  "send_all rs data sent wire =
     (if \<not> sent < length data then Some (True, wire)
      else case rs of
        [] \<Rightarrow> None
      | SendInterrupted # rs' \<Rightarrow> send_all rs' data sent wire
      | SendFailed # rs' \<Rightarrow> Some (False, wire)
      | Sent n # rs' \<Rightarrow> send_all rs' data (sent + n) (wire @ take n (drop sent data)))"

fun send_each :: "(string \<Rightarrow> bool) \<Rightarrow> string list \<Rightarrow> string list \<times> bool" where
  "send_each send_ok [] = ([], True)"
| "send_each send_ok (m # ms) =
     (if send_ok m then (let (sent, ok) = send_each send_ok ms in (m # sent, ok)) else ([], False))"

text \<open>\<open>locked\<close> says that the calling thread holds \<^verbatim>\<open>out_mutex\<close> already.\<close>

definition deliver ::
  "'d server_cfg \<Rightarrow> bool \<Rightarrow> int \<Rightarrow> string \<Rightarrow> client \<Rightarrow> 'd server \<Rightarrow> abnormal + client \<times> 'd server" where
  "deliver cfg locked fd encoded c s =
     (if locked then Inl Deadlock
      else if kMaxOutgoingQueue \<le> length (cl_out c)
        then Inr (c\<lparr>cl_out := []\<rparr>, s\<lparr>sv_dropped := sv_dropped s + 1\<rparr>)
      else let to_send = cl_out c @ [encoded @ [newline]];
               (sent, ok) = send_each (sc_send_ok cfg fd) to_send
           in Inr (c\<lparr>cl_out := []\<rparr>,
                s\<lparr>sv_sent := sv_sent s @ map (Pair fd) sent,
                  sv_dropped := (if ok then sv_dropped s else sv_dropped s + of_nat (length to_send))\<rparr>))"

definition deliver_encoded ::
  "'d server_cfg \<Rightarrow> bool \<Rightarrow> int \<Rightarrow> string option \<Rightarrow> client \<Rightarrow> 'd server \<Rightarrow> abnormal + client \<times> 'd server" where
  "deliver_encoded cfg locked fd encoded c s =
     (case encoded of None \<Rightarrow> Inl Uncaught | Some t \<Rightarrow> deliver cfg locked fd t c s)"

section \<open>Requests\<close>

definition update_subs :: "request \<Rightarrow> response \<Rightarrow> client \<Rightarrow> client" where
  "update_subs rq resp c =
     (if rq_operation rq = Subscribe \<and> rs_ok resp then c\<lparr>cl_subs := insert (rq_request_id rq) (cl_subs c)\<rparr>
      else if rq_operation rq = Unsubscribe then c\<lparr>cl_subs := cl_subs c - {rq_request_id rq}\<rparr>
      else c)"

definition answer ::
  "'d server_cfg \<Rightarrow> int \<Rightarrow> bool \<Rightarrow> string option \<Rightarrow> client \<Rightarrow> 'd server \<Rightarrow> abnormal + bool \<times> client \<times> 'd server" where
  "answer cfg fd locked encoded c s =
     res_bind (deliver_encoded cfg locked fd encoded c s) (\<lambda>(c, s). Inr (True, c, s))"

definition answer_error ::
  "'d server_cfg \<Rightarrow> int \<Rightarrow> bool \<Rightarrow> string \<Rightarrow> ipc_error \<Rightarrow> client \<Rightarrow> 'd server \<Rightarrow> abnormal + bool \<times> client \<times> 'd server" where
  "answer_error cfg fd locked request_id error c s =
     answer cfg fd locked (encode_error (sc_parse cfg) (sc_dump cfg) request_id error) c s"

definition handle_request ::
  "'d server_cfg \<Rightarrow> int \<Rightarrow> request \<Rightarrow> client \<Rightarrow> 'd server \<Rightarrow> abnormal + bool \<times> client \<times> 'd server" where
  "handle_request cfg fd rq c s =
     (if rq_operation rq = Subscribe \<and> kMaxSubscriptionsPerClient \<le> card (cl_subs c)
      then answer_error cfg fd True (rq_request_id rq)
             (ipc_err TooManySubscriptions ''subscription limit reached'') c s
      else if rq_operation rq = Shutdown
      then answer_error cfg fd False (rq_request_id rq)
             (ipc_err OperationNotAllowed ''shutdown must be issued by the service owner locally'') c s
      else case sc_handler cfg rq (sv_daemon s) of
             None \<Rightarrow> Inl Uncaught
           | Some (resp, d) \<Rightarrow> answer cfg fd False (encode_response (sc_parse cfg) (sc_dump cfg) resp)
                (update_subs rq resp c) (s\<lparr>sv_daemon := d\<rparr>))"

definition handle_frame ::
  "'d server_cfg \<Rightarrow> int \<Rightarrow> string \<Rightarrow> client \<Rightarrow> 'd server \<Rightarrow> abnormal + bool \<times> client \<times> 'd server" where
  "handle_frame cfg fd frame c s =
     (case parse_request (sc_parse cfg) (sc_dump cfg) frame kMaxRequestBytes of
        Inl error \<Rightarrow> answer_error cfg fd False [] error c s
      | Inr rq \<Rightarrow> handle_request cfg fd rq c s)"

fun handle_frames ::
  "'d server_cfg \<Rightarrow> int \<Rightarrow> string list \<Rightarrow> client \<Rightarrow> 'd server \<Rightarrow> abnormal + client \<times> 'd server" where
  "handle_frames cfg fd [] c s = Inr (c, s)"
| "handle_frames cfg fd (f # fs) c s =
     res_bind (handle_frame cfg fd f c s)
       (\<lambda>(go, c, s). if \<not> go then Inr (c, s\<lparr>sv_running := False\<rparr>) else handle_frames cfg fd fs c s)"

text \<open>One round of the client loop after a read of \<open>chunk\<close>; the flag says whether it goes on.\<close>

definition client_recv ::
  "'d server_cfg \<Rightarrow> int \<Rightarrow> string \<Rightarrow> client \<Rightarrow> 'd server \<Rightarrow> abnormal + bool \<times> client \<times> 'd server" where
  "client_recv cfg fd chunk c s =
     (case split_frames kMaxRequestBytes (cl_rx c @ chunk) of
        Inl err \<Rightarrow>
          res_bind (answer_error cfg fd False [] err c s) (\<lambda>(_, c, s). Inr (False, c, s))
      | Inr (frames, rest) \<Rightarrow>
          res_bind (handle_frames cfg fd frames (c\<lparr>cl_rx := rest\<rparr>) s) (\<lambda>(c, s). Inr (sv_running s, c, s)))"

section \<open>The server\<close>

definition client_init :: "u32 \<Rightarrow> client" where
  "client_init uid = \<lparr>cl_uid = uid, cl_rx = [], cl_subs = {}, cl_out = []\<rparr>"

definition drop_client :: "int \<Rightarrow> 'd server \<Rightarrow> 'd server" where
  "drop_client fd s = s\<lparr>sv_clients := filter (\<lambda>(k, _). k \<noteq> fd) (sv_clients s)\<rparr>"

text \<open>
  One accepted connection: \<open>peer\<close> is the user id of \<^verbatim>\<open>SO_PEERCRED\<close>, \<^const>\<open>None\<close> when
  \<^verbatim>\<open>getsockopt\<close> fails, and \<open>thread_ok\<close> says whether the thread could be made.
\<close>

definition peer_authorized :: "u32 \<Rightarrow> u32 option \<Rightarrow> bool" where
  "peer_authorized euid peer = (case peer of None \<Rightarrow> False | Some uid \<Rightarrow> uid = euid)"

definition accept_client :: "'d server_cfg \<Rightarrow> int \<Rightarrow> u32 option \<Rightarrow> bool \<Rightarrow> 'd server \<Rightarrow> 'd server" where
  "accept_client cfg fd peer thread_ok s =
     (if \<not> peer_authorized (sc_euid cfg) peer then s
      else if kMaxClients \<le> length (sv_clients s) then s
      else let s = s\<lparr>sv_clients := obj_set fd (client_init (the peer)) (sv_clients s)\<rparr>
           in if thread_ok then s else drop_client fd s)"

definition client_round :: "'d server_cfg \<Rightarrow> int \<Rightarrow> string \<Rightarrow> 'd server \<Rightarrow> abnormal + 'd server" where
  "client_round cfg fd chunk s =
     (case map_of (sv_clients s) fd of
        None \<Rightarrow> Inr s
      | Some c \<Rightarrow>
          if chunk = [] then Inr (drop_client fd s)
          else res_bind (client_recv cfg fd chunk c s)
            (\<lambda>(go, c, s). Inr (if go then s\<lparr>sv_clients := obj_set fd c (sv_clients s)\<rparr> else drop_client fd s)))"

fun deliver_to :: "'d server_cfg \<Rightarrow> string \<Rightarrow> (int \<times> client) list \<Rightarrow> 'd server \<Rightarrow> abnormal + 'd server" where
  "deliver_to cfg encoded [] s = Inr s"
| "deliver_to cfg encoded ((fd, c) # cs) s =
     res_bind (deliver cfg False fd encoded c s)
       (\<lambda>(c, s). deliver_to cfg encoded cs (s\<lparr>sv_clients := obj_set fd c (sv_clients s)\<rparr>))"

definition broadcast :: "'d server_cfg \<Rightarrow> event \<Rightarrow> 'd server \<Rightarrow> abnormal + 'd server" where
  "broadcast cfg e s =
     (let subscribers = filter (\<lambda>(fd, c). cl_subs c \<noteq> {}) (sv_clients s)
      in case encode_event (sc_dump cfg) e of
           None \<Rightarrow> Inl Uncaught
         | Some encoded \<Rightarrow> deliver_to cfg encoded subscribers s)"

section \<open>Start and stop\<close>

datatype lstat_result = LMissing | LFailed string | LDir | LSock | LOther
datatype mkdir_result = MkOk | MkExists | MkFailed string

text \<open>The results of the calls of a start, in their order.\<close>

record server_env =
  ve_dir :: lstat_result
  ve_mkdir :: mkdir_result
  ve_dir_after :: lstat_result
  ve_path :: lstat_result
  ve_unlink_ok :: bool
  ve_socket_ok :: bool
  ve_bind :: "string option"
  ve_listen_ok :: bool

definition kDefaultSocketPath :: string where "kDefaultSocketPath = ''/run/ezcap/ezcap.sock''"

definition ensure_default_socket_directory :: "server_env \<Rightarrow> string + unit" where
  "ensure_default_socket_directory env =
     (case ve_dir env of
        LDir \<Rightarrow> Inr ()
      | LSock \<Rightarrow> Inl ''default socket directory exists but is not a directory''
      | LOther \<Rightarrow> Inl ''default socket directory exists but is not a directory''
      | LFailed e \<Rightarrow> Inl (''could not inspect default socket directory: '' @ e)
      | LMissing \<Rightarrow>
          (case ve_mkdir env of
             MkFailed e \<Rightarrow> Inl (''could not create default socket directory: '' @ e)
           | _ \<Rightarrow> if ve_dir_after env \<noteq> LDir then Inl ''default socket directory could not be verified''
                  else Inr ()))"

text \<open>The path is bound only when nothing is there or a stale socket could be removed.\<close>

definition remove_stale_socket :: "server_env \<Rightarrow> string + unit" where
  "remove_stale_socket env =
     (case ve_path env of
        LMissing \<Rightarrow> Inr ()
      | LFailed _ \<Rightarrow> Inr ()
      | LSock \<Rightarrow> if \<not> ve_unlink_ok env then Inl ''failed to remove stale socket'' else Inr ()
      | _ \<Rightarrow> Inl ''socket path exists and is not a socket'')"

definition bind_socket :: "string \<Rightarrow> server_env \<Rightarrow> string + unit" where
  "bind_socket socket_path env =
     res_bind (if socket_path = kDefaultSocketPath then ensure_default_socket_directory env else Inr ()) (\<lambda>_.
     res_bind (remove_stale_socket env) (\<lambda>_.
     res_bind (guard (\<not> ve_socket_ok env) ''socket creation failed'') (\<lambda>_.
     res_bind (guard (108 \<le> length socket_path) ''socket path too long'') (\<lambda>_.
     res_bind (case ve_bind env of Some e \<Rightarrow> Inl (''bind failed: '' @ e) | None \<Rightarrow> Inr ()) (\<lambda>_.
     guard (\<not> ve_listen_ok env) ''listen failed'')))))"

definition server_start :: "string \<Rightarrow> (server_env, 'd server) backend_start" where
  "server_start socket_path env s =
     (if sv_running s then Some (s, Inr ())
      else case bind_socket socket_path env of
             Inl e \<Rightarrow> Some (s\<lparr>sv_listen := False\<rparr>, Inl e)
           | Inr _ \<Rightarrow> if sv_accept_thread s then None
                      else Some (s\<lparr>sv_listen := True, sv_running := True, sv_accept_thread := True\<rparr>, Inr ()))"

definition server_stop :: "'d server \<Rightarrow> 'd server" where
  "server_stop s = (if \<not> sv_running s then s
     else s\<lparr>sv_running := False, sv_listen := False, sv_accept_thread := False, sv_clients := []\<rparr>)"

definition server_init :: "'d \<Rightarrow> 'd server" where
  "server_init d = \<lparr>sv_running = False, sv_listen = False, sv_accept_thread = False, sv_clients = [],
     sv_dropped = 0, sv_daemon = d, sv_sent = []\<rparr>"

definition server_idle :: "'d server \<Rightarrow> bool" where
  "server_idle s \<longleftrightarrow> \<not> sv_running s \<and> \<not> sv_listen s \<and> \<not> sv_accept_thread s \<and> sv_clients s = []"

interpretation ipc_server: capture_backend "server_start path" server_stop sv_running server_idle
proof
  fix s :: "'d server" and env assume "server_idle s"
  then show "\<exists>s' r. server_start path env s = Some (s', r) \<and> (if is_ok r then sv_running s' else server_idle s')"
    by (cases "bind_socket path env") (auto simp: server_start_def server_idle_def)
qed (auto simp: server_start_def server_stop_def server_idle_def)

section \<open>Sequences of operations\<close>

text \<open>
  A thread that does not come back changes nothing further.
\<close>

datatype server_op =
    SvAccept int "u32 option" bool
  | SvRecv int string
  | SvBroadcast event
  | SvStart string server_env
  | SvStop

definition settle :: "'d server \<Rightarrow> abnormal + 'd server \<Rightarrow> 'd server" where
  "settle s r = (case r of Inl _ \<Rightarrow> s | Inr s' \<Rightarrow> s')"

fun server_step :: "'d server_cfg \<Rightarrow> server_op \<Rightarrow> 'd server \<Rightarrow> 'd server" where
  "server_step cfg (SvAccept fd peer thread_ok) s = (if sv_running s then accept_client cfg fd peer thread_ok s else s)"
| "server_step cfg (SvRecv fd chunk) s = settle s (client_round cfg fd chunk s)"
| "server_step cfg (SvBroadcast e) s = settle s (broadcast cfg e s)"
| "server_step cfg (SvStart path env) s = (case server_start path env s of None \<Rightarrow> s | Some (s', _) \<Rightarrow> s')"
| "server_step cfg SvStop s = server_stop s"

definition client_ok :: "'d server_cfg \<Rightarrow> client \<Rightarrow> bool" where
  "client_ok cfg c \<longleftrightarrow> cl_uid c = sc_euid cfg \<and> finite (cl_subs c) \<and> card (cl_subs c) \<le> kMaxSubscriptionsPerClient
     \<and> cl_out c = [] \<and> length (cl_rx c) < kMaxRequestBytes"

definition server_ok :: "'d server_cfg \<Rightarrow> 'd server \<Rightarrow> bool" where
  "server_ok cfg s \<longleftrightarrow> length (sv_clients s) \<le> kMaxClients \<and> sorted (map fst (sv_clients s))
     \<and> distinct (map fst (sv_clients s)) \<and> list_all (\<lambda>(fd, c). client_ok cfg c) (sv_clients s)"

lemma deliver_keeps:
  "deliver cfg locked fd t c s = Inr (c', s') \<Longrightarrow>
     c' = c\<lparr>cl_out := []\<rparr> \<and> sv_clients s' = sv_clients s \<and> sv_running s' = sv_running s \<and> sv_daemon s' = sv_daemon s"
  by (auto simp: deliver_def Let_def split: if_splits prod.splits)

lemma answer_keeps:
  "answer cfg fd locked t c s = Inr (go, c', s') \<Longrightarrow>
     go \<and> c' = c\<lparr>cl_out := []\<rparr> \<and> sv_clients s' = sv_clients s \<and> sv_running s' = sv_running s \<and> sv_daemon s' = sv_daemon s"
  by (auto simp: answer_def deliver_encoded_def res_simps dest!: deliver_keeps split: option.splits)

lemma update_subs_ok:
  "client_ok cfg c \<Longrightarrow> \<not> (rq_operation rq = Subscribe \<and> kMaxSubscriptionsPerClient \<le> card (cl_subs c)) \<Longrightarrow>
     client_ok cfg (update_subs rq resp c)"
  using card_insert_le_m1 [of kMaxSubscriptionsPerClient "cl_subs c" "rq_request_id rq"]
    card_mono [of "cl_subs c" "cl_subs c - {rq_request_id rq}"]
  by (auto simp: client_ok_def update_subs_def card_insert_if)

lemma handle_request_keeps:
  assumes "handle_request cfg fd rq c s = Inr (go, c', s')" "client_ok cfg c"
  shows "go \<and> client_ok cfg c' \<and> cl_rx c' = cl_rx c \<and> sv_clients s' = sv_clients s \<and> sv_running s' = sv_running s"
proof -
  have ok: "client_ok cfg x \<Longrightarrow> client_ok cfg (x\<lparr>cl_out := []\<rparr>)" for x by (simp add: client_ok_def)
  have rx: "cl_rx (update_subs rq resp c) = cl_rx c" for resp by (simp add: update_subs_def)
  show ?thesis
    using assms update_subs_ok [OF assms(2), of rq] ok rx
    by (auto simp: handle_request_def answer_error_def Let_def dest!: answer_keeps split: if_splits prod.splits option.splits)
qed

lemma handle_frame_keeps:
  "handle_frame cfg fd f c s = Inr (go, c', s') \<Longrightarrow> client_ok cfg c \<Longrightarrow>
     go \<and> client_ok cfg c' \<and> cl_rx c' = cl_rx c \<and> sv_clients s' = sv_clients s \<and> sv_running s' = sv_running s"
  by (auto simp: handle_frame_def answer_error_def client_ok_def dest!: answer_keeps handle_request_keeps split: sum.splits)

lemma handle_frames_keep:
  "handle_frames cfg fd fs c s = Inr (c', s') \<Longrightarrow> client_ok cfg c \<Longrightarrow>
     client_ok cfg c' \<and> cl_rx c' = cl_rx c \<and> sv_clients s' = sv_clients s \<and> sv_running s' = sv_running s"
proof (induction fs arbitrary: c s)
  case (Cons f fs)
  then obtain go c1 s1 where h: "handle_frame cfg fd f c s = Inr (go, c1, s1)"
    and r: "(if \<not> go then Inr (c1, s1\<lparr>sv_running := False\<rparr>) else handle_frames cfg fd fs c1 s1) = Inr (c', s')"
    by (auto simp: res_simps)
  from handle_frame_keeps [OF h Cons.prems(2)] Cons.IH [of c1 s1] r show ?case by auto
qed simp

lemma client_recv_keeps:
  assumes "client_recv cfg fd chunk c s = Inr (go, c', s')" "client_ok cfg c"
  shows "(go \<longrightarrow> client_ok cfg c') \<and> sv_clients s' = sv_clients s"
proof (cases "split_frames kMaxRequestBytes (cl_rx c @ chunk)")
  case (Inl e)
  then show ?thesis
    using assms by (auto simp: client_recv_def answer_error_def res_simps dest!: answer_keeps)
next
  case (Inr x)
  obtain frames rest where x: "x = (frames, rest)" by fastforce
  have "length rest < kMaxRequestBytes" using Inr x by (metis codec.feed_iff snd_conv)
  then have "client_ok cfg (c\<lparr>cl_rx := rest\<rparr>)" using assms(2) by (simp add: client_ok_def)
  then show ?thesis
    using assms(1) Inr x by (auto simp: client_recv_def res_simps dest!: handle_frames_keep)
qed

lemma server_ok_cong: "sv_clients s' = sv_clients s \<Longrightarrow> server_ok cfg s' = server_ok cfg s"
  by (simp add: server_ok_def)

lemma length_obj_set:
  "length (obj_set k v kvs) \<le> length kvs + 1" "k \<in> fst ` set kvs \<Longrightarrow> sorted (map fst kvs) \<Longrightarrow> length (obj_set k v kvs) = length kvs"
  by (induction kvs) force+

lemma server_ok_set:
  assumes "server_ok cfg s" "client_ok cfg c" "fd \<in> fst ` set (sv_clients s) \<or> length (sv_clients s) < kMaxClients"
  shows "server_ok cfg (s\<lparr>sv_clients := obj_set fd c (sv_clients s)\<rparr>)"
proof -
  have sd: "sorted (map fst (sv_clients s)) \<and> distinct (map fst (sv_clients s))" using assms(1) by (simp add: server_ok_def)
  have "length (sv_clients s) \<le> kMaxClients" using assms(1) by (simp add: server_ok_def)
  then have "length (obj_set fd c (sv_clients s)) \<le> kMaxClients"
    using assms(3) length_obj_set(1) [of fd c "sv_clients s"] length_obj_set(2) [of fd "sv_clients s" c] sd
    by linarith
  moreover have "list_all (\<lambda>(fd, c). client_ok cfg c) (obj_set fd c (sv_clients s))"
    using assms(1,2) set_obj_set [of fd c "sv_clients s"] by (fastforce simp: server_ok_def list_all_iff)
  ultimately show ?thesis using sorted_obj_set [OF sd, of fd c] by (simp add: server_ok_def)
qed

lemma server_ok_drop: "server_ok cfg s \<Longrightarrow> server_ok cfg (drop_client fd s)"
proof -
  assume ok: "server_ok cfg s"
  have "length (filter (\<lambda>(k, _). k \<noteq> fd) (sv_clients s)) \<le> kMaxClients"
    by (rule le_trans [OF length_filter_le]) (use ok in \<open>simp add: server_ok_def\<close>)
  moreover have "map fst (filter (\<lambda>(k, _). k \<noteq> fd) xs) = filter (\<lambda>k. k \<noteq> fd) (map fst xs)" for xs :: "(int \<times> client) list"
    by (induction xs) auto
  ultimately show ?thesis using ok
    by (auto simp: server_ok_def drop_client_def list_all_iff sorted_wrt_filter intro: le_trans)
qed

lemma accept_ok: "server_ok cfg s \<Longrightarrow> server_ok cfg (accept_client cfg fd peer t s)"
proof -
  assume ok: "server_ok cfg s"
  have "client_ok cfg (client_init uid)" if "uid = sc_euid cfg" for uid
    using that by (simp add: client_ok_def client_init_def kMaxRequestBytes_def)
  then show ?thesis
    using ok by (auto simp: accept_client_def peer_authorized_def Let_def intro!: server_ok_drop server_ok_set
        split: option.splits)
qed

lemma client_of: "server_ok cfg s \<Longrightarrow> map_of (sv_clients s) fd = Some c \<Longrightarrow> client_ok cfg c \<and> fd \<in> fst ` set (sv_clients s)"
  by (force simp: server_ok_def list_all_iff dest!: map_of_SomeD)

lemma client_round_ok:
  assumes "client_round cfg fd chunk s = Inr s'" "server_ok cfg s"
  shows "server_ok cfg s'"
proof (cases "map_of (sv_clients s) fd")
  case (Some c)
  note c = client_of [OF assms(2) Some]
  show ?thesis
  proof (cases "chunk = []")
    case True
    with assms Some show ?thesis by (auto simp: client_round_def server_ok_drop)
  next
    case False
    with assms(1) Some obtain go c' s1 where r: "client_recv cfg fd chunk c s = Inr (go, c', s1)"
      and s': "s' = (if go then s1\<lparr>sv_clients := obj_set fd c' (sv_clients s1)\<rparr> else drop_client fd s1)"
      by (auto simp: client_round_def res_simps)
    from client_recv_keeps [OF r] c have k: "go \<Longrightarrow> client_ok cfg c'" "sv_clients s1 = sv_clients s" by auto
    have "server_ok cfg s1" using k(2) assms(2) by (simp add: server_ok_def)
    then show ?thesis using k c s' server_ok_set [of cfg s1 c' fd] server_ok_drop [of cfg s1 fd] by auto
  qed
qed (use assms in \<open>simp add: client_round_def\<close>)

lemma deliver_to_ok:
  "deliver_to cfg t cs s = Inr s' \<Longrightarrow> server_ok cfg s \<Longrightarrow> list_all (\<lambda>(fd, c). client_ok cfg c \<and> fd \<in> fst ` set (sv_clients s)) cs
     \<Longrightarrow> server_ok cfg s'"
proof (induction cs arbitrary: s)
  case (Cons x cs)
  obtain fd c where x: "x = (fd, c)" by fastforce
  from Cons.prems(1) x obtain c1 s1 where d: "deliver cfg False fd t c s = Inr (c1, s1)"
    and r: "deliver_to cfg t cs (s1\<lparr>sv_clients := obj_set fd c1 (sv_clients s1)\<rparr>) = Inr s'"
    by (auto simp: res_simps)
  note k = deliver_keeps [OF d]
  have c: "client_ok cfg c" "fd \<in> fst ` set (sv_clients s)" using Cons.prems(3) x by simp_all
  have "client_ok cfg c1" using k c(1) by (simp add: client_ok_def)
  moreover have "server_ok cfg s1" "fd \<in> fst ` set (sv_clients s1)" using k Cons.prems(2) c(2) by (simp_all add: server_ok_def)
  ultimately have "server_ok cfg (s1\<lparr>sv_clients := obj_set fd c1 (sv_clients s1)\<rparr>)" by (intro server_ok_set) auto
  with Cons.IH [OF r] Cons.prems(3) k x show ?case by (auto simp: list_all_iff)
qed simp

lemma broadcast_ok: "broadcast cfg e s = Inr s' \<Longrightarrow> server_ok cfg s \<Longrightarrow> server_ok cfg s'"
  by (rule deliver_to_ok [of cfg "the (encode_event (sc_dump cfg) e)" "filter (\<lambda>(fd, c). cl_subs c \<noteq> {}) (sv_clients s)" s])
    (force simp: broadcast_def Let_def server_ok_def list_all_iff split: option.splits)+

interpretation server_ops: step_invariant "server_step cfg" "server_ok cfg"
proof
  fix s op assume ok: "server_ok cfg s"
  show "server_ok cfg (server_step cfg op s)"
  proof (cases op)
    case (SvAccept fd peer t)
    then show ?thesis using accept_ok [OF ok] ok by simp
  next
    case (SvRecv fd chunk)
    then show ?thesis using ok client_round_ok by (auto simp: settle_def split: sum.splits)
  next
    case (SvBroadcast e)
    then show ?thesis using ok broadcast_ok by (auto simp: settle_def split: sum.splits)
  next
    case (SvStart path env)
    have "server_start path env s = Some (s', r) \<Longrightarrow> sv_clients s' = sv_clients s" for s' r
      by (auto simp: server_start_def split: if_splits sum.splits)
    then show ?thesis using ok SvStart by (auto simp: server_ok_def split: option.splits)
  next
    case SvStop
    then show ?thesis using ok by (simp add: server_stop_def server_ok_def)
  qed
qed

text \<open>
  C4: after every sequence of starts, stops, connections, reads and broadcasts the server has at
  most 16 clients, all with the user id of the daemon, each with at most 8 subscriptions, no
  message left in its outgoing queue and less than one request of unread input.
\<close>

theorem server_bounded: "server_ok cfg (fold (server_step cfg) ops (server_init d))"
  by (rule server_ops.run_keeps) (simp add: server_ok_def server_init_def)

section \<open>What a frame leads to\<close>

lemma answer_returns:
  assumes "\<And>j. dump j \<noteq> None" "sc_dump cfg = dump"
  shows "\<exists>c' s'. answer_error cfg fd False i err c s = Inr (True, c', s')"
    "\<exists>c' s'. answer cfg fd False (encode_response (sc_parse cfg) dump resp) c s = Inr (True, c', s')"
  using assms(1) [of "response_json (sc_parse cfg) resp"]
    assms(1) [of "response_json (sc_parse cfg) (response_init\<lparr>rs_request_id := i, rs_ok := False, rs_error := err\<rparr>)"]
  by (auto simp: answer_error_def answer_def deliver_encoded_def encode_error_def encode_response_def assms(2)
      deliver_def Let_def case_prod_unfold)

lemma answer_locked:
  assumes "\<And>j. dump j \<noteq> None" "sc_dump cfg = dump"
  shows "answer_error cfg fd True i err c s = Inl Deadlock"
  using assms(1) [of "response_json (sc_parse cfg) (response_init\<lparr>rs_request_id := i, rs_ok := False, rs_error := err\<rparr>)"]
  by (auto simp: answer_error_def answer_def deliver_encoded_def encode_error_def encode_response_def assms(2) deliver_def)


definition sample_cfg :: "unit server_cfg" where
  "sample_cfg = \<lparr>sc_parse = (\<lambda>_. None), sc_dump = (\<lambda>_. Some ''x''),
     sc_handler = (\<lambda>rq d. Some (response_init\<lparr>rs_ok := True\<rparr>, d)), sc_send_ok = (\<lambda>_ _. True), sc_euid = 1000\<rparr>"


section \<open>Who gets an event\<close>

lemma obj_set_same: "map_of kvs k = Some v \<Longrightarrow> sorted (map fst kvs) \<Longrightarrow> obj_set k v kvs = kvs"
proof (induction kvs)
  case (Cons x kvs)
  obtain a b where x: "x = (a, b)" by fastforce
  show ?case
  proof (cases "k = a")
    case False
    with Cons.prems x have m: "map_of kvs k = Some v" by simp
    then have "a \<le> k" using Cons.prems(2) x by (force dest: map_of_SomeD)
    with False m Cons x show ?thesis by simp
  qed (use Cons.prems x in simp)
qed simp

lemma deliver_single:
  "cl_out c = [] \<Longrightarrow> deliver cfg False fd t c s = Inr (c,
     if sc_send_ok cfg fd (t @ [newline]) then s\<lparr>sv_sent := sv_sent s @ [(fd, t @ [newline])]\<rparr>
     else s\<lparr>sv_dropped := sv_dropped s + 1\<rparr>)"
  by (simp add: deliver_def Let_def kMaxOutgoingQueue_def)

lemma deliver_to_exact:
  "\<forall>(fd, c)\<in>set cs. map_of (sv_clients s) fd = Some c \<and> cl_out c = [] \<Longrightarrow> sorted (map fst (sv_clients s)) \<Longrightarrow>
     deliver_to cfg t cs s = Inr (s\<lparr>
       sv_sent := sv_sent s @ map (\<lambda>(fd, c). (fd, t @ [newline])) (filter (\<lambda>(fd, c). sc_send_ok cfg fd (t @ [newline])) cs),
       sv_dropped := sv_dropped s + of_nat (length (filter (\<lambda>(fd, c). \<not> sc_send_ok cfg fd (t @ [newline])) cs))\<rparr>)"
proof (induction cs arbitrary: s)
  case (Cons x cs)
  obtain fd c where x: "x = (fd, c)" by fastforce
  have "obj_set fd c (sv_clients s) = sv_clients s" using Cons.prems x by (auto intro: obj_set_same)
  then show ?case using Cons.prems Cons.IH x by (auto simp: deliver_single add.commute add.left_commute)
qed simp

text \<open>
  An event is sent once to each client that has a subscription, in the order of the
  descriptors, and to nobody else; a client whose socket fails costs one dropped event and
  does not keep it from the others.
\<close>

theorem broadcast_exact:
  assumes "server_ok cfg s" "encode_event (sc_dump cfg) e = Some t"
  defines "subs \<equiv> filter (\<lambda>(fd, c). cl_subs c \<noteq> {}) (sv_clients s)"
  shows "broadcast cfg e s = Inr (s\<lparr>
       sv_sent := sv_sent s @ map (\<lambda>(fd, c). (fd, t @ [newline])) (filter (\<lambda>(fd, c). sc_send_ok cfg fd (t @ [newline])) subs),
       sv_dropped := sv_dropped s + of_nat (length (filter (\<lambda>(fd, c). \<not> sc_send_ok cfg fd (t @ [newline])) subs))\<rparr>)"
proof -
  have "\<forall>(fd, c)\<in>set subs. map_of (sv_clients s) fd = Some c \<and> cl_out c = []"
    using assms(1) by (auto simp: subs_def server_ok_def client_ok_def list_all_iff)
  then show ?thesis
    using assms(1,2) by (simp add: broadcast_def Let_def subs_def [symmetric] deliver_to_exact server_ok_def)
qed

section \<open>Two threads on one client\<close>

text \<open>What \<^verbatim>\<open>send_all\<close> transmits when it succeeds is the message.\<close>

lemma send_all_sends:
  "send_all rs data sent wire = Some (True, w) \<Longrightarrow> wire = take sent data \<Longrightarrow> w = data"
proof (induction rs data sent wire rule: send_all.induct)
  case (1 rs data sent wire)
  show ?case
  proof (cases "sent < length data")
    case True
    with 1 show ?thesis
      by (subst (asm) send_all.simps)
        (auto simp: take_add [symmetric] simp del: send_all.simps split: list.splits send_result.splits)
  qed (use 1 in auto)
qed

text \<open>
  The reader thread of a client and the thread that broadcasts both call \<^verbatim>\<open>deliver\<close>.  The queue is
  under a mutex, the sends are not: the steps are the two critical sections and each call of
  \<^verbatim>\<open>send\<close>.  \<open>whole\<close> says that a call transmits all it is given.
\<close>

datatype phase = SIdle | SPushed | SSending "string list"

record conn =
  cn_queue :: "string list"
  cn_phase :: "nat \<Rightarrow> phase"
  cn_wire :: string

inductive conn_step :: "bool \<Rightarrow> string set \<Rightarrow> conn \<Rightarrow> conn \<Rightarrow> bool" for whole :: bool and M :: "string set" where
  push: "cn_phase s t = SIdle \<Longrightarrow> length (cn_queue s) < kMaxOutgoingQueue \<Longrightarrow> m \<in> M \<Longrightarrow>
    conn_step whole M s (s\<lparr>cn_queue := cn_queue s @ [m], cn_phase := (cn_phase s)(t := SPushed)\<rparr>)"
| overflow: "cn_phase s t = SIdle \<Longrightarrow> kMaxOutgoingQueue \<le> length (cn_queue s) \<Longrightarrow>
    conn_step whole M s (s\<lparr>cn_queue := []\<rparr>)"
| swap: "cn_phase s t = SPushed \<Longrightarrow>
    conn_step whole M s (s\<lparr>cn_queue := [], cn_phase := (cn_phase s)(t := SSending (cn_queue s))\<rparr>)"
| send: "cn_phase s t = SSending (m # ms) \<Longrightarrow> n \<le> length m \<Longrightarrow> (whole \<longrightarrow> n = length m) \<Longrightarrow>
    conn_step whole M s (s\<lparr>cn_wire := cn_wire s @ take n m,
      cn_phase := (cn_phase s)(t := SSending (if n = length m then ms else drop n m # ms))\<rparr>)"
| finish: "cn_phase s t = SSending [] \<Longrightarrow> conn_step whole M s (s\<lparr>cn_phase := (cn_phase s)(t := SIdle)\<rparr>)"

inductive_cases conn_stepE: "conn_step whole M s s'"

definition conn_init :: conn where
  "conn_init = \<lparr>cn_queue = [], cn_phase = (\<lambda>_. SIdle), cn_wire = []\<rparr>"

definition conn_inv :: "string set \<Rightarrow> conn \<Rightarrow> bool" where
  "conn_inv M s \<longleftrightarrow> length (cn_queue s) \<le> kMaxOutgoingQueue \<and> set (cn_queue s) \<subseteq> M
     \<and> (\<forall>t ms. cn_phase s t = SSending ms \<longrightarrow> set ms \<subseteq> M) \<and> (\<exists>ms. set ms \<subseteq> M \<and> cn_wire s = concat ms)"

lemma conn_step_inv: "conn_step True M s s' \<Longrightarrow> conn_inv M s \<Longrightarrow> conn_inv M s'"
proof (induction rule: conn_step.induct)
  case (send s t m ms n)
  obtain ws where "set ws \<subseteq> M" "cn_wire s = concat ws" using send.prems by (auto simp: conn_inv_def)
  moreover have "set (m # ms) \<subseteq> M" using send.prems send.hyps(1) unfolding conn_inv_def by blast
  ultimately have "\<exists>ws. set ws \<subseteq> M \<and> cn_wire s @ m = concat ws" by (intro exI [of _ "ws @ [m]"]) simp
  with send \<open>set (m # ms) \<subseteq> M\<close> show ?case by (auto simp: conn_inv_def)
qed (auto simp: conn_inv_def)

text \<open>
  As long as every call of send transmits the whole message, any interleaving of the threads
  that answer and broadcast to one client keeps its queue within 1024 messages and its stream a
  sequence of whole messages.
\<close>

theorem stream_of_messages:
  assumes "(conn_step True M)\<^sup>*\<^sup>* conn_init s"
  shows "length (cn_queue s) \<le> kMaxOutgoingQueue \<and> (\<exists>ms. set ms \<subseteq> M \<and> cn_wire s = concat ms)"
proof -
  have "conn_inv M s" using assms
  proof (induction rule: rtranclp_induct)
    case base
    show ?case by (auto simp: conn_inv_def conn_init_def intro: exI [of _ "[]"])
  qed (rule conn_step_inv)
  then show ?thesis by (simp add: conn_inv_def)
qed

text \<open>Without it two messages can end up inside each other.\<close>

lemma stream_interleaves:
  "\<exists>s. (conn_step False {''ab'', ''cd''})\<^sup>*\<^sup>* conn_init s \<and> cn_wire s = ''acdb''"
proof -
  let ?R = "conn_step False {''ab'', ''cd''}"
  define s1 where "s1 = conn_init\<lparr>cn_queue := [''ab''], cn_phase := (\<lambda>_. SIdle)(0 := SPushed)\<rparr>"
  define s2 where "s2 = s1\<lparr>cn_queue := [], cn_phase := (\<lambda>_. SIdle)(0 := SSending [''ab''])\<rparr>"
  define s3 where "s3 = s2\<lparr>cn_wire := ''a'', cn_phase := (\<lambda>_. SIdle)(0 := SSending [''b''])\<rparr>"
  define s4 where "s4 = s3\<lparr>cn_queue := [''cd''], cn_phase := (\<lambda>_. SIdle)(0 := SSending [''b''], 1 := SPushed)\<rparr>"
  define s5 where "s5 = s4\<lparr>cn_queue := [], cn_phase := (\<lambda>_. SIdle)(0 := SSending [''b''], 1 := SSending [''cd''])\<rparr>"
  define s6 where "s6 = s5\<lparr>cn_wire := ''acd'', cn_phase := (\<lambda>_. SIdle)(0 := SSending [''b''], 1 := SSending [])\<rparr>"
  define s7 where "s7 = s6\<lparr>cn_wire := ''acdb'', cn_phase := (\<lambda>_. SIdle)(0 := SSending [], 1 := SSending [])\<rparr>"
  note defs = s1_def s2_def s3_def s4_def s5_def s6_def s7_def conn_init_def
  have "?R conn_init s1" using push [of conn_init 0 "''ab''" "{''ab'', ''cd''}" False] by (simp add: defs kMaxOutgoingQueue_def)
  moreover have "?R s1 s2" using swap [of s1 0 False "{''ab'', ''cd''}"] by (simp add: defs)
  moreover have "?R s2 s3" using send [of s2 0 "''ab''" "[]" 1 False "{''ab'', ''cd''}"] by (simp add: defs)
  moreover have "?R s3 s4" using push [of s3 1 "''cd''" "{''ab'', ''cd''}" False] by (simp add: defs kMaxOutgoingQueue_def fun_upd_twist)
  moreover have "?R s4 s5" using swap [of s4 1 False "{''ab'', ''cd''}"] by (simp add: defs)
  moreover have "?R s5 s6" using send [of s5 1 "''cd''" "[]" 2 False "{''ab'', ''cd''}"] by (simp add: defs)
  moreover have "?R s6 s7" using send [of s6 0 "''b''" "[]" 1 False "{''ab'', ''cd''}"] by (simp add: defs fun_upd_twist)
  ultimately have "?R\<^sup>*\<^sup>* conn_init s7" by (meson converse_rtranclp_into_rtranclp rtranclp.rtrancl_refl)
  then show ?thesis by (intro exI [of _ s7]) (simp add: defs)
qed

end
