(* ===== verification/Ez_NativeIo.thy ===== *)
theory Ez_NativeIo
  imports Ez_Server
begin

text \<open>
  \<^verbatim>\<open>native_host/src/message_reader.cpp\<close> and \<^verbatim>\<open>message_writer.cpp\<close>: the frames between the browser and the
  native host, a little endian length and that many bytes of UTF-8.  What the calls of \<^verbatim>\<open>read\<close>
  deliver is a list of results whose end is the end of the stream; a result longer than
  the call asked for keeps its rest for the next call.

  The theorem is the round trip: a written frame is read back however the stream is cut.
\<close>

section \<open>Reading\<close>

datatype read_result = RData string | RInterrupted | RFailed

definition char_u8 :: "char \<Rightarrow> u8" where "char_u8 c = of_nat (code_of c)"
definition u8_char :: "u8 \<Rightarrow> char" where "u8_char b = char_of (unat b)"

lemma u8_char_inverse [simp]: "u8_char (char_u8 c) = c"
  by (simp add: u8_char_def char_u8_def unat_of_nat)

lemma char_u8_inverse [simp]: "char_u8 (u8_char b) = b"
  by (simp only: u8_char_def char_u8_def char_of_u8) simp

fun read_exact :: "read_result list \<Rightarrow> nat \<Rightarrow> string \<Rightarrow> (string \<times> read_result list) option" where
  "read_exact rs count got =
     (if \<not> length got < count then Some (got, rs)
      else case rs of
        [] \<Rightarrow> None
      | RInterrupted # rs' \<Rightarrow> read_exact rs' count got
      | RFailed # rs' \<Rightarrow> None
      | RData s # rs' \<Rightarrow>
          if s = [] then None
          else if length s \<le> count - length got then read_exact rs' count (got @ s)
          else Some (got @ take (count - length got) s, RData (drop (count - length got) s) # rs'))"

declare read_exact.simps [simp del]

definition kMaxMessageBytes :: u32 where "kMaxMessageBytes = 1024 * 1024"

definition prefix_length :: "string \<Rightarrow> u32" where
  "prefix_length p = ucast (char_u8 (p ! 0)) OR push_bit 8 (ucast (char_u8 (p ! 1)))
     OR push_bit 16 (ucast (char_u8 (p ! 2))) OR push_bit 24 (ucast (char_u8 (p ! 3)))"

text \<open>The number of continuation bytes the first byte of a sequence announces.\<close>

definition utf8_extra :: "u8 \<Rightarrow> nat option" where
  "utf8_extra c =
     (if c < 0x80 then Some 0
      else if c AND 0xE0 = 0xC0 then Some 1
      else if c AND 0xF0 = 0xE0 then Some 2
      else if c AND 0xF8 = 0xF0 then Some 3
      else None)"

function utf8_check :: "string \<Rightarrow> bool" where
  "utf8_check [] = True"
| "utf8_check (c # cs) =
     (case utf8_extra (char_u8 c) of
        None \<Rightarrow> False
      | Some extra \<Rightarrow>
          if length cs < extra then False
          else if list_all (\<lambda>cc. char_u8 cc AND 0xC0 = 0x80) (take extra cs) then utf8_check (drop extra cs)
          else False)"
  by pat_completeness auto
termination
  by (relation "measure length") auto

definition message_read :: "read_result list \<Rightarrow> string + string \<times> read_result list" where
  "message_read rs =
     (case read_exact rs 4 [] of
        None \<Rightarrow> Inl ''eof''
      | Some (pre, rs) \<Rightarrow>
          let len = prefix_length pre in
          if len = 0 then Inl ''invalid_framing''
          else if kMaxMessageBytes < len then Inl ''message_too_large''
          else case read_exact rs (unat len) [] of
                 None \<Rightarrow> Inl ''eof''
               | Some (out, rs) \<Rightarrow> if utf8_check out then Inr (out, rs) else Inl ''invalid_json'')"

section \<open>Writing\<close>

definition message_frame :: "string \<Rightarrow> string" where
  "message_frame payload =
     (let length = (of_nat (List.length payload) :: u32);
          pre = [ucast (length AND 0xFF), ucast (drop_bit 8 length AND 0xFF),
                    ucast (drop_bit 16 length AND 0xFF), ucast (drop_bit 24 length AND 0xFF)]
      in map u8_char pre @ payload)"

text \<open>The loop over \<^verbatim>\<open>write\<close> is the one of \<^verbatim>\<open>send_all\<close>.\<close>

definition message_write :: "send_result list \<Rightarrow> string \<Rightarrow> (bool \<times> string) option" where
  "message_write rs payload =
     (if payload = [] \<or> 1024 * 1024 < length payload then Some (False, [])
      else send_all rs (message_frame payload) 0 [])"

section \<open>A stream\<close>

text \<open>The text of a stream without failures, in which every read delivers something.\<close>

fun stream_ok :: "read_result list \<Rightarrow> bool" where
  "stream_ok [] = True"
| "stream_ok (RData s # rs) = (s \<noteq> [] \<and> stream_ok rs)"
| "stream_ok (RInterrupted # rs) = stream_ok rs"
| "stream_ok (RFailed # rs) = False"

fun stream_text :: "read_result list \<Rightarrow> string" where
  "stream_text [] = []"
| "stream_text (RData s # rs) = s @ stream_text rs"
| "stream_text (RInterrupted # rs) = stream_text rs"
| "stream_text (RFailed # rs) = stream_text rs"

lemma read_exact_stream:
  "stream_ok rs \<Longrightarrow> length got \<le> count \<Longrightarrow> count \<le> length got + length (stream_text rs) \<Longrightarrow>
     \<exists>rs'. read_exact rs count got = Some (got @ take (count - length got) (stream_text rs), rs')
       \<and> stream_ok rs' \<and> stream_text rs' = drop (count - length got) (stream_text rs)"
proof (induction rs arbitrary: got)
  case Nil
  then show ?case by (simp add: read_exact.simps)
next
  case (Cons r rs)
  show ?case
  proof (cases "length got < count")
    case False
    with Cons.prems show ?thesis by (simp add: read_exact.simps)
  next
    case True
    show ?thesis
    proof (cases r)
      case (RData s)
      show ?thesis
      proof (cases "length s \<le> count - length got")
        case False
        with True RData Cons.prems show ?thesis by (simp add: read_exact.simps [of "RData s # rs"])
      next
        case le: True
        with True RData Cons.prems have "\<exists>rs'. read_exact rs count (got @ s) =
            Some ((got @ s) @ take (count - length (got @ s)) (stream_text rs), rs')
            \<and> stream_ok rs' \<and> stream_text rs' = drop (count - length (got @ s)) (stream_text rs)"
          by (intro Cons.IH) auto
        with True le RData Cons.prems show ?thesis by (auto simp: read_exact.simps [of "RData s # rs"])
      qed
    next
      case RInterrupted
      with True Cons show ?thesis by (auto simp: read_exact.simps [of "RInterrupted # rs"])
    next
      case RFailed
      with Cons.prems show ?thesis by simp
    qed
  qed
qed

text \<open>The length survives its four bytes.\<close>

lemma prefix_length_frame:
  "prefix_length (map u8_char [ucast (n AND 0xFF), ucast (drop_bit 8 n AND 0xFF),
     ucast (drop_bit 16 n AND 0xFF), ucast (drop_bit 24 n AND 0xFF)]) = n"
proof -
  have m: "0xFF = (mask 8 :: u32)" by (simp add: mask_eq_exp_minus_1)
  have le: "ucast (drop_bit k n AND 0xFF) = (ucast (drop_bit k n) :: u8)" for k
    unfolding m by (rule bit_word_eqI) (auto simp: bit_ucast_iff bit_and_iff bit_mask_iff)
  have "le_word (le_bytes 4 n) = n" by (simp add: le_word_le_bytes)
  moreover have "le_bytes 4 n = [ucast (drop_bit 0 n), ucast (drop_bit 8 n), ucast (drop_bit 16 n), ucast (drop_bit 24 n)]"
    by (simp add: le_bytes_def upt_rec)
  ultimately show ?thesis
    using le [of 0] le [of 8] le [of 16] le [of 24]
    by (simp add: prefix_length_def push_bit_or push_bit_push_bit)
qed

lemma message_frame_split:
  "take 4 (message_frame p) = map u8_char [ucast (of_nat (length p) AND 0xFF :: u32), ucast (drop_bit 8 (of_nat (length p)) AND 0xFF :: u32),
     ucast (drop_bit 16 (of_nat (length p)) AND 0xFF :: u32), ucast (drop_bit 24 (of_nat (length p)) AND 0xFF :: u32)]"
  "drop 4 (message_frame p) = p" "length (message_frame p) = 4 + length p"
  by (simp_all add: message_frame_def Let_def)

text \<open>
  C32: a message of 1 byte to 1 MiB whose bytes pass the UTF-8 check, framed by the writer and
  followed by anything, is read back by the reader as that message, and the rest stays in the
  stream, however the bytes are cut into reads and interrupted.
\<close>

theorem message_round_trip:
  assumes "1 \<le> length p" "length p \<le> 1024 * 1024" "utf8_check p"
    and "stream_ok rs" "stream_text rs = message_frame p @ rest"
  shows "\<exists>rs'. message_read rs = Inr (p, rs') \<and> stream_ok rs' \<and> stream_text rs' = rest"
proof -
  define n where "n = (of_nat (length p) :: u32)"
  have n: "unat n = length p" using assms(2) by (simp add: n_def unat_of_nat)
  obtain rs1 where r1: "read_exact rs 4 [] = Some (take 4 (message_frame p), rs1)" "stream_ok rs1" "stream_text rs1 = p @ rest"
    using read_exact_stream [of rs "[]" 4] assms(4,5) message_frame_split [of p] by auto
  obtain rs2 where r2: "read_exact rs1 (length p) [] = Some (p, rs2)" "stream_ok rs2" "stream_text rs2 = rest"
    using read_exact_stream [of rs1 "[]" "length p"] r1 by auto
  have "prefix_length (take 4 (message_frame p)) = n"
    unfolding message_frame_split(1) n_def [symmetric] by (rule prefix_length_frame)
  moreover have "n \<noteq> 0" using n assms(1) by auto
  moreover have "\<not> kMaxMessageBytes < n" using n assms(2) by (simp add: kMaxMessageBytes_def word_less_nat_alt)
  ultimately show ?thesis using r1 r2 n assms(3) by (simp add: message_read_def Let_def)
qed

theorem message_round_trip_witness:
  "\<exists>rs'. message_read [RData (take 3 (message_frame ''{}'')), RInterrupted, RData (drop 3 (message_frame ''{}'') @ ''x'')] = Inr (''{}'', rs')
     \<and> stream_text rs' = ''x''"
proof -
  let ?f = "message_frame ''{}''"
  have len: "length ?f = 6" by (simp add: message_frame_split)
  have "utf8_check ''{}''" by (simp add: utf8_extra_def char_u8_def)
  moreover have "stream_ok [RData (take 3 ?f), RInterrupted, RData (drop 3 ?f @ ''x'')]"
    using len by (cases ?f) auto
  moreover have "stream_text [RData (take 3 ?f), RInterrupted, RData (drop 3 ?f @ ''x'')] = ?f @ ''x''"
    by (simp flip: append_assoc)
  ultimately show ?thesis
    using message_round_trip [of "''{}''" "[RData (take 3 ?f), RInterrupted, RData (drop 3 ?f @ ''x'')]" "''x''"] by auto
qed

text \<open>The check looks at the structure of sequences only: an overlong encoding of NUL passes.\<close>

lemma utf8_check_overlong: "utf8_check [u8_char 0xC0, u8_char 0x80]"
  by (simp add: utf8_extra_def)

end
