(* ===== verification/Ez_NativeHost.thy ===== *)
theory Ez_NativeHost
  imports Ez_NativeIo
begin

text \<open>
  \<^verbatim>\<open>native_host/src/daemon_client.cpp\<close> and \<^verbatim>\<open>main.cpp\<close>: the process between the browser and the
  daemon.  The JSON library and the results of the socket calls are parameters; what the host
  writes to the browser and to the daemon is collected in two lists.  \<open>discarded\<close> is the value
  \<^verbatim>\<open>json::parse\<close> returns for a text it rejects.

  The theorems are about what can pass: only allowlisted operations reach the daemon, and a
  request that is forwarded is one the daemon's parser accepts with the same content.
\<close>

section \<open>The connection to the daemon\<close>

function extract_loop :: "string \<Rightarrow> nat \<Rightarrow> string list \<times> nat" where
  "extract_loop buffer start =
     (case find_char newline buffer start of
        None \<Rightarrow> ([], start)
      | Some nl \<Rightarrow> (let (frames, e) = extract_loop buffer (nl + 1) in (take (nl - start) (drop start buffer) # frames, e)))"
  by pat_completeness auto
termination
proof (relation "measure (\<lambda>(b, s). length b - s)")
  fix buffer :: string and start nl assume "find_char newline buffer start = Some nl"
  then obtain i where i: "first_idx ((=) newline) (drop start buffer) = Some i" "nl = start + i"
    unfolding find_char_def by blast
  have "i < length (drop start buffer)" using first_idx_SomeD [OF i(1)] by blast
  with i(2) show "((buffer, nl + 1), buffer, start) \<in> measure (\<lambda>(b, s). length b - s)" by simp
qed simp

declare extract_loop.simps [simp del]

definition extract_frames :: "string \<Rightarrow> string list \<times> string" where
  "extract_frames buffer = (let (frames, start) = extract_loop buffer 0 in (frames, drop start buffer))"

record daemon_client =
  dc_open :: bool
  dc_rx :: string

definition daemon_client_init :: daemon_client where
  "daemon_client_init = \<lparr>dc_open = False, dc_rx = []\<rparr>"

datatype connect_result = ConnOk | ConnNoEntry | ConnAccess | ConnOther

record connect_env =
  cx_socket_ok :: bool
  cx_connect :: connect_result
  cx_peer :: "u32 option"
  cx_euid :: u32

definition client_close :: "daemon_client \<Rightarrow> daemon_client" where
  "client_close c = c\<lparr>dc_open := False, dc_rx := []\<rparr>"

definition client_connect :: "connect_env \<Rightarrow> daemon_client \<Rightarrow> daemon_client \<times> (string + unit)" where
  "client_connect env c =
     (if dc_open c then (c, Inr ())
      else if \<not> cx_socket_ok env then (c, Inl ''socket creation failed'')
      else if 108 \<le> length kDefaultSocketPath then (client_close c, Inl ''socket path too long'')
      else case cx_connect env of
             ConnNoEntry \<Rightarrow> (client_close c, Inl ''daemon not running (socket missing)'')
           | ConnAccess \<Rightarrow> (client_close c, Inl ''permission denied connecting to daemon'')
           | ConnOther \<Rightarrow> (client_close c, Inl ''connect failed'')
           | ConnOk \<Rightarrow>
               (case cx_peer env of
                  Some uid \<Rightarrow> if uid \<noteq> cx_euid env then (client_close c, Inl ''daemon socket peer uid mismatch'')
                              else (c\<lparr>dc_open := True\<rparr>, Inr ())
                | None \<Rightarrow> (c\<lparr>dc_open := True\<rparr>, Inr ())))"

record host_cfg =
  hc_parse :: "string \<Rightarrow> json option"
  hc_dump :: "json \<Rightarrow> string option"
  hc_discarded :: json

definition request_json :: "host_cfg \<Rightarrow> request \<Rightarrow> json" where
  "request_json cfg rq =
     (let doc = assign ''request_id'' (JString (rq_request_id rq))
           (assign ''operation'' (JString (operation_name (rq_operation rq)))
             (assign ''protocol_version'' (JUnsigned (ucast (rq_protocol_version rq))) JNull))
      in if rq_params_json rq = [] then doc
         else assign ''params''
           (case hc_parse cfg (rq_params_json rq) of None \<Rightarrow> hc_discarded cfg | Some p \<Rightarrow> p) doc)"

text \<open>\<open>sent\<close> says whether the loop over \<^verbatim>\<open>send\<close> transmits the frame; the text is what is sent.\<close>

definition send_request :: "host_cfg \<Rightarrow> bool \<Rightarrow> request \<Rightarrow> daemon_client \<Rightarrow> abnormal + bool \<times> string list" where
  "send_request cfg sent rq c =
     (if \<not> dc_open c then Inr (False, [])
      else case hc_dump cfg (request_json cfg rq) of
             None \<Rightarrow> Inl Uncaught
           | Some frame \<Rightarrow>
               if kMaxRequestBytes < length frame then Inr (False, [])
               else if sent then Inr (True, [frame @ [newline]]) else Inr (False, []))"

datatype poll_result = PollFailed | PollInterrupted | PollTimeout | PollHangup
  | PollAgain | PollRecvFailed | PollClosed | PollData string

definition client_poll :: "poll_result \<Rightarrow> daemon_client \<Rightarrow> daemon_client \<times> (string + string list)" where
  "client_poll env c =
     (if \<not> dc_open c then (c, Inl ''not connected'')
      else let (frames, rest) = extract_frames (dc_rx c); c = c\<lparr>dc_rx := rest\<rparr> in
        if frames \<noteq> [] then (c, Inr frames)
        else case env of
          PollInterrupted \<Rightarrow> (c, Inr [])
        | PollFailed \<Rightarrow> (c, Inl ''poll failed'')
        | PollTimeout \<Rightarrow> (c, Inr [])
        | PollHangup \<Rightarrow> (c, Inl ''daemon closed the connection'')
        | PollAgain \<Rightarrow> (c, Inr [])
        | PollRecvFailed \<Rightarrow> (c, Inl ''recv failed'')
        | PollClosed \<Rightarrow> (c, Inl ''daemon closed the connection'')
        | PollData s \<Rightarrow>
            (let rx = dc_rx c @ s in
             if kMaxEventBytes < length rx then (c\<lparr>dc_rx := rx\<rparr>, Inl ''oversized frame from daemon'')
             else let (frames, rest) = extract_frames rx in (c\<lparr>dc_rx := rest\<rparr>, Inr frames)))"

section \<open>Messages\<close>

definition kAllowedOperations :: "string list" where
  "kAllowedOperations = [''hello'', ''get_status'', ''subscribe'', ''unsubscribe'', ''set_policy'', ''get_policy'']"

definition operation_allowed :: "string \<Rightarrow> bool" where
  "operation_allowed name = list_ex (\<lambda>op. name = op) kAllowedOperations"

text \<open>
  What passes through the two channels: the messages to the browser (a message the writer
  refuses is lost) and the frames to the daemon.
\<close>

record host_io =
  io_browser :: "string list"
  io_daemon :: "string list"

definition send_envelope :: "host_cfg \<Rightarrow> string \<Rightarrow> json \<Rightarrow> host_io \<Rightarrow> abnormal + host_io" where
  "send_envelope cfg kind payload io =
     (case hc_dump cfg (assign ''payload'' payload (assign ''kind'' (JString kind)
             (assign ''protocol_version'' (JUnsigned (ucast kProtocolVersion)) JNull))) of
        None \<Rightarrow> Inl Uncaught
      | Some t \<Rightarrow> Inr (if t = [] \<or> 1024 * 1024 < length t then io else io\<lparr>io_browser := io_browser io @ [t]\<rparr>))"

definition send_error :: "host_cfg \<Rightarrow> string \<Rightarrow> string \<Rightarrow> string \<Rightarrow> host_io \<Rightarrow> abnormal + host_io" where
  "send_error cfg request_id code message io =
     send_envelope cfg ''error''
       (assign ''message'' (JString (take 256 message))
         (assign ''code'' (JString code)
           (if request_id = [] then JNull else assign ''request_id'' (JString request_id) JNull))) io"

text \<open>
  \<^verbatim>\<open>value(key, 0)\<close>: the default when the key is absent, otherwise a conversion to \<^verbatim>\<open>int\<close>, which
  truncates numbers, takes booleans as 0 and 1 and raises an exception for anything else.
\<close>

definition value_int :: "json \<Rightarrow> string \<Rightarrow> int \<Rightarrow> abnormal + int" where
  "value_int doc key dflt =
     (case member doc key of
        None \<Rightarrow> Inr dflt
      | Some (JBool b) \<Rightarrow> Inr (if b then 1 else 0)
      | Some (JInteger w) \<Rightarrow> Inr (sint (ucast w :: u32))
      | Some (JUnsigned w) \<Rightarrow> Inr (sint (ucast w :: u32))
      | Some (JFloat r) \<Rightarrow> Inr (if \<bar>r\<bar> < 2147483648 then (if r < 0 then - \<lfloor>- r\<rfloor> else \<lfloor>r\<rfloor>) else -2147483648)
      | Some _ \<Rightarrow> Inl Uncaught)"

definition value_bool :: "json \<Rightarrow> string \<Rightarrow> bool \<Rightarrow> abnormal + bool" where
  "value_bool doc key dflt =
     (if \<not> is_object doc then Inl Uncaught
      else case member doc key of None \<Rightarrow> Inr dflt | Some (JBool b) \<Rightarrow> Inr b | Some _ \<Rightarrow> Inl Uncaught)"

definition envelope_ok :: "json \<Rightarrow> abnormal + bool" where
  "envelope_ok doc =
     (if \<not> is_object doc then Inr False
      else res_bind (value_int doc ''protocol_version'' 0)
        (\<lambda>v. Inr (v = 1 \<and> member_is doc ''kind'' is_string \<and> member_is doc ''payload'' is_object)))"

definition host_forbidden :: "string list" where
  "host_forbidden = [''payload'', ''body'', ''cookies'', ''authorization'', ''password'', ''api_key'',
     ''execute'', ''run'', ''eval'', ''command'', ''shell'']"

text \<open>The checks on a request: the error to report, or the operation and the request id.\<close>

definition check_request :: "json \<Rightarrow> (string \<times> string \<times> string) + string \<times> string" where
  "check_request payload =
     (if \<not> member_is payload ''operation'' is_string \<or> \<not> member_is payload ''request_id'' is_string
      then Inl ([], ''schema_violation'', ''request requires operation and request_id'')
      else let operation = get_string (member_at payload ''operation'');
               request_id = get_string (member_at payload ''request_id'') in
        if request_id = [] \<or> 64 < length request_id
        then Inl ([], ''schema_violation'', ''request_id must be 1-64 characters'')
        else case find (\<lambda>k. k \<in> set host_forbidden) (map fst (items payload)) of
          Some bad \<Rightarrow> Inl (request_id, ''schema_violation'', ''forbidden field: '' @ bad)
        | None \<Rightarrow>
            if \<not> operation_allowed operation
            then Inl (request_id, ''unknown_operation'', ''operation not available through the native host'')
            else Inr (operation, request_id))"

definition relay_frame :: "host_cfg \<Rightarrow> string \<Rightarrow> string \<Rightarrow> host_io \<Rightarrow> abnormal + host_io" where
  "relay_frame cfg request_id frame io =
     (case hc_parse cfg frame of
        None \<Rightarrow> Inr io
      | Some parsed \<Rightarrow>
          if \<not> contains parsed ''ok'' \<and> contains parsed ''event_type'' then send_envelope cfg ''event'' parsed io
          else res_bind (value_bool parsed ''ok'' False) (\<lambda>ok.
            let response = assign ''ok'' (JBool ok) (assign ''request_id'' (JString request_id) JNull);
                response = (case member parsed ''result'' of None \<Rightarrow> response | Some r \<Rightarrow> assign ''result'' r response)
            in send_envelope cfg ''response'' response io))"

fun relay_frames :: "host_cfg \<Rightarrow> string \<Rightarrow> string list \<Rightarrow> host_io \<Rightarrow> abnormal + host_io" where
  "relay_frames cfg request_id [] io = Inr io"
| "relay_frames cfg request_id (f # fs) io = res_bind (relay_frame cfg request_id f io) (relay_frames cfg request_id fs)"

record host_env =
  he_connect :: connect_env
  he_sent :: bool
  he_poll :: poll_result

text \<open>The params are passed on when they are an object of at most eight members.\<close>

definition forward_params :: "host_cfg \<Rightarrow> json \<Rightarrow> abnormal + string" where
  "forward_params cfg payload =
     (case member payload ''params'' of
        None \<Rightarrow> Inr []
      | Some p \<Rightarrow> if is_object p \<and> jsize p \<le> 8
                  then (case hc_dump cfg p of None \<Rightarrow> Inl Uncaught | Some t \<Rightarrow> Inr t) else Inr [])"

definition forward :: "host_cfg \<Rightarrow> host_env \<Rightarrow> string \<Rightarrow> string \<Rightarrow> json \<Rightarrow> host_io \<Rightarrow> abnormal + host_io" where
  "forward cfg env operation request_id payload io =
     (case client_connect (he_connect env) daemon_client_init of
        (_, Inl error) \<Rightarrow> send_error cfg request_id ''daemon_unavailable'' error io
      | (client, Inr _) \<Rightarrow>
          case operation_from_name operation of
            None \<Rightarrow> send_error cfg request_id ''unknown_operation'' operation io
          | Some op \<Rightarrow>
              res_bind (forward_params cfg payload) (\<lambda>params_json.
              res_bind (send_request cfg (he_sent env) \<lparr>rq_protocol_version = kProtocolVersion, rq_operation = op,
                  rq_request_id = request_id, rq_params_json = params_json\<rparr> client) (\<lambda>(ok, frames).
                let io = io\<lparr>io_daemon := io_daemon io @ frames\<rparr> in
                if \<not> ok then send_error cfg request_id ''daemon_unavailable'' ''failed to send request to daemon'' io
                else case snd (client_poll (he_poll env) client) of
                  Inl error \<Rightarrow> send_error cfg request_id ''daemon_error'' error io
                | Inr frames \<Rightarrow> relay_frames cfg request_id frames io)))"

definition handle_message :: "host_cfg \<Rightarrow> host_env \<Rightarrow> json \<Rightarrow> host_io \<Rightarrow> abnormal + bool \<times> host_io" where
  "handle_message cfg env doc io =
     res_bind (envelope_ok doc) (\<lambda>ok.
       if \<not> ok then res_bind (send_error cfg [] ''schema_violation'' ''malformed envelope'' io) (\<lambda>io. Inr (False, io))
       else let payload = member_at doc ''payload'' in
         res_bind
           (if get_string (member_at doc ''kind'') \<noteq> ''request''
            then send_error cfg [] ''schema_violation'' ''only 'request' messages are accepted'' io
            else case check_request payload of
              Inl (request_id, code, message) \<Rightarrow> send_error cfg request_id code message io
            | Inr (operation, request_id) \<Rightarrow> forward cfg env operation request_id payload io)
           (\<lambda>io. Inr (True, io)))"

text \<open>The main loop; the environment of each message is the next of \<open>envs\<close>, and their end stops the run.\<close>

fun host_main :: "host_cfg \<Rightarrow> host_env list \<Rightarrow> read_result list \<Rightarrow> host_io \<Rightarrow> abnormal + host_io" where
  "host_main cfg [] rs io = Inr io"
| "host_main cfg (env # envs) rs io =
     (case message_read rs of
        Inl _ \<Rightarrow> Inr io
      | Inr (message, rs) \<Rightarrow>
          case hc_parse cfg message of
            None \<Rightarrow> send_error cfg [] ''invalid_json'' ''message is not valid JSON'' io
          | Some doc \<Rightarrow> res_bind (handle_message cfg env doc io)
              (\<lambda>(go, io). if \<not> go then Inr io else host_main cfg envs rs io))"

section \<open>Frames from the daemon\<close>

lemma lines_of_cases:
  obtains "newline \<notin> set s" "lines_of s = ([], s)"
  | f r where "s = f @ newline # r" "newline \<notin> set f" "lines_of s = (f # fst (lines_of r), snd (lines_of r))"
proof (cases "newline \<in> set s")
  case False
  then show thesis using that(1) lines_of_pure by blast
next
  case True
  obtain f r where "s = f @ newline # r" "newline \<notin> set f" using split_list_first [OF True] by blast
  then show thesis using that(2) lines_of_line by blast
qed

lemma find_char_append:
  "find_char c (pre @ s) (length pre) = map_option ((+) (length pre)) (first_idx ((=) c) s)"
  by (simp add: find_char_def)

lemma length_lines_rest: "length (snd (lines_of s)) \<le> length s"
  using lines_of_sound [of s] by (metis length_append le_add2)

lemma extract_loop_lines:
  "extract_loop (pre @ s) (length pre) = (fst (lines_of s), length pre + (length s - length (snd (lines_of s))))"
proof (induction s arbitrary: pre rule: length_induct)
  case IH: (1 s)
  show ?case
  proof (cases rule: lines_of_cases [of s])
    case 1
    then have "first_idx ((=) newline) s = None" by (auto simp: first_idx_None)
    with 1(2) show ?thesis by (simp add: extract_loop.simps [of "pre @ s"] find_char_append)
  next
    case (2 f r)
    have "first_idx ((=) newline) f = None" using 2(2) by (auto simp: first_idx_None)
    then have nl: "find_char newline (pre @ s) (length pre) = Some (length pre + length f)"
      unfolding find_char_append 2(1) by (simp add: first_idx_append)
    have "extract_loop ((pre @ f @ [newline]) @ r) (length (pre @ f @ [newline])) =
        (fst (lines_of r), length (pre @ f @ [newline]) + (length r - length (snd (lines_of r))))"
      using 2(1) by (intro IH [rule_format]) simp
    then have "extract_loop (pre @ s) (length pre + length f + 1) =
        (fst (lines_of r), length pre + length f + 1 + (length r - length (snd (lines_of r))))"
      unfolding 2(1) by simp
    moreover have "take (length f) s = f" unfolding 2(1) by simp
    ultimately show ?thesis
      using nl length_lines_rest [of r] 2(3) unfolding 2(3) fst_conv snd_conv
      by (simp add: extract_loop.simps [of "pre @ s" "length pre"]) (simp add: 2(1))
  qed
qed

lemma extract_frames_lines: "extract_frames b = lines_of b"
proof -
  have "drop (length b - length (snd (lines_of b))) b = snd (lines_of b)"
    using lines_of_sound [of b] by (metis append_eq_conv_conj length_append add_diff_cancel_right')
  then show ?thesis using extract_loop_lines [of "[]" b] by (simp add: extract_frames_def)
qed

interpretation relay: newline_framing "\<lambda>b. Inr (extract_frames b) :: string + string list \<times> string" "\<lambda>_. True" "\<lambda>_. True"
  by unfold_locales (auto simp: extract_frames_lines list_all_iff)

section \<open>What reaches the daemon\<close>

text \<open>A frame the daemon accepts, with an operation of the allowlist.\<close>

definition accepted_frame :: "host_cfg \<Rightarrow> string \<Rightarrow> bool" where
  "accepted_frame cfg f \<longleftrightarrow> (\<exists>t rq. split_frames kMaxRequestBytes f = Inr ([t], [])
     \<and> parse_request (hc_parse cfg) (hc_dump cfg) t kMaxRequestBytes = Inr rq
     \<and> operation_name (rq_operation rq) \<in> set kAllowedOperations)"

lemma request_json_document:
  assumes "json_laws (hc_parse cfg) (hc_dump cfg)" "rq_protocol_version rq = kProtocolVersion"
    and "1 \<le> length (rq_request_id rq)" "length (rq_request_id rq) \<le> 64"
    and "rq_params_json rq = [] \<or> (\<exists>p. json_canonical p \<and> is_object p \<and> jsize p \<le> 8 \<and> hc_dump cfg p = Some (rq_params_json rq))"
  shows "json_canonical (request_json cfg rq)" "request_document (hc_dump cfg) (request_json cfg rq) rq"
proof -
  define d where "d = assign ''request_id'' (JString (rq_request_id rq))
      (assign ''operation'' (JString (operation_name (rq_operation rq)))
        (assign ''protocol_version'' (JUnsigned (ucast (rq_protocol_version rq))) JNull))"
  have d: "json_canonical d" "is_object d"
    "member d k = (if k = ''request_id'' then Some (JString (rq_request_id rq))
       else if k = ''operation'' then Some (JString (operation_name (rq_operation rq)))
       else if k = ''protocol_version'' then Some (JUnsigned (ucast (rq_protocol_version rq))) else None)" for k
    unfolding d_def by (intro canonical_assign) (simp_all del: assign.simps)
  have "(request_json cfg rq = d \<and> rq_params_json rq = []) \<or> (\<exists>p. json_canonical p \<and> is_object p \<and> jsize p \<le> 8
      \<and> hc_dump cfg p = Some (rq_params_json rq) \<and> request_json cfg rq = assign ''params'' p d)"
  proof (cases "rq_params_json rq = []")
    case False
    then obtain p where p: "json_canonical p" "is_object p" "jsize p \<le> 8" "hc_dump cfg p = Some (rq_params_json rq)"
      using assms(5) by blast
    moreover have "hc_parse cfg (rq_params_json rq) = Some p" using json_laws_dump [OF assms(1) p(1,4)] by simp
    ultimately show ?thesis
      using False by (intro disjI2 exI [of _ p]) (simp add: request_json_def Let_def d_def [symmetric] del: assign.simps)
  qed (simp add: request_json_def Let_def d_def [symmetric] del: assign.simps)
  then show "json_canonical (request_json cfg rq)" "request_document (hc_dump cfg) (request_json cfg rq) rq"
    using d assms(2-4)
    by (auto simp: request_document_def kForbidden_def kProtocolVersion_def intro: canonical_assign simp del: assign.simps)
qed

lemma send_request_accepted:
  assumes "json_laws (hc_parse cfg) (hc_dump cfg)" "rq_protocol_version rq = kProtocolVersion"
    and "1 \<le> length (rq_request_id rq)" "length (rq_request_id rq) \<le> 64"
    and "rq_params_json rq = [] \<or> (\<exists>p. json_canonical p \<and> is_object p \<and> jsize p \<le> 8 \<and> hc_dump cfg p = Some (rq_params_json rq))"
    and "operation_name (rq_operation rq) \<in> set kAllowedOperations"
    and "send_request cfg sent rq c = Inr (ok, frames)" "f \<in> set frames"
  shows "accepted_frame cfg f"
proof -
  from assms(7,8) obtain t where t: "hc_dump cfg (request_json cfg rq) = Some t" "length t \<le> kMaxRequestBytes" "f = t @ [newline]"
    by (auto simp: send_request_def split: if_splits option.splits)
  note doc = request_json_document [OF assms(1-5)]
  have p: "hc_parse cfg t = Some (request_json cfg rq)" "newline \<notin> set t"
    using json_laws_dump [OF assms(1) doc(1) t(1)] by simp_all
  have "split_frames kMaxRequestBytes f = Inr ([t], [])"
    using p(2) t(2,3) lines_of_line [of t "[]"] by (simp add: split_frames_eq kMaxRequestBytes_def)
  moreover have "parse_request (hc_parse cfg) (hc_dump cfg) t kMaxRequestBytes = Inr rq"
    using t(2) p(1) doc(2) by (auto simp: parse_request_iff)
  ultimately show ?thesis using assms(6) unfolding accepted_frame_def by blast
qed

lemma send_envelope_daemon: "send_envelope cfg kind payload io = Inr io' \<Longrightarrow> io_daemon io' = io_daemon io"
  by (auto simp: send_envelope_def split: option.splits if_splits)

lemma send_error_daemon: "send_error cfg i c m io = Inr io' \<Longrightarrow> io_daemon io' = io_daemon io"
  unfolding send_error_def by (rule send_envelope_daemon)

lemma relay_frame_daemon: "relay_frame cfg i f io = Inr io' \<Longrightarrow> io_daemon io' = io_daemon io"
  by (auto simp: relay_frame_def Let_def res_simps dest: send_envelope_daemon split: option.splits if_splits)

lemma relay_frames_daemon: "relay_frames cfg i fs io = Inr io' \<Longrightarrow> io_daemon io' = io_daemon io"
  by (induction fs arbitrary: io) (auto simp: res_simps dest!: relay_frame_daemon)

lemma forward_params_canonical:
  "forward_params cfg payload = Inr t \<Longrightarrow> json_canonical payload \<Longrightarrow>
     t = [] \<or> (\<exists>p. json_canonical p \<and> is_object p \<and> jsize p \<le> 8 \<and> hc_dump cfg p = Some t)"
  by (auto simp: forward_params_def split: option.splits if_splits dest: canonical_member)

lemma check_request_Inr:
  "check_request payload = Inr (operation, i) \<Longrightarrow>
     operation \<in> set kAllowedOperations \<and> 1 \<le> length i \<and> length i \<le> 64"
  by (auto simp: check_request_def Let_def operation_allowed_def list_ex_iff Suc_le_eq split: if_splits option.splits)

lemma forward_accepted:
  assumes laws: "json_laws (hc_parse cfg) (hc_dump cfg)" and p: "json_canonical payload"
    and op: "operation \<in> set kAllowedOperations" and i: "1 \<le> length i" "length i \<le> 64"
    and f: "forward cfg env operation i payload io = Inr io'" and io: "list_all (accepted_frame cfg) (io_daemon io)"
  shows "list_all (accepted_frame cfg) (io_daemon io')"
proof -
  obtain client r where c: "client_connect (he_connect env) daemon_client_init = (client, r)" by fastforce
  show ?thesis
  proof (cases "is_ok r \<and> operation_from_name operation \<noteq> None")
    case False
    with f c io show ?thesis
      by (cases r; cases "operation_from_name operation") (auto simp: forward_def dest!: send_error_daemon)
  next
    case True
    then obtain u o' where r: "r = Inr u" and o': "operation_from_name operation = Some o'" by (cases r) auto
    from f c r o' obtain t ok frames where t: "forward_params cfg payload = Inr t"
      and s: "send_request cfg (he_sent env) \<lparr>rq_protocol_version = kProtocolVersion, rq_operation = o',
          rq_request_id = i, rq_params_json = t\<rparr> client = Inr (ok, frames)"
      and d: "io_daemon io' = io_daemon io @ frames"
      by (auto simp: forward_def res_simps Let_def dest!: send_error_daemon relay_frames_daemon split: if_splits sum.splits)
    have "accepted_frame cfg x" if "x \<in> set frames" for x
      using send_request_accepted [OF laws _ _ _ _ _ s that] forward_params_canonical [OF t p] i op
        operations.from_name_exact [OF o'] by simp
    with d io show ?thesis by (auto simp: list_all_iff)
  qed
qed

lemma handle_message_accepted:
  assumes "json_laws (hc_parse cfg) (hc_dump cfg)" "json_canonical doc"
    and h: "handle_message cfg env doc io = Inr (go, io')" and io: "list_all (accepted_frame cfg) (io_daemon io)"
  shows "list_all (accepted_frame cfg) (io_daemon io')"
proof -
  from h obtain ok where ok: "envelope_ok doc = Inr ok" by (auto simp: handle_message_def res_simps)
  show ?thesis
  proof (cases "ok \<and> get_string (member_at doc ''kind'') = ''request'' \<and> is_ok (check_request (member_at doc ''payload''))")
    case False
    with h ok io show ?thesis
      by (cases "check_request (member_at doc ''payload'')")
        (auto simp: handle_message_def res_simps Let_def dest!: send_error_daemon split: if_splits)
  next
    case True
    then obtain operation i where c: "check_request (member_at doc ''payload'') = Inr (operation, i)"
      by (cases "check_request (member_at doc ''payload'')") auto
    have "json_canonical (member_at doc ''payload'')"
      using canonical_member [OF assms(2)] by (auto simp: member_at_def split: option.splits)
    moreover have "forward cfg env operation i (member_at doc ''payload'') io = Inr io'"
      using h ok True c by (auto simp: handle_message_def res_simps Let_def)
    ultimately show ?thesis using forward_accepted [OF assms(1)] check_request_Inr [OF c] io by blast
  qed
qed

text \<open>
  C3: whatever bytes the browser sends and whatever the sockets do, every frame the host sends to the
  daemon is one complete frame that the daemon's parser accepts, with an operation of the
  allowlist; in particular a shutdown request never gets through.
\<close>

theorem host_forwards_allowed:
  assumes "json_laws (hc_parse cfg) (hc_dump cfg)"
    and "host_main cfg envs rs io = Inr io'" "list_all (accepted_frame cfg) (io_daemon io)"
  shows "list_all (accepted_frame cfg) (io_daemon io')"
  using assms(2,3)
proof (induction envs arbitrary: rs io)
  case (Cons env envs)
  show ?case
  proof (cases "message_read rs")
    case (Inr x)
    obtain message rs1 where x: "x = (message, rs1)" by fastforce
    show ?thesis
    proof (cases "hc_parse cfg message")
      case None
      with Cons.prems Inr x show ?thesis by (auto dest!: send_error_daemon)
    next
      case (Some doc)
      with Cons.prems Inr x obtain go io1 where h: "handle_message cfg env doc io = Inr (go, io1)"
        and r: "(if \<not> go then Inr io1 else host_main cfg envs rs1 io1) = Inr io'" by (auto simp: res_simps)
      have "list_all (accepted_frame cfg) (io_daemon io1)"
        by (rule handle_message_accepted [OF assms(1) json_laws_parse [OF assms(1) Some] h Cons.prems(2)])
      with Cons.IH [of rs1 io1] r show ?thesis by (cases go) auto
    qed
  qed (use Cons.prems in simp)
qed simp

text \<open>A library that knows one message and the frame it leads to.\<close>

definition sample_payload :: json where
  "sample_payload = JObject [(''operation'', JString ''hello''), (''request_id'', JString ''7'')]"

definition sample_envelope :: json where
  "sample_envelope = JObject [(''kind'', JString ''request''), (''payload'', sample_payload), (''protocol_version'', JUnsigned 1)]"

definition sample_request :: json where
  "sample_request = JObject [(''operation'', JString ''hello''), (''protocol_version'', JUnsigned 1), (''request_id'', JString ''7'')]"

definition sample_host :: host_cfg where
  "sample_host = \<lparr>hc_parse = (\<lambda>t. if t = ''m'' then Some sample_envelope else if t = ''r'' then Some sample_request else None),
     hc_dump = (\<lambda>j. if j = sample_request then Some ''r'' else None), hc_discarded = JNull\<rparr>"

definition sample_host_env :: host_env where
  "sample_host_env = \<lparr>he_connect = \<lparr>cx_socket_ok = True, cx_connect = ConnOk, cx_peer = Some 1000, cx_euid = 1000\<rparr>,
     he_sent = True, he_poll = PollTimeout\<rparr>"

lemma sample_host_laws: "json_laws (hc_parse sample_host) (hc_dump sample_host)"
  by (auto simp: json_laws_def sample_host_def sample_envelope_def sample_request_def sample_payload_def)

lemma sample_host_run:
  "host_main sample_host [sample_host_env] [RData (message_frame ''m'')] \<lparr>io_browser = [], io_daemon = []\<rparr> =
     Inr \<lparr>io_browser = [], io_daemon = [''r'' @ [newline]]\<rparr>"
proof -
  have "message_read [RData (message_frame ''m'')] = Inr (''m'', [])" by code_simp
  moreover have "envelope_ok sample_envelope = Inr True"
    by (simp add: envelope_ok_def sample_envelope_def value_int_def member_def member_is_def sample_payload_def)
  moreover have "check_request sample_payload = Inr (''hello'', ''7'')"
    by (simp add: check_request_def sample_payload_def member_def member_is_def member_at_def host_forbidden_def
        operation_allowed_def kAllowedOperations_def)
  moreover have "request_json sample_host \<lparr>rq_protocol_version = kProtocolVersion, rq_operation = Hello,
      rq_request_id = ''7'', rq_params_json = []\<rparr> = sample_request"
    by (simp add: request_json_def sample_request_def kProtocolVersion_def)
  moreover have "get_string (member_at sample_envelope ''kind'') = ''request''" "member_at sample_envelope ''payload'' = sample_payload"
    by (simp_all add: sample_envelope_def member_at_def member_def)
  moreover have "member sample_payload ''params'' = None" by (simp add: sample_payload_def member_def)
  moreover have "operation_from_name ''hello'' = Some Hello" by (simp add: operation_from_name_def)
  moreover have "hc_parse sample_host ''m'' = Some sample_envelope" "hc_dump sample_host sample_request = Some ''r''"
    by (simp_all add: sample_host_def)
  ultimately show ?thesis
    by (simp add: handle_message_def forward_def forward_params_def client_connect_def sample_host_env_def daemon_client_init_def
        kDefaultSocketPath_def send_request_def client_poll_def extract_frames_lines Let_def kMaxRequestBytes_def)
qed

theorem host_forwards_allowed_witness:
  "list_all (accepted_frame sample_host) [''r'' @ [newline]]"
  using host_forwards_allowed [OF sample_host_laws sample_host_run] by simp

end
