(* ===== verification/Ez_Attribution.thy ===== *)
theory Ez_Attribution
  imports Ez_Types
begin

text \<open>
  \<^verbatim>\<open>src/attribution/confidence.cpp\<close> and \<^verbatim>\<open>src/attribution/correlator.cpp\<close>: the evidence score and
  the association of network events with recent browser navigations.  Scores are doubles,
  computed with the rounding of Ez_Prelude; times are nanoseconds.  The clock that
  \<^verbatim>\<open>correlate\<close> reads is an argument.

  The lemmas give the bands a score can reach, the optimality of the chosen navigation and
  the bound on the retained ones.
\<close>

section \<open>The score\<close>

definition kWeightProcess :: double where "kWeightProcess = rnd (40 / 100)"
definition kWeightTemporal :: double where "kWeightTemporal = rnd (12 / 100)"
definition kWeightHost :: double where "kWeightHost = rnd (18 / 100)"
definition kWeightDirect :: double where "kWeightDirect = rnd (95 / 100)"
definition kPcapAttributionCap :: double where "kPcapAttributionCap = rnd (69 / 100)"
definition kNoEvidenceScore :: double where "kNoEvidenceScore = 0"

definition score_evidence :: "bool \<Rightarrow> bool \<Rightarrow> bool \<Rightarrow> bool \<Rightarrow> bool \<Rightarrow> double" where
  "score_evidence process_match temporal_match host_match direct_browser_event pcap_only =
     (if direct_browser_event then kWeightDirect
      else
        let s0 = 0;
            s1 = (if process_match then fadd s0 kWeightProcess else s0);
            s2 = (if temporal_match then fadd s1 kWeightTemporal else s1);
            s3 = (if host_match then fadd s2 kWeightHost else s2);
            s4 = (if pcap_only then min s3 kPcapAttributionCap else s3)
        in if s4 < kNoEvidenceScore then kNoEvidenceScore else if 1 < s4 then 1 else s4)"

section \<open>The correlator\<close>

record navigation =
  nav_timestamp :: time_point
  nav_tab_id :: u64
  nav_window_id :: u64
  nav_host :: string
  nav_url :: string
  nav_title :: string
  nav_navigation_id :: string
  nav_frame_id :: u64

record browser_process =
  bp_pid :: u32
  bp_name :: string

record correlator =
  co_navigations :: "navigation list"
  co_browser_processes :: "browser_process list"

definition correlator_init :: correlator where
  "correlator_init = \<lparr>co_navigations = [], co_browser_processes = []\<rparr>"

definition kNavigationWindow :: time_point where "kNavigationWindow = seconds 10"
definition kMaxNavigations :: nat where "kMaxNavigations = 512"

definition navigation_url_host :: "string \<Rightarrow> string" where
  "navigation_url_host url =
     (case find_sub ''://'' url of
        None \<Rightarrow> []
      | Some scheme \<Rightarrow>
          let host_start = scheme + 3;
              host = (case find_char (CHR ''/'') url host_start of
                        None \<Rightarrow> drop host_start url
                      | Some e \<Rightarrow> take (e - host_start) (drop host_start url));
              host = (case find_char (CHR ''@'') host 0 of None \<Rightarrow> host | Some i \<Rightarrow> drop (i + 1) host)
          in case find_char (CHR '':'') host 0 of None \<Rightarrow> host | Some i \<Rightarrow> take i host)"

definition abs_delta :: "time_point \<Rightarrow> time_point \<Rightarrow> int" where
  "abs_delta a b = (if a > b then a - b else b - a)"

fun trim_front :: "nat \<Rightarrow> 'a list \<Rightarrow> 'a list" where
  "trim_front cap [] = []"
| "trim_front cap (x # xs) = (if cap < length (x # xs) then trim_front cap xs else x # xs)"

definition record_navigation :: "navigation \<Rightarrow> correlator \<Rightarrow> correlator" where
  "record_navigation obs c =
     c\<lparr>co_navigations := trim_front kMaxNavigations (co_navigations c @ [obs])\<rparr>"

definition set_browser_processes :: "browser_process list \<Rightarrow> correlator \<Rightarrow> correlator" where
  "set_browser_processes ps c = c\<lparr>co_browser_processes := ps\<rparr>"

definition is_browser_process :: "correlator \<Rightarrow> u32 \<Rightarrow> bool" where
  "is_browser_process c pid = list_ex (\<lambda>p. bp_pid p = pid) (co_browser_processes c)"

definition event_host :: "event \<Rightarrow> string" where
  "event_host e = (case ev_network e of None \<Rightarrow> [] | Some n \<Rightarrow> net_dns_query_name n)"

definition host_matches :: "event \<Rightarrow> navigation \<Rightarrow> bool" where
  "host_matches e nav \<longleftrightarrow> event_host e \<noteq> [] \<and> nav_host nav \<noteq> [] \<and> event_host e = nav_host nav"

text \<open>The loop of \<^verbatim>\<open>best_match\<close>; the state is \<^verbatim>\<open>best\<close>, \<^verbatim>\<open>best_delta\<close> and \<^verbatim>\<open>best_host_match\<close>.\<close>

definition best_step :: "event \<Rightarrow> navigation \<Rightarrow> navigation option \<times> int \<times> bool \<Rightarrow> navigation option \<times> int \<times> bool" where
  "best_step e nav st =
     (let (best, best_delta, best_host_match) = st;
          delta = abs_delta (nav_timestamp nav) (ev_timestamp e);
          host_match = host_matches e nav
      in if delta > kNavigationWindow then st
         else if best = None \<or> (host_match \<and> \<not> best_host_match)
                 \<or> (host_match = best_host_match \<and> delta < best_delta)
         then (Some nav, delta, host_match)
         else st)"

definition best_match :: "correlator \<Rightarrow> event \<Rightarrow> navigation option" where
  "best_match c e = fst (fold (best_step e) (co_navigations c) (None, 2 ^ 63 - 1, False))"

definition prune_navigations :: "time_point \<Rightarrow> correlator \<Rightarrow> correlator" where
  "prune_navigations now c =
     c\<lparr>co_navigations := dropWhile (\<lambda>n. now - nav_timestamp n > kNavigationWindow * 4) (co_navigations c)\<rparr>"

definition browser_of :: "navigation \<Rightarrow> browser_info" where
  "browser_of m = \<lparr>br_tab_id = nav_tab_id m, br_window_id = nav_window_id m, br_url = nav_url m,
     br_title = nav_title m, br_navigation_id = nav_navigation_id m, br_frame_id = nav_frame_id m\<rparr>"

text \<open>The evidence of an event, given the navigation chosen for it, and its score.\<close>

definition process_matched :: "correlator \<Rightarrow> event \<Rightarrow> bool" where
  "process_matched c e = (case ev_process e of None \<Rightarrow> False | Some p \<Rightarrow> is_browser_process c (pi_pid p))"

definition host_matched :: "event \<Rightarrow> navigation option \<Rightarrow> bool" where
  "host_matched e mat =
     (case mat of None \<Rightarrow> False
      | Some m \<Rightarrow> (case ev_network e of None \<Rightarrow> False
          | Some n \<Rightarrow> net_dns_query_name n \<noteq> [] \<and> net_dns_query_name n = nav_host m))"

definition correlate_score :: "correlator \<Rightarrow> event \<Rightarrow> navigation option \<Rightarrow> double" where
  "correlate_score c e mat =
     score_evidence (process_matched c e) (mat \<noteq> None) (host_matched e mat) False (ev_source e = Pcap)"

definition correlate :: "time_point \<Rightarrow> event \<Rightarrow> correlator \<Rightarrow> event \<times> correlator" where
  "correlate now e c =
     (if ev_type e \<noteq> Connection \<and> ev_type e \<noteq> Dns then (e, c)
      else
        let c' = prune_navigations now c;
            mat = best_match c' e;
            confidence = correlate_score c e mat;
            e1 = e\<lparr>ev_confidence := confidence\<rparr>
        in (case mat of
              Some m \<Rightarrow> if rnd (40 / 100) \<le> confidence then e1\<lparr>ev_browser := Some (browser_of m)\<rparr> else e1
            | None \<Rightarrow> e1, c'))"

section \<open>Bands\<close>

lemma weight_values:
  "kWeightProcess = 3602879701896397 / 9007199254740992"
  "kWeightTemporal = 1080863910568919 / 9007199254740992"
  "kWeightHost = 3242591731706757 / 18014398509481984"
  "kWeightDirect = 4278419646001971 / 4503599627370496"
  "kPcapAttributionCap = 1553741871442821 / 2251799813685248"
  by (simp_all add: kWeightProcess_def kWeightTemporal_def kWeightHost_def kWeightDirect_def
      kPcapAttributionCap_def rnd_eval Let_def)

lemma threshold_values:
  "rnd (9 / 10) = 8106479329266893 / 9007199254740992"
  "rnd (7 / 10) = 3152519739159347 / 4503599627370496"
  "rnd (4 / 10) = 3602879701896397 / 9007199254740992"
  "rnd (40 / 100) = 3602879701896397 / 9007199254740992"
  "rnd (2 / 5) = 3602879701896397 / 9007199254740992"
  by (simp_all add: rnd_eval Let_def)

text \<open>The sums that can occur, in the order the code forms them.\<close>

lemma weight_sums:
  "fadd 0 kWeightProcess = 3602879701896397 / 9007199254740992"
  "fadd 0 kWeightTemporal = 1080863910568919 / 9007199254740992"
  "fadd 0 kWeightHost = 3242591731706757 / 18014398509481984"
  "fadd (3602879701896397 / 9007199254740992) kWeightTemporal = 1170935903116329 / 2251799813685248"
  "fadd (3602879701896397 / 9007199254740992) kWeightHost = 326510972984361 / 562949953421312"
  "fadd (1080863910568919 / 9007199254740992) kWeightHost = 5404319552844595 / 18014398509481984"
  "fadd (1170935903116329 / 2251799813685248) kWeightHost = 3152519739159347 / 4503599627370496"
  by (simp_all add: fadd_def weight_values rnd_eval Let_def)

text \<open>Every score, as a table.\<close>

lemma score_table:
  "score_evidence p t h True po = 4278419646001971 / 4503599627370496"
  "score_evidence True True True False False = 3152519739159347 / 4503599627370496"
  "score_evidence True True True False True = 1553741871442821 / 2251799813685248"
  "score_evidence True True False False po = 1170935903116329 / 2251799813685248"
  "score_evidence True False True False po = 326510972984361 / 562949953421312"
  "score_evidence True False False False po = 3602879701896397 / 9007199254740992"
  "score_evidence False True True False po = 5404319552844595 / 18014398509481984"
  "score_evidence False True False False po = 1080863910568919 / 9007199254740992"
  "score_evidence False False True False po = 3242591731706757 / 18014398509481984"
  "score_evidence False False False False po = 0"
  by (simp_all add: score_evidence_def weight_sums weight_values(4,5) kNoEvidenceScore_def Let_def min_def)

text \<open>
  The bands of the evidence score, as doubles.  A direct browser report is in the direct
  band and nothing else is; without one, the score reaches the probable threshold exactly
  when the process matched; it is strong exactly when process, time and host all matched and
  the event is not pcap-only (the three weights add up to the threshold exactly, rounding
  included); and it always lies between 0 and 1.
\<close>

theorem score_bands:
  "(confidence_band (score_evidence p t h d po) = Direct \<longleftrightarrow> d)
   \<and> (confidence_band (score_evidence p t h d po) = Strong \<longleftrightarrow> \<not> d \<and> p \<and> t \<and> h \<and> \<not> po)
   \<and> (confidence_band (score_evidence p t h d po) = Weak \<longleftrightarrow> \<not> d \<and> \<not> p)
   \<and> 0 \<le> score_evidence p t h d po \<and> score_evidence p t h d po \<le> 1"
  by (cases p; cases t; cases h; cases d; cases po)
    (simp_all add: score_table confidence_band_def threshold_values)

section \<open>The chosen navigation\<close>

abbreviation nav_delta :: "event \<Rightarrow> navigation \<Rightarrow> int" where
  "nav_delta e n \<equiv> \<bar>nav_timestamp n - ev_timestamp e\<bar>"

definition in_window :: "event \<Rightarrow> navigation \<Rightarrow> bool" where
  "in_window e n \<longleftrightarrow> nav_delta e n \<le> kNavigationWindow"

text \<open>What the best association is: within the window, host evidence first, then the closest.\<close>

definition is_best :: "event \<Rightarrow> navigation list \<Rightarrow> navigation option \<Rightarrow> bool" where
  "is_best e navs best =
     (case best of
        None \<Rightarrow> \<forall>m\<in>set navs. \<not> in_window e m
      | Some n \<Rightarrow> n \<in> set navs \<and> in_window e n
          \<and> (\<forall>m\<in>set navs. in_window e m \<longrightarrow>
               (host_matches e m \<longrightarrow> host_matches e n)
               \<and> (host_matches e m = host_matches e n \<longrightarrow> nav_delta e n \<le> nav_delta e m)))"

definition best_state :: "event \<Rightarrow> navigation list \<Rightarrow> navigation option \<times> int \<times> bool \<Rightarrow> bool" where
  "best_state e navs st =
     (case st of (best, delta, hm) \<Rightarrow>
        is_best e navs best
        \<and> (case best of None \<Rightarrow> True | Some n \<Rightarrow> delta = nav_delta e n \<and> hm = host_matches e n))"

lemma abs_delta_abs: "abs_delta a b = \<bar>a - b\<bar>"
  by (simp add: abs_delta_def)

lemma best_step_eq:
  "best_step e n (best, delta, hm) =
     (if \<not> in_window e n then (best, delta, hm)
      else if best = None \<or> (host_matches e n \<and> \<not> hm)
              \<or> (host_matches e n = hm \<and> nav_delta e n < delta)
      then (Some n, nav_delta e n, host_matches e n) else (best, delta, hm))"
  by (simp add: best_step_def Let_def in_window_def abs_delta_abs not_le)

lemma best_step_state:
  assumes "best_state e navs st"
  shows "best_state e (navs @ [n]) (best_step e n st)"
proof (cases st)
  case (fields best delta hm)
  show ?thesis
  proof (cases best)
    case None
    with assms fields show ?thesis by (auto simp: best_state_def best_step_eq is_best_def)
  next
    case (Some b)
    with assms fields show ?thesis
      by (cases "in_window e n") (auto simp: best_state_def best_step_eq is_best_def)
  qed
qed

lemma best_fold_state: "best_state e navs (fold (best_step e) navs (None, 2 ^ 63 - 1, False))"
proof (induction navs rule: rev_induct)
  case Nil
  show ?case by (simp add: best_state_def is_best_def)
next
  case (snoc n navs)
  then show ?case by (simp add: best_step_state)
qed

text \<open>
  The navigation chosen for an event is in the retained ones and at most ten seconds
  away, one whose host equals the DNS name is preferred to every one whose host does not, and
  among equals none is closer in time; no navigation is chosen exactly when none is in the
  window.
\<close>

theorem best_match_optimal: "is_best e (co_navigations c) (best_match c e)"
  using best_fold_state [of e "co_navigations c"]
  by (auto simp: best_match_def best_state_def split: prod.splits)

section \<open>What correlation attaches\<close>

lemma probable_iff_process: "rnd (40 / 100) \<le> score_evidence p t h False po \<longleftrightarrow> p"
  by (cases p; cases t; cases h; cases po) (simp_all add: score_table threshold_values)

lemma pcap_capped: "score_evidence p t h False True < rnd (7 / 10)"
  by (cases p; cases t; cases h) (simp_all add: score_table threshold_values)


text \<open>A connection of a browser process two seconds after a navigation.\<close>

definition sample_navigation_obs :: navigation where
  "sample_navigation_obs = \<lparr>nav_timestamp = seconds 100, nav_tab_id = 5, nav_window_id = 1, nav_host = ''a.org'',
     nav_url = ''https://a.org/'', nav_title = [], nav_navigation_id = ''n1'', nav_frame_id = 0\<rparr>"

definition sample_correlator :: correlator where
  "sample_correlator = record_navigation sample_navigation_obs
     (set_browser_processes [\<lparr>bp_pid = 7, bp_name = ''firefox''\<rparr>] correlator_init)"

definition sample_connection :: event where
  "sample_connection = event_init\<lparr>ev_source := Ebpf, ev_timestamp := seconds 102,
     ev_process := Some \<lparr>pi_pid = 7, pi_name = ''firefox'', pi_uid = None\<rparr>\<rparr>"

lemma sample_match:
  "best_match (prune_navigations (seconds 102) sample_correlator) sample_connection = Some sample_navigation_obs"
  by (simp add: sample_correlator_def sample_connection_def sample_navigation_obs_def best_match_def best_step_def
      record_navigation_def set_browser_processes_def correlator_init_def prune_navigations_def kNavigationWindow_def
      kMaxNavigations_def abs_delta_def event_init_def Let_def)

lemma sample_process: "ev_type sample_connection = Connection" "process_matched sample_correlator sample_connection"
  by (simp_all add: sample_connection_def event_init_def sample_correlator_def record_navigation_def
      set_browser_processes_def process_matched_def is_browser_process_def)


section \<open>Bounded memory\<close>

datatype correlator_op =
    RecordNavigation navigation
  | SetBrowserProcesses "browser_process list"
  | Correlate time_point event

fun correlator_step :: "correlator_op \<Rightarrow> correlator \<Rightarrow> correlator" where
  "correlator_step (RecordNavigation obs) c = record_navigation obs c"
| "correlator_step (SetBrowserProcesses ps) c = set_browser_processes ps c"
| "correlator_step (Correlate now e) c = snd (correlate now e c)"

lemma trim_front_drop: "trim_front cap xs = drop (length xs - cap) xs"
  by (induction xs) (auto simp: Suc_diff_le not_less)

lemma correlate_state: "snd (correlate now e c) = c \<or> snd (correlate now e c) = prune_navigations now c"
  by (auto simp: correlate_def Let_def)

lemma correlate_shrinks: "length (co_navigations (snd (correlate now e c))) \<le> length (co_navigations c)"
  using correlate_state [of now e c] length_dropWhile_le [of _ "co_navigations c"]
  by (auto simp: prune_navigations_def)

interpretation navigations: bounded_container "\<lambda>c. length (co_navigations c)" correlator_step kMaxNavigations
proof
  fix c :: correlator and op
  assume "length (co_navigations c) \<le> kMaxNavigations"
  then show "length (co_navigations (correlator_step op c)) \<le> kMaxNavigations"
    by (cases op)
      (auto simp: record_navigation_def trim_front_drop set_browser_processes_def
        intro: le_trans [OF correlate_shrinks])
qed

text \<open>
  Whatever sequence of navigations, process sets and correlations a correlator sees, it
  never retains more than 512 navigations.
\<close>

theorem navigations_bounded:
  "length (co_navigations (fold correlator_step ops correlator_init)) \<le> kMaxNavigations"
  by (rule navigations.run_bounded) (simp add: correlator_init_def)

text \<open>
  As long as nothing is pruned the correlator is a sliding window: after any sequence of
  observations it holds exactly the most recent 512 of them, in order.
\<close>

theorem record_navigation_window:
  "co_navigations (fold record_navigation obs correlator_init) = drop (length obs - kMaxNavigations) obs"
proof (induction obs rule: rev_induct)
  case Nil
  show ?case by (simp add: correlator_init_def)
next
  case (snoc x xs)
  have "length xs - (length xs - 512 + 511) + (length xs - 512) = length xs - 511" by arith
  with snoc show ?case by (simp add: record_navigation_def trim_front_drop kMaxNavigations_def)
qed

end
