(* ===== verification/Ez_Handler.thy ===== *)
theory Ez_Handler
  imports Ez_Server
begin

text \<open>
  The interface between the IPC server and the owner of its request handler.  The owner promises
  an invariant of its state that the handler keeps, and a property of messages that every answer has;
  the server then keeps the invariant and hands only such messages to the sockets, for every read and every
  broadcast of a good message.
\<close>

definition server_good :: "('d \<Rightarrow> bool) \<Rightarrow> (string \<Rightarrow> bool) \<Rightarrow> 'd server \<Rightarrow> bool" where
  "server_good keeps msg s \<longleftrightarrow> keeps (sv_daemon s) \<and> list_all (msg \<circ> snd) (sv_sent s)
     \<and> list_all (\<lambda>(fd, c). cl_out c = []) (sv_clients s)"

lemma send_each_subset: "set (fst (send_each send_ok ms)) \<subseteq> set ms"
  by (induction ms) (auto simp: case_prod_unfold Let_def)

lemma server_good_set:
  "server_good keeps msg s \<Longrightarrow> cl_out c = [] \<Longrightarrow> server_good keeps msg (s\<lparr>sv_clients := obj_set fd c (sv_clients s)\<rparr>)"
  using set_obj_set [of fd c "sv_clients s"] by (auto simp: server_good_def list_all_iff)

lemma server_good_drop: "server_good keeps msg s \<Longrightarrow> server_good keeps msg (drop_client fd s)"
  by (auto simp: server_good_def drop_client_def list_all_iff)

lemma server_good_client: "server_good keeps msg s \<Longrightarrow> map_of (sv_clients s) fd = Some c \<Longrightarrow> cl_out c = []"
  by (auto simp: server_good_def list_all_iff dest!: map_of_SomeD)

lemma accept_good: "server_good keeps msg s \<Longrightarrow> server_good keeps msg (accept_client cfg fd peer thread_ok s)"
  by (auto simp: accept_client_def Let_def client_init_def intro!: server_good_set server_good_drop)

locale request_handler =
  fixes cfg :: "'d server_cfg" and keeps :: "'d \<Rightarrow> bool" and msg :: "string \<Rightarrow> bool"
  assumes handler_keeps: "keeps d \<Longrightarrow> sc_handler cfg rq d = Some (resp, d') \<Longrightarrow> keeps d'"
    and answer_msg: "encode_response (sc_parse cfg) (sc_dump cfg) resp = Some t \<Longrightarrow> msg (t @ [newline])"
begin

lemma deliver_good:
  assumes "server_good keeps msg s" "cl_out c = []" "msg (t @ [newline])" "deliver cfg locked fd t c s = Inr (c', s')"
  shows "server_good keeps msg s' \<and> cl_out c' = []"
proof -
  have "list_all msg (fst (send_each (sc_send_ok cfg fd) [t @ [newline]]))"
    using send_each_subset [of "sc_send_ok cfg fd" "[t @ [newline]]"] assms(3) by (auto simp: list_all_iff)
  with assms show ?thesis
    by (auto simp: deliver_def server_good_def Let_def list_all_iff split: if_splits prod.splits)
qed

lemma answer_good:
  assumes "server_good keeps msg s" "cl_out c = []" "answer cfg fd locked (encode_response (sc_parse cfg) (sc_dump cfg) resp) c s = Inr (go, c', s')"
  shows "server_good keeps msg s' \<and> cl_out c' = []"
  using assms deliver_good [OF assms(1,2) answer_msg]
  by (auto simp: answer_def deliver_encoded_def res_simps split: option.splits)

lemma answer_error_good:
  "server_good keeps msg s \<Longrightarrow> cl_out c = [] \<Longrightarrow> answer_error cfg fd locked i e c s = Inr (go, c', s') \<Longrightarrow>
    server_good keeps msg s' \<and> cl_out c' = []"
  by (auto simp: answer_error_def encode_error_def dest: answer_good)

lemma handle_request_good:
  assumes "server_good keeps msg s" "cl_out c = []" "handle_request cfg fd rq c s = Inr (go, c', s')"
  shows "server_good keeps msg s' \<and> cl_out c' = []"
proof -
  have "cl_out (update_subs rq resp c) = []" for resp using assms(2) by (simp add: update_subs_def)
  moreover have "server_good keeps msg (s\<lparr>sv_daemon := d\<rparr>)" if "sc_handler cfg rq (sv_daemon s) = Some (resp, d)" for resp d
    using assms(1) handler_keeps [OF _ that] by (simp add: server_good_def)
  ultimately show ?thesis
    using assms by (auto simp: handle_request_def split: if_splits option.splits dest: answer_error_good answer_good)
qed

lemma handle_frame_good:
  "server_good keeps msg s \<Longrightarrow> cl_out c = [] \<Longrightarrow> handle_frame cfg fd f c s = Inr (go, c', s') \<Longrightarrow>
    server_good keeps msg s' \<and> cl_out c' = []"
  by (auto simp: handle_frame_def split: sum.splits dest: answer_error_good handle_request_good)

lemma handle_frames_good:
  "server_good keeps msg s \<Longrightarrow> cl_out c = [] \<Longrightarrow> handle_frames cfg fd fs c s = Inr (c', s') \<Longrightarrow>
    server_good keeps msg s' \<and> cl_out c' = []"
proof (induction fs arbitrary: c s)
  case (Cons f fs)
  obtain go c1 s1 where f: "handle_frame cfg fd f c s = Inr (go, c1, s1)"
      and r: "(if \<not> go then Inr (c1, s1\<lparr>sv_running := False\<rparr>) else handle_frames cfg fd fs c1 s1) = Inr (c', s')"
    using Cons.prems(3) by (auto simp: res_simps)
  from handle_frame_good [OF Cons.prems(1,2) f] have g: "server_good keeps msg s1" "cl_out c1 = []" by simp_all
  show ?case using r g Cons.IH [OF g] by (auto simp: server_good_def split: if_splits)
qed simp

lemma client_recv_good:
  assumes "server_good keeps msg s" "cl_out c = []" "client_recv cfg fd chunk c s = Inr (go, c', s')"
  shows "server_good keeps msg s' \<and> cl_out c' = []"
proof (cases "split_frames kMaxRequestBytes (cl_rx c @ chunk)")
  case (Inl e)
  then obtain g where "answer_error cfg fd False [] e c s = Inr (g, c', s')"
    using assms(3) by (auto simp: client_recv_def res_simps)
  with answer_error_good [OF assms(1,2)] show ?thesis .
next
  case (Inr x)
  obtain frames rest where x: "x = (frames, rest)" by fastforce
  have f: "handle_frames cfg fd frames (c\<lparr>cl_rx := rest\<rparr>) s = Inr (c', s')"
    using assms(3) unfolding client_recv_def Inr x
    by (cases "handle_frames cfg fd frames (c\<lparr>cl_rx := rest\<rparr>) s") (simp_all add: case_prod_unfold)
  show ?thesis using assms(2) by (intro handle_frames_good [OF assms(1) _ f]) simp
qed

lemma client_round_good:
  assumes "server_good keeps msg s" "client_round cfg fd chunk s = Inr s'"
  shows "server_good keeps msg s'"
proof (cases "map_of (sv_clients s) fd")
  case None
  then show ?thesis using assms by (simp add: client_round_def)
next
  case (Some c)
  show ?thesis
  proof (cases "chunk = []")
    case False
    then obtain go c1 s1 where r: "client_recv cfg fd chunk c s = Inr (go, c1, s1)"
        and s': "s' = (if go then s1\<lparr>sv_clients := obj_set fd c1 (sv_clients s1)\<rparr> else drop_client fd s1)"
      using assms(2) Some by (auto simp: client_round_def res_simps)
    from client_recv_good [OF assms(1) server_good_client [OF assms(1) Some] r] show ?thesis
      unfolding s' by (simp add: server_good_drop server_good_set)
  qed (use assms Some server_good_drop in \<open>auto simp: client_round_def\<close>)
qed

lemma deliver_to_good:
  "server_good keeps msg s \<Longrightarrow> list_all (\<lambda>(fd, c). cl_out c = []) cs \<Longrightarrow> msg (t @ [newline]) \<Longrightarrow>
    deliver_to cfg t cs s = Inr s' \<Longrightarrow> server_good keeps msg s'"
proof (induction cs arbitrary: s)
  case (Cons x cs)
  obtain fd c where x: "x = (fd, c)" by fastforce
  obtain c1 s1 where d: "deliver cfg False fd t c s = Inr (c1, s1)"
      and r: "deliver_to cfg t cs (s1\<lparr>sv_clients := obj_set fd c1 (sv_clients s1)\<rparr>) = Inr s'"
    using Cons.prems(4) x by (auto simp: res_simps)
  have "server_good keeps msg s1 \<and> cl_out c1 = []"
    using Cons.prems x d by (intro deliver_good) auto
  then have "server_good keeps msg (s1\<lparr>sv_clients := obj_set fd c1 (sv_clients s1)\<rparr>)" by (simp add: server_good_set)
  from Cons.IH [OF this _ _ r] Cons.prems show ?case by simp
qed simp

lemma broadcast_good:
  assumes "server_good keeps msg s" "\<And>t. encode_event (sc_dump cfg) e = Some t \<Longrightarrow> msg (t @ [newline])"
    and "broadcast cfg e s = Inr s'"
  shows "server_good keeps msg s'"
proof -
  obtain t where t: "encode_event (sc_dump cfg) e = Some t"
      "deliver_to cfg t (filter (\<lambda>(fd, c). cl_subs c \<noteq> {}) (sv_clients s)) s = Inr s'"
    using assms(3) by (auto simp: broadcast_def Let_def split: option.splits)
  moreover have "list_all (\<lambda>(fd, c). cl_out c = []) (filter (\<lambda>(fd, c). cl_subs c \<noteq> {}) (sv_clients s))"
    using assms(1) by (auto simp: server_good_def list_all_iff)
  ultimately show ?thesis using assms(2) by (intro deliver_to_good [OF assms(1) _ _ t(2)]) simp_all
qed

end

end
