(* ===== verification/Ez_Redactor.thy ===== *)
theory Ez_Redactor
  imports Ez_Types
begin

text \<open>
  \<^verbatim>\<open>src/policy/redactor.cpp\<close>: the privacy transforms on URLs and DNS names.  The audit array
  \<^verbatim>\<open>last_redactions_\<close>, written by each call, is the second component of the result.

  The lemmas give the meaning of the subdomain test, of the hostname mask and of the
  hostname hash, and state what a redacted URL can still contain.
\<close>

section \<open>The code\<close>

definition fnv1a_step :: "char \<Rightarrow> u64 \<Rightarrow> u64" where
  "fnv1a_step c hash = (hash XOR of_nat (code_of c)) * 1099511628211"

definition fnv1a_hex :: "string \<Rightarrow> string" where
  "fnv1a_hex data =
     (let hash = fold fnv1a_step data 14695981039346656037
      in concat (map (\<lambda>i. hex_byte (ucast (drop_bit (56 - 8 * i) hash))) [0..<8]))"

definition to_lower :: "string \<Rightarrow> string" where
  "to_lower s = map lower_char s"

definition host_under_domain :: "string \<Rightarrow> string \<Rightarrow> bool" where
  "host_under_domain host domain =
     (if host = domain then True
      else if length host \<le> length domain then False
      else if drop (length host - length domain) host \<noteq> domain then False
      else host ! (length host - length domain - 1) = CHR ''.'')"

definition domain_excluded :: "policy \<Rightarrow> string \<Rightarrow> bool" where
  "domain_excluded po host =
     (let lower = to_lower host
      in list_ex (\<lambda>domain. host_under_domain lower (to_lower domain)) (po_sensitive_domains po))"

text \<open>
  \<^verbatim>\<open>find_last_of('.', last_dot - 1)\<close>: for \<^verbatim>\<open>last_dot\<close> 0 the position wraps to the largest
  \<^verbatim>\<open>size_t\<close>, and the search covers the whole string.
\<close>

definition find_last_dot :: "string \<Rightarrow> nat option" where
  "find_last_dot s = last_idx ((=) (CHR ''.'')) s"

definition second_last_dot :: "string \<Rightarrow> nat \<Rightarrow> nat option" where
  "second_last_dot s last_dot = find_last_dot (if last_dot = 0 then s else take last_dot s)"

definition fill_stars :: "string \<Rightarrow> nat \<Rightarrow> string" where
  "fill_stars s e = take 1 s @ replicate (e - 1) (CHR ''*'') @ drop e s"

definition mask_hostname :: "string \<Rightarrow> string" where
  "mask_hostname host =
     (let last_dot = find_last_dot host;
          second_dot = Option.bind last_dot (second_last_dot host);
          e = (case second_dot of None \<Rightarrow> last_dot | Some d \<Rightarrow> Some d)
      in case e of
           None \<Rightarrow> host
         | Some d \<Rightarrow> if 1 < d then fill_stars host d else host)"

definition transform_hostname :: "policy \<Rightarrow> string \<Rightarrow> string" where
  "transform_hostname po host =
     (case po_redaction_mode po of
        DomainHash \<Rightarrow> fnv1a_hex host
      | DomainMask \<Rightarrow> mask_hostname host
      | _ \<Rightarrow> host)"

text \<open>The host part as \<^verbatim>\<open>redact_url\<close> extracts it: position and text.\<close>

definition url_host :: "string \<Rightarrow> nat \<times> string" where
  "url_host url =
     (let host_start = (case find_sub ''://'' url of None \<Rightarrow> 0 | Some i \<Rightarrow> i + 3)
      in (host_start,
          case find_any ''/?#'' url host_start of
            None \<Rightarrow> drop host_start url
          | Some e \<Rightarrow> take (e - host_start) (drop host_start url)))"

definition strip_at :: "char \<Rightarrow> string \<Rightarrow> string \<times> bool" where
  "strip_at c s = (case find_char c s 0 of None \<Rightarrow> (s, False) | Some i \<Rightarrow> (take i s, True))"

definition strip_path :: "nat \<Rightarrow> string \<Rightarrow> string" where
  "strip_path host_start s =
     (case find_char (CHR ''/'') s host_start of None \<Rightarrow> s | Some p \<Rightarrow> take p s)"

definition redact_url :: "policy \<Rightarrow> string \<Rightarrow> string \<times> redactions" where
  "redact_url po url =
     (let scheme = find_sub ''://'' url;
          (host_start, host) = url_host url
      in if host \<noteq> [] \<and> domain_excluded po host then
           ([], no_redactions\<lparr>rk_domain_excluded := True\<rparr>)
         else
           let (r1, frag) = (if po_strip_fragment po then strip_at (CHR ''#'') url else (url, False));
               (r2, query) = (if po_strip_query_string po then strip_at (CHR ''?'') r1 else (r1, False));
               red = no_redactions\<lparr>rk_fragment := frag, rk_query_string := query\<rparr>;
               (r3, red3) =
                 (if po_redaction_mode po = HostnameOnly \<and> scheme \<noteq> None then
                    (strip_path host_start r2,
                     red\<lparr>rk_query_string := True\<rparr>)
                  else (r2, red))
           in if (po_redaction_mode po = DomainHash \<or> po_redaction_mode po = DomainMask)
                  \<and> scheme \<noteq> None then
                (take host_start r3 @ transform_hostname po host
                   @ (case find_any ''/?#'' r3 host_start of None \<Rightarrow> [] | Some e \<Rightarrow> drop e r3),
                 if po_redaction_mode po = DomainHash then red3\<lparr>rk_hostname_hash := True\<rparr>
                 else red3\<lparr>rk_hostname_mask := True\<rparr>)
              else (r3, red3))"

definition redact_dns_name :: "policy \<Rightarrow> string \<Rightarrow> string \<times> redactions" where
  "redact_dns_name po name =
     (if name = [] then ([], no_redactions)
      else if domain_excluded po name then ([], no_redactions\<lparr>rk_domain_excluded := True\<rparr>)
      else case po_redaction_mode po of
             DomainHash \<Rightarrow> (fnv1a_hex name, no_redactions\<lparr>rk_hostname_hash := True\<rparr>)
           | DomainMask \<Rightarrow> (transform_hostname po name, no_redactions\<lparr>rk_hostname_mask := True\<rparr>)
           | _ \<Rightarrow> (name, no_redactions))"

section \<open>The subdomain test\<close>

lemma host_under_domain_iff:
  "host_under_domain host domain \<longleftrightarrow> host = domain \<or> (\<exists>p. host = p @ ''.'' @ domain)"
proof (cases "length host \<le> length domain")
  case True
  then show ?thesis by (auto simp: host_under_domain_def)
next
  case False
  define k where "k = length host - length domain - 1"
  have split: "host = take k host @ host ! k # drop (Suc k) host"
    using False by (intro id_take_nth_drop) (simp add: k_def)
  have "Suc k = length host - length domain" using False by (simp add: k_def)
  then have "host_under_domain host domain \<longleftrightarrow> drop (Suc k) host = domain \<and> host ! k = CHR ''.''"
    using False by (auto simp: host_under_domain_def k_def)
  also have "\<dots> \<longleftrightarrow> (\<exists>p. host = p @ ''.'' @ domain)"
  proof
    assume "drop (Suc k) host = domain \<and> host ! k = CHR ''.''"
    with split show "\<exists>p. host = p @ ''.'' @ domain"
      by (intro exI [of _ "take k host"]) auto
  next
    assume "\<exists>p. host = p @ ''.'' @ domain"
    then show "drop (Suc k) host = domain \<and> host ! k = CHR ''.''"
      by (auto simp: k_def nth_append)
  qed
  finally show ?thesis using False by auto
qed

lemma domain_excluded_iff:
  "domain_excluded po host \<longleftrightarrow>
     (\<exists>d\<in>set (po_sensitive_domains po).
        to_lower host = to_lower d \<or> (\<exists>p. to_lower host = p @ ''.'' @ to_lower d))"
  by (simp add: domain_excluded_def list_ex_iff host_under_domain_iff Let_def)

section \<open>Masks and hashes\<close>

lemma last_idx_last:
  assumes "P x" and "\<forall>y\<in>set ys. \<not> P y"
  shows "last_idx P (xs @ x # ys) = Some (length xs)"
proof -
  have "last_idx P ys = None" using assms(2) by (simp add: last_idx_None)
  then show ?thesis using assms(1) by (induction xs) simp_all
qed

lemma mask_three_labels:
  assumes "CHR ''.'' \<notin> set l1" "CHR ''.'' \<notin> set l2" "1 < length pre"
  shows "mask_hostname (pre @ ''.'' @ l1 @ ''.'' @ l2) =
     take 1 pre @ replicate (length pre - 1) (CHR ''*'') @ ''.'' @ l1 @ ''.'' @ l2"
proof -
  have last: "find_last_dot (pre @ ''.'' @ l1 @ ''.'' @ l2) = Some (length (pre @ ''.'' @ l1))"
    using last_idx_last [of "(=) (CHR ''.'')" "CHR ''.''" l2 "pre @ ''.'' @ l1"] assms(2)
    by (auto simp: find_last_dot_def)
  have "find_last_dot (pre @ ''.'' @ l1) = Some (length pre)"
    using last_idx_last [of "(=) (CHR ''.'')" "CHR ''.''" l1 pre] assms(1)
    by (auto simp: find_last_dot_def)
  then have "second_last_dot (pre @ ''.'' @ l1 @ ''.'' @ l2) (length (pre @ ''.'' @ l1)) = Some (length pre)"
    by (simp add: second_last_dot_def)
  with last assms(3) show ?thesis
    by (simp add: mask_hostname_def fill_stars_def take_Suc split: list.splits)
qed

lemma length_fill_stars: "1 < e \<Longrightarrow> e \<le> length s \<Longrightarrow> length (fill_stars s e) = length s"
  by (simp add: fill_stars_def)

lemma set_fill_stars: "set (fill_stars s e) \<subseteq> set s \<union> {CHR ''*''}"
  by (auto simp: fill_stars_def dest: in_set_takeD in_set_dropD)

lemma last_dot_bound: "find_last_dot s = Some i \<Longrightarrow> i < length s"
  unfolding find_last_dot_def by (drule last_idx_SomeD) simp

lemma second_last_dot_bound: "second_last_dot s i = Some j \<Longrightarrow> j < length s"
  unfolding second_last_dot_def by (drule last_dot_bound) (auto split: if_splits)

lemma length_mask_hostname: "length (mask_hostname s) = length s"
  by (auto simp: mask_hostname_def Let_def length_fill_stars bind_eq_Some_conv
      split: option.splits dest: last_dot_bound second_last_dot_bound)

lemma set_mask_hostname: "set (mask_hostname s) \<subseteq> set s \<union> {CHR ''*''}"
  using set_fill_stars [of s] by (auto simp: mask_hostname_def Let_def split: option.splits)

lemma fnv1a_hex_shape: "length (fnv1a_hex s) = 16 \<and> list_all is_lower_hex (fnv1a_hex s)"
  by (auto simp: fnv1a_hex_def Let_def length_concat comp_def sum_list_triv list_all_iff dest: hex_byte_lower_hex)

section \<open>Redacted URLs\<close>

lemma strip_at_takeWhile: "fst (strip_at c s) = takeWhile (\<lambda>x. x \<noteq> c) s"
proof -
  have "fst (strip_at c s) = (case first_idx ((=) c) s of None \<Rightarrow> s | Some i \<Rightarrow> take i s)"
    by (auto simp: strip_at_def find_char_def split: option.splits)
  then show ?thesis by (simp add: takeWhile_first_idx eq_commute)
qed

lemma strip_at_clean: "c \<notin> set (fst (strip_at c s))"
  by (auto simp: strip_at_takeWhile dest: set_takeWhileD)

lemma strip_at_subset: "set (fst (strip_at c s)) \<subseteq> set s"
  by (auto simp: strip_at_takeWhile dest: set_takeWhileD)

lemma strip_at_flag: "snd (strip_at c s) \<longleftrightarrow> c \<in> set s"
  by (auto simp: strip_at_def find_char_def first_idx_None split: option.splits)
    (metis first_idx_SomeD nth_mem)

lemma url_host_takeWhile:
  "snd (url_host u) = takeWhile (\<lambda>c. c \<notin> set ''/?#'') (drop (fst (url_host u)) u)"
proof -
  have "snd (url_host u) = (case first_idx (\<lambda>c. c \<in> set ''/?#'') (drop (fst (url_host u)) u) of
      None \<Rightarrow> drop (fst (url_host u)) u | Some i \<Rightarrow> take i (drop (fst (url_host u)) u))"
    by (auto simp: url_host_def Let_def find_any_def split: option.splits)
  then show ?thesis by (simp only: takeWhile_first_idx)
qed

lemma url_host_clean: "c \<in> set (snd (url_host u)) \<Longrightarrow> c \<notin> set ''/?#''"
  unfolding url_host_takeWhile by (drule set_takeWhileD) simp

lemma transform_hostname_clean:
  assumes "x \<in> set (transform_hostname po h)"
  shows "x \<in> set h \<or> x = CHR ''*'' \<or> is_lower_hex x"
  using assms set_mask_hostname [of h] fnv1a_hex_shape [of h]
  by (auto simp: transform_hostname_def list_all_iff split: redaction_mode.splits)

text \<open>What the last two phases of \<^const>\<open>redact_url\<close> can add to the stripped text.\<close>

lemma redact_url_chars:
  assumes "x \<in> set (fst (redact_url po u))"
  shows "x \<in> set (snd (url_host u)) \<or> x = CHR ''*'' \<or> is_lower_hex x
     \<or> x \<in> set (fst (if po_strip_query_string po
           then strip_at (CHR ''?'') (fst (if po_strip_fragment po then strip_at (CHR ''#'') u else (u, False)))
           else (if po_strip_fragment po then strip_at (CHR ''#'') u else (u, False))))"
  using assms transform_hostname_clean [of x po "snd (url_host u)"]
  by (auto simp: redact_url_def strip_path_def Let_def split: if_splits option.splits prod.splits
      dest: in_set_takeD in_set_dropD)

lemma find_sub_scheme: "CHR '':'' \<notin> set sch \<Longrightarrow> find_sub ''://'' (sch @ ''://'' @ r) = Some (length sch)"
  by (induction sch) auto

text \<open>An absolute URL: scheme, host, and a rest that starts at a path, a query or a fragment.\<close>

definition absolute_url :: "string \<Rightarrow> string \<Rightarrow> string \<Rightarrow> bool" where
  "absolute_url sch host rest \<longleftrightarrow>
     list_all (\<lambda>c. c \<notin> set '':?#'') sch \<and> list_all (\<lambda>c. c \<notin> set ''/?#'') host
     \<and> (rest = [] \<or> hd rest \<in> set ''/?#'')"

lemma absolute_url_parts:
  assumes "absolute_url sch host rest"
  shows "find_sub ''://'' (sch @ ''://'' @ host @ rest) = Some (length sch)"
    and "url_host (sch @ ''://'' @ host @ rest) = (length sch + 3, host)"
proof -
  show sub: "find_sub ''://'' (sch @ ''://'' @ host @ rest) = Some (length sch)"
    using assms by (intro find_sub_scheme) (auto simp: absolute_url_def list_all_iff)
  then have fst: "fst (url_host (sch @ ''://'' @ host @ rest)) = length sch + 3"
    by (simp add: url_host_def Let_def)
  have "takeWhile (\<lambda>c. c \<notin> set ''/?#'') (host @ rest) = host"
    using assms by (cases rest) (auto simp: absolute_url_def list_all_iff takeWhile_append)
  then have "snd (url_host (sch @ ''://'' @ host @ rest)) = host"
    by (simp only: url_host_takeWhile fst) simp
  with fst show "url_host (sch @ ''://'' @ host @ rest) = (length sch + 3, host)"
    by (simp add: prod_eq_iff)
qed

lemma strip_both:
  "fst (strip_at (CHR ''?'') (fst (strip_at (CHR ''#'') u))) = takeWhile (\<lambda>c. c \<notin> set ''?#'') u"
  unfolding strip_at_takeWhile by (induction u) auto

lemma redacted_has_no_query:
  assumes "po_strip_query_string po" "po_strip_fragment po"
  shows "CHR ''?'' \<notin> set (fst (redact_url po u)) \<and> CHR ''#'' \<notin> set (fst (redact_url po u))"
proof -
  have hex: "\<not> is_lower_hex (CHR ''?'')" "\<not> is_lower_hex (CHR ''#'')"
    by (simp_all add: is_lower_hex_def is_digit_def)
  have sub: "set (fst (strip_at (CHR ''?'') (fst (strip_at (CHR ''#'') u)))) \<subseteq> set (fst (strip_at (CHR ''#'') u))"
    by (rule strip_at_subset)
  show ?thesis
    using assms hex sub strip_at_clean [of "CHR ''?''"] strip_at_clean [of "CHR ''#''"]
    by (auto dest!: redact_url_chars url_host_clean)
qed

text \<open>
  With both strip flags on, no URL the redactor returns contains a query or a fragment
  delimiter, in any redaction mode and for any input text.
\<close>

theorem redact_url_strips:
  assumes "po_strip_query_string po" "po_strip_fragment po"
  shows "CHR ''?'' \<notin> set (fst (redact_url po u)) \<and> CHR ''#'' \<notin> set (fst (redact_url po u))"
  using assms by (rule redacted_has_no_query)

text \<open>
  A URL whose host is a sensitive domain or a subdomain of one, in any letter case, is
  replaced by the empty text, and the audit records the exclusion and nothing else.
\<close>

theorem redact_url_excludes:
  assumes "absolute_url sch host rest" "host \<noteq> []" "d \<in> set (po_sensitive_domains po)"
    and "to_lower host = to_lower d \<or> to_lower host = p @ ''.'' @ to_lower d"
  shows "redact_url po (sch @ ''://'' @ host @ rest) = ([], no_redactions\<lparr>rk_domain_excluded := True\<rparr>)"
proof -
  have "domain_excluded po host" using assms(3,4) by (auto simp: domain_excluded_iff)
  then show ?thesis
    using assms(2) by (simp only: redact_url_def absolute_url_parts [OF assms(1)]) simp
qed

text \<open>
  In hostname-only mode with both strip flags on, an absolute URL whose host is not
  excluded is reduced to exactly scheme and host.
\<close>

theorem redact_url_hostname_only:
  assumes "absolute_url sch host rest" "\<not> domain_excluded po host"
    and "po_redaction_mode po = HostnameOnly" "po_strip_query_string po" "po_strip_fragment po"
  shows "fst (redact_url po (sch @ ''://'' @ host @ rest)) = sch @ ''://'' @ host"
proof -
  let ?u = "sch @ ''://'' @ host @ rest"
  define r where "r = takeWhile (\<lambda>c. c \<notin> set ''?#'') rest"
  have sch: "c \<in> set sch \<Longrightarrow> c \<notin> set ''?#''" and host: "c \<in> set host \<Longrightarrow> c \<notin> set ''/?#''" for c
    using assms(1) by (auto simp: absolute_url_def list_all_iff)
  have "takeWhile (\<lambda>c. c \<notin> set ''?#'') ?u = sch @ ''://'' @ host @ r"
    using sch host by (simp add: r_def takeWhile_append)
  then have strip: "fst (strip_at (CHR ''?'') (fst (strip_at (CHR ''#'') ?u))) = sch @ ''://'' @ host @ r"
    by (simp only: strip_both)
  have slash: "r = [] \<or> (\<exists>t. r = CHR ''/'' # t)"
    using assms(1) by (cases rest) (auto simp: r_def absolute_url_def)
  have none: "first_idx ((=) (CHR ''/'')) host = None"
    using host by (auto simp: first_idx_None)
  define t where "t = sch @ ''://'' @ host @ r"
  have cut: "strip_path (length sch + 3) t = sch @ ''://'' @ host"
    using slash none by (auto simp: strip_path_def t_def find_char_def first_idx_append numeral_3_eq_3)
  show ?thesis
    using assms(2-5) strip [folded t_def]
    by (simp only: redact_url_def absolute_url_parts [OF assms(1)] Let_def)
      (simp add: case_prod_unfold cut)
qed

text \<open>
  In mask mode a DNS name of three or more labels that is not excluded keeps its first
  character and its last two labels, every other character before them becomes a star (the
  dots between the leading labels too), the length is kept and the audit records the mask.
\<close>

theorem redact_dns_mask:
  assumes "po_redaction_mode po = DomainMask" "1 < length pre"
    and "CHR ''.'' \<notin> set l1" "CHR ''.'' \<notin> set l2"
    and "\<not> domain_excluded po (pre @ ''.'' @ l1 @ ''.'' @ l2)"
  shows "redact_dns_name po (pre @ ''.'' @ l1 @ ''.'' @ l2) =
     (hd pre # replicate (length pre - 1) (CHR ''*'') @ ''.'' @ l1 @ ''.'' @ l2,
      no_redactions\<lparr>rk_hostname_mask := True\<rparr>)"
proof -
  have "take 1 pre = [hd pre]" using assms(2) by (cases pre) auto
  then show ?thesis
    using assms mask_three_labels [OF assms(3,4,2)]
    by (simp add: redact_dns_name_def transform_hostname_def)
qed

text \<open>
  The exclusion test compares the whole authority, so a port hides a sensitive domain.
\<close>

lemma excluded_domain_with_port_escapes:
  "redact_url (policy_init\<lparr>po_sensitive_domains := [''bank.com'']\<rparr>) ''https://bank.com:8443/x''
     = (''https://bank.com:8443/x'', no_redactions)"
  by (simp add: redact_url_def url_host_def Let_def find_any_def find_char_def strip_at_def
      domain_excluded_def host_under_domain_def to_lower_def lower_char_def is_upper_def
      policy_init_def no_redactions_def)

end
