(* ===== verification/Ez_Policy.thy ===== *)
theory Ez_Policy
  imports Ez_Redactor Ez_Json
begin

text \<open>
  \<^verbatim>\<open>src/policy/policy_engine.cpp\<close>: the active policy, its application to an event, its update
  from a \<^verbatim>\<open>set_policy\<close> document and its printing.  The engine's state is the policy; the mutex
  makes each operation atomic, so an operation is a function of the policy it finds.

  The lemmas show which documents are accepted, that every accepted document keeps the
  bounds and the strip flags, that a printed policy reads back, and what an event that
  passed the engine can no longer contain.  The contract a pipeline relies on is the
  locale \<open>event_sanitizer\<close>.
\<close>

section \<open>Application\<close>

definition or_redactions :: "redactions \<Rightarrow> redactions \<Rightarrow> redactions" where
  "or_redactions a b =
     \<lparr>rk_query_string = rk_query_string a \<or> rk_query_string b,
      rk_fragment = rk_fragment a \<or> rk_fragment b,
      rk_hostname_hash = rk_hostname_hash a \<or> rk_hostname_hash b,
      rk_hostname_mask = rk_hostname_mask a \<or> rk_hostname_mask b,
      rk_domain_excluded = rk_domain_excluded a \<or> rk_domain_excluded b\<rparr>"

text \<open>
  The two redaction steps of \<^verbatim>\<open>apply\<close>: the new part of the event, whether it was redacted, and
  the redactor's audit, which a step that calls the redactor overwrites.
\<close>

definition apply_dns :: "policy \<Rightarrow> network_info option \<Rightarrow> redactions \<Rightarrow> network_info option \<times> bool \<times> redactions" where
  "apply_dns po network audit =
     (case network of
        None \<Rightarrow> (network, False, audit)
      | Some n \<Rightarrow>
          if net_dns_query_name n = [] then (network, False, audit)
          else let (name, kinds) = redact_dns_name po (net_dns_query_name n)
               in if name = [] then (Some (n\<lparr>net_dns_query_name := []\<rparr>), True, kinds)
                  else if name \<noteq> net_dns_query_name n then (Some (n\<lparr>net_dns_query_name := name\<rparr>), True, kinds)
                  else (network, False, kinds))"

definition apply_url :: "policy \<Rightarrow> browser_info option \<Rightarrow> redactions \<Rightarrow> browser_info option \<times> bool \<times> redactions" where
  "apply_url po browser audit =
     (case browser of
        None \<Rightarrow> (browser, False, audit)
      | Some b \<Rightarrow>
          if br_url b = [] then (browser, False, audit)
          else let (url, kinds) = redact_url po (br_url b)
               in if url = [] then (None, True, kinds)
                  else if url \<noteq> br_url b then (Some (b\<lparr>br_url := url\<rparr>), True, kinds)
                  else (browser, False, kinds))"

definition apply_policy :: "policy \<Rightarrow> event \<Rightarrow> policy_decision \<times> event" where
  "apply_policy po e =
     (if \<not> pv_metadata_only (ev_privacy e) then (Drop, e)
      else
        let (network, red1, last1) = apply_dns po (ev_network e) no_redactions;
            (browser, red2, kinds) = apply_url po (ev_browser e) last1;
            redacted = (red1 \<or> red2);
            privacy = (ev_privacy e)\<lparr>pv_redacted := redacted,
                        pv_redactions := or_redactions (pv_redactions (ev_privacy e)) kinds\<rparr>
        in (if redacted then Redact else Allow,
            e\<lparr>ev_network := network, ev_browser := browser, ev_privacy := privacy\<rparr>))"

section \<open>Update and printing\<close>

definition policy_engine_init :: policy where
  "policy_engine_init = policy_init\<lparr>po_redaction_mode := QueryStringRemoval,
     po_strip_query_string := True, po_strip_fragment := True, po_persistence_enabled := False\<rparr>"

definition when_member :: "json \<Rightarrow> string \<Rightarrow> (json \<Rightarrow> 'a \<Rightarrow> 'e + 'a) \<Rightarrow> 'a \<Rightarrow> 'e + 'a" where
  "when_member doc k f x = (case member doc k of None \<Rightarrow> Inr x | Some v \<Rightarrow> f v x)"

definition check_metadata_only :: "json \<Rightarrow> policy \<Rightarrow> string + policy" where
  "check_metadata_only flag nxt =
     (if \<not> is_boolean flag \<or> \<not> get_bool flag then Inl ''metadata-only mode cannot be disabled'' else Inr nxt)"

definition update_mode :: "json \<Rightarrow> policy \<Rightarrow> string + policy" where
  "update_mode mode nxt =
     (if \<not> is_string mode then Inl ''redaction.mode must be a string''
      else case redaction_mode_from_name (get_string mode) of
             None \<Rightarrow> Inl ''unknown redaction mode''
           | Some m \<Rightarrow> Inr (nxt\<lparr>po_redaction_mode := m\<rparr>))"

fun domain_entries :: "json list \<Rightarrow> string + string list" where
  "domain_entries [] = Inr []"
| "domain_entries (d # ds) =
     (if \<not> is_string d \<or> 253 < length (get_string d) then Inl ''invalid sensitive domain entry''
      else res_bind (domain_entries ds) (\<lambda>rest. Inr (get_string d # rest)))"

definition update_domains :: "json \<Rightarrow> policy \<Rightarrow> string + policy" where
  "update_domains domains nxt =
     (if \<not> is_array domains \<or> 256 < jsize domains
      then Inl ''sensitive_domains must be an array of at most 256 entries''
      else res_bind (domain_entries (elems domains))
             (\<lambda>ds. Inr (nxt\<lparr>po_sensitive_domains := ds\<rparr>)))"

definition update_redaction :: "json \<Rightarrow> policy \<Rightarrow> string + policy" where
  "update_redaction red nxt =
     (if \<not> is_object red then Inl ''redaction must be an object''
      else res_bind (when_member red ''mode'' update_mode nxt)
             (when_member red ''sensitive_domains'' update_domains))"

definition update_enabled :: "json \<Rightarrow> policy \<Rightarrow> string + policy" where
  "update_enabled flag nxt =
     (if \<not> is_boolean flag then Inl ''persistence.enabled must be a boolean''
      else Inr (nxt\<lparr>po_persistence_enabled := get_bool flag\<rparr>))"

definition update_retention :: "json \<Rightarrow> policy \<Rightarrow> string + policy" where
  "update_retention secs nxt =
     (if \<not> is_number_integer secs then Inl ''retention_seconds must be an integer''
      else let v = get_int64 secs
           in if v < 60 \<or> 31536000 < v then Inl ''retention_seconds out of range''
              else Inr (nxt\<lparr>po_retention := v\<rparr>))"

definition update_persistence :: "json \<Rightarrow> policy \<Rightarrow> string + policy" where
  "update_persistence persist nxt =
     (if \<not> is_object persist then Inl ''persistence must be an object''
      else res_bind (when_member persist ''enabled'' update_enabled nxt)
             (when_member persist ''retention_seconds'' update_retention))"

definition update_from_json :: "policy \<Rightarrow> json \<Rightarrow> string + policy" where
  "update_from_json po doc =
     (if \<not> is_object doc then Inl ''policy document must be an object''
      else res_bind (when_member doc ''metadata_only'' check_metadata_only po)
             (\<lambda>p. res_bind (when_member doc ''redaction'' update_redaction p)
                (when_member doc ''persistence'' update_persistence)))"

definition policy_to_json :: "policy \<Rightarrow> json" where
  "policy_to_json po =
     (let redaction = assign ''sensitive_domains'' (JArray (map JString (po_sensitive_domains po)))
                        (assign ''mode'' (JString (redaction_mode_name (po_redaction_mode po))) JNull);
          persistence = assign ''retention_seconds'' (JInteger (word_of_int (po_retention po)))
                          (assign ''enabled'' (JBool (po_persistence_enabled po)) JNull)
      in assign ''persistence'' persistence
           (assign ''redaction'' redaction (assign ''metadata_only'' (JBool True) JNull)))"

section \<open>Which documents are accepted\<close>

definition policy_inv :: "policy \<Rightarrow> bool" where
  "policy_inv po \<longleftrightarrow>
     po_strip_query_string po \<and> po_strip_fragment po
     \<and> 60 \<le> po_retention po \<and> po_retention po \<le> 31536000
     \<and> length (po_sensitive_domains po) \<le> 256
     \<and> list_all (\<lambda>d. length d \<le> 253) (po_sensitive_domains po)"

lemma when_member_Inr:
  "when_member doc k f x = Inr y \<longleftrightarrow>
     (case member doc k of None \<Rightarrow> y = x | Some v \<Rightarrow> f v x = Inr y)"
  by (auto simp: when_member_def split: option.splits)

lemma when_member_keeps:
  "when_member doc k f x = Inr y \<Longrightarrow> P x \<Longrightarrow> (\<And>v z. P x \<Longrightarrow> f v x = Inr z \<Longrightarrow> P z) \<Longrightarrow> P y"
  by (auto simp: when_member_def split: option.splits)

lemma domain_entries_Inr:
  "domain_entries ds = Inr xs \<longleftrightarrow>
     list_all (\<lambda>d. is_string d \<and> length (get_string d) \<le> 253) ds \<and> xs = map get_string ds"
  by (induction ds arbitrary: xs) (auto simp: res_simps)

lemma jsize_elems: "is_array d \<Longrightarrow> jsize d = length (elems d)"
  by (cases d) auto

lemma update_mode_inv: "policy_inv p \<Longrightarrow> update_mode v p = Inr q \<Longrightarrow> policy_inv q"
  by (auto simp: update_mode_def policy_inv_def split: if_splits option.splits)

lemma update_domains_inv: "policy_inv p \<Longrightarrow> update_domains v p = Inr q \<Longrightarrow> policy_inv q"
  by (auto simp: update_domains_def policy_inv_def res_simps domain_entries_Inr jsize_elems list_all_iff
      split: if_splits)

lemma update_redaction_inv: "policy_inv p \<Longrightarrow> update_redaction v p = Inr q \<Longrightarrow> policy_inv q"
  by (auto simp: update_redaction_def res_simps split: if_splits
      elim!: when_member_keeps [where P = policy_inv] dest: update_mode_inv update_domains_inv)

lemma update_persistence_inv: "policy_inv p \<Longrightarrow> update_persistence v p = Inr q \<Longrightarrow> policy_inv q"
  by (auto simp: update_persistence_def res_simps update_enabled_def update_retention_def Let_def
      policy_inv_def split: if_splits elim!: when_member_keeps [where P = policy_inv, unfolded policy_inv_def])

lemma update_keeps_inv: "policy_inv p \<Longrightarrow> update_from_json p doc = Inr q \<Longrightarrow> policy_inv q"
  by (auto simp: update_from_json_def res_simps check_metadata_only_def split: if_splits
      elim!: when_member_keeps [where P = policy_inv] dest: update_redaction_inv update_persistence_inv)

lemma policy_engine_init_inv: "policy_inv policy_engine_init"
  by (simp add: policy_inv_def policy_engine_init_def policy_init_def)

text \<open>The document grammar of \<^verbatim>\<open>set_policy\<close>, stated without the order of the checks.\<close>

definition redaction_section_ok :: "json \<Rightarrow> bool" where
  "redaction_section_ok r \<longleftrightarrow>
     is_object r
     \<and> (\<forall>m. member r ''mode'' = Some m \<longrightarrow> (\<exists>k. m = JString (redaction_mode_name k)))
     \<and> (\<forall>d. member r ''sensitive_domains'' = Some d \<longrightarrow>
          (\<exists>ns. d = JArray (map JString ns) \<and> length ns \<le> 256 \<and> (\<forall>n\<in>set ns. length n \<le> 253)))"

definition persistence_section_ok :: "json \<Rightarrow> bool" where
  "persistence_section_ok p \<longleftrightarrow>
     is_object p
     \<and> (\<forall>b. member p ''enabled'' = Some b \<longrightarrow> is_boolean b)
     \<and> (\<forall>s. member p ''retention_seconds'' = Some s \<longrightarrow>
          is_number_integer s \<and> 60 \<le> get_int64 s \<and> get_int64 s \<le> 31536000)"

definition policy_document_ok :: "json \<Rightarrow> bool" where
  "policy_document_ok doc \<longleftrightarrow>
     is_object doc
     \<and> (\<forall>v. member doc ''metadata_only'' = Some v \<longrightarrow> v = JBool True)
     \<and> (\<forall>r. member doc ''redaction'' = Some r \<longrightarrow> redaction_section_ok r)
     \<and> (\<forall>p. member doc ''persistence'' = Some p \<longrightarrow> persistence_section_ok p)"

lemma is_ok_when_member: "is_ok (when_member doc k f x) \<longleftrightarrow> (\<forall>v. member doc k = Some v \<longrightarrow> is_ok (f v x))"
  by (simp add: when_member_def split: option.splits)

lemma is_ok_bind: "(\<And>x. is_ok (f x) = Q) \<Longrightarrow> is_ok (res_bind m f) \<longleftrightarrow> is_ok m \<and> Q"
  by (cases m) simp_all

lemma is_ok_Inr: "is_ok m \<longleftrightarrow> (\<exists>x. m = Inr x)"
  by (cases m) simp_all

lemma is_ok_update_mode: "is_ok (update_mode m p) \<longleftrightarrow> (\<exists>k. m = JString (redaction_mode_name k))"
  by (cases m) (auto simp: update_mode_def redaction_modes.from_name_iff split: option.splits)

lemma strings_array: "list_all (\<lambda>d. is_string d \<and> length (get_string d) \<le> 253) ds \<longleftrightarrow>
    (\<exists>ns. ds = map JString ns \<and> (\<forall>n\<in>set ns. length n \<le> 253))"
proof
  assume *: "list_all (\<lambda>d. is_string d \<and> length (get_string d) \<le> 253) ds"
  then have "ds = map JString (map get_string ds)"
    by (simp add: list_all_iff get_string_id map_idI)
  with * show "\<exists>ns. ds = map JString ns \<and> (\<forall>n\<in>set ns. length n \<le> 253)"
    by (intro exI [of _ "map get_string ds"]) (auto simp: list_all_iff)
qed (auto simp: list_all_iff)

lemma is_ok_update_domains: "is_ok (update_domains d p) \<longleftrightarrow>
    (\<exists>ns. d = JArray (map JString ns) \<and> length ns \<le> 256 \<and> (\<forall>n\<in>set ns. length n \<le> 253))"
proof (cases d)
  case (JArray ds)
  have "is_ok (domain_entries ds) \<longleftrightarrow> (\<exists>ns. ds = map JString ns \<and> (\<forall>n\<in>set ns. length n \<le> 253))"
    by (simp add: is_ok_Inr domain_entries_Inr strings_array)
  with JArray show ?thesis by (auto simp: update_domains_def is_ok_bind)
qed (auto simp: update_domains_def)

lemma is_ok_update_redaction: "is_ok (update_redaction r p) \<longleftrightarrow> redaction_section_ok r"
  by (simp add: update_redaction_def redaction_section_ok_def is_ok_bind is_ok_when_member
      is_ok_update_mode is_ok_update_domains)

lemma is_ok_update_enabled: "is_ok (update_enabled b p) \<longleftrightarrow> is_boolean b"
  by (simp add: update_enabled_def)

lemma is_ok_update_retention: "is_ok (update_retention s p) \<longleftrightarrow>
    is_number_integer s \<and> 60 \<le> get_int64 s \<and> get_int64 s \<le> 31536000"
  by (auto simp: update_retention_def Let_def)

lemma is_ok_update_persistence: "is_ok (update_persistence r p) \<longleftrightarrow> persistence_section_ok r"
  by (simp add: update_persistence_def persistence_section_ok_def is_ok_bind is_ok_when_member
      is_ok_update_enabled is_ok_update_retention)

lemma is_ok_check_metadata_only: "is_ok (check_metadata_only v p) \<longleftrightarrow> v = JBool True"
  by (cases v) (auto simp: check_metadata_only_def)


text \<open>
  C27: every policy an engine can reach by updates from its constructor keeps the strip flags
  on and stays within the bounds on retention and on the sensitive domains; a refused
  document leaves the policy as it was.
\<close>

theorem engine_policy_inv:
  "policy_inv (fold (\<lambda>doc po. case update_from_json po doc of Inl _ \<Rightarrow> po | Inr q \<Rightarrow> q) docs policy_engine_init)"
proof -
  have "policy_inv po \<Longrightarrow>
      policy_inv (fold (\<lambda>doc po. case update_from_json po doc of Inl _ \<Rightarrow> po | Inr q \<Rightarrow> q) docs po)" for po
    by (induction docs arbitrary: po) (auto split: sum.splits dest: update_keeps_inv)
  then show ?thesis by (simp add: policy_engine_init_inv)
qed

lemma sint_retention: "60 \<le> r \<Longrightarrow> r \<le> 31536000 \<Longrightarrow> sint (word_of_int r :: u64) = r"
  by (simp add: sint_sbintrunc' signed_take_bit_int_eq_self)

lemma domain_entries_map:
  "list_all (\<lambda>d. length d \<le> 253) ds \<Longrightarrow> domain_entries (map JString ds) = Inr ds"
  by (simp add: domain_entries_Inr list_all_iff comp_def)

text \<open>
  C28: printing a policy and loading the document into an engine with any other policy
  carries over the redaction mode, the sensitive domains, the persistence flag and the
  retention, and nothing else; in particular a policy reads back from its own document.
\<close>

theorem policy_round_trip:
  assumes "policy_inv po"
  shows "update_from_json other (policy_to_json po) =
     Inr (other\<lparr>po_redaction_mode := po_redaction_mode po, po_sensitive_domains := po_sensitive_domains po,
        po_persistence_enabled := po_persistence_enabled po, po_retention := po_retention po\<rparr>)"
  using assms
  by (simp add: policy_to_json_def Let_def update_from_json_def when_member_def check_metadata_only_def
      update_redaction_def update_mode_def update_domains_def domain_entries_map update_persistence_def
      update_enabled_def update_retention_def policy_inv_def sint_retention member_def)

theorem policy_round_trip_witness:
  "update_from_json policy_engine_init (policy_to_json (policy_engine_init\<lparr>po_redaction_mode := DomainHash,
       po_sensitive_domains := [''bank.com''], po_retention := 3600\<rparr>)) =
     Inr (policy_engine_init\<lparr>po_redaction_mode := DomainHash, po_sensitive_domains := [''bank.com''],
       po_persistence_enabled := False, po_retention := 3600\<rparr>)"
  by (subst policy_round_trip) (simp_all add: policy_inv_def policy_engine_init_def policy_init_def)

section \<open>What passes the engine\<close>

text \<open>A published event carries no query, no fragment, and the metadata-only mark.\<close>

definition event_clean :: "event \<Rightarrow> bool" where
  "event_clean e \<longleftrightarrow>
     pv_metadata_only (ev_privacy e)
     \<and> (case ev_browser e of None \<Rightarrow> True
        | Some b \<Rightarrow> CHR ''?'' \<notin> set (br_url b) \<and> CHR ''#'' \<notin> set (br_url b))"

text \<open>The sensitive domains of a policy are gone from what the engine inspects.\<close>

definition hides_sensitive :: "policy \<Rightarrow> event \<Rightarrow> event \<Rightarrow> bool" where
  "hides_sensitive po before after \<longleftrightarrow>
     (case ev_browser before of None \<Rightarrow> True
      | Some b \<Rightarrow> br_url b \<noteq> [] \<and> snd (url_host (br_url b)) \<noteq> []
          \<and> domain_excluded po (snd (url_host (br_url b))) \<longrightarrow> ev_browser after = None)
     \<and> (case ev_network before of None \<Rightarrow> True
      | Some n \<Rightarrow> domain_excluded po (net_dns_query_name n) \<longrightarrow>
          (case ev_network after of None \<Rightarrow> False | Some n' \<Rightarrow> net_dns_query_name n' = []))"

lemma redact_url_clean:
  assumes "policy_inv po"
  shows "CHR ''?'' \<notin> set (fst (redact_url po u))" "CHR ''#'' \<notin> set (fst (redact_url po u))"
  using assms redacted_has_no_query [of po u] by (simp_all add: policy_inv_def)

lemma apply_url_clean:
  "policy_inv po \<Longrightarrow> apply_url po br au = (Some b, red, au') \<Longrightarrow> CHR ''?'' \<notin> set (br_url b) \<and> CHR ''#'' \<notin> set (br_url b)"
  using redact_url_clean [of po]
  by (auto simp: apply_url_def split: option.splits if_splits prod.splits) (metis fst_conv)+

text \<open>The result of \<^const>\<open>apply_policy\<close> by its two steps.\<close>

lemma apply_policy_eq:
  assumes "pv_metadata_only (ev_privacy e)"
    and "D = apply_dns po (ev_network e) no_redactions"
    and "U = apply_url po (ev_browser e) (snd (snd D))"
  shows "apply_policy po e =
    (if fst (snd D) \<or> fst (snd U) then Redact else Allow,
     e\<lparr>ev_network := fst D, ev_browser := fst U,
       ev_privacy := (ev_privacy e)\<lparr>pv_redacted := (fst (snd D) \<or> fst (snd U)),
         pv_redactions := or_redactions (pv_redactions (ev_privacy e)) (snd (snd U))\<rparr>\<rparr>)"
  using assms(1) unfolding assms(2,3) by (simp add: apply_policy_def Let_def case_prod_unfold)

lemma apply_policy_drop: "\<not> pv_metadata_only (ev_privacy e) \<Longrightarrow> apply_policy po e = (Drop, e)"
  by (simp add: apply_policy_def)

lemma apply_policy_drop_iff: "fst (apply_policy po e) = Drop \<longleftrightarrow> \<not> pv_metadata_only (ev_privacy e)"
  by (cases "pv_metadata_only (ev_privacy e)") (simp_all add: apply_policy_eq apply_policy_drop)

lemma apply_policy_clean:
  assumes "policy_inv po" "apply_policy po e = (d, e')" "d \<noteq> Drop"
  shows "event_clean e'"
proof -
  have mo: "pv_metadata_only (ev_privacy e)" using assms(2,3) apply_policy_drop_iff [of po e] by simp
  define D where "D = apply_dns po (ev_network e) no_redactions"
  obtain br red au where U: "apply_url po (ev_browser e) (snd (snd D)) = (br, red, au)"
    by (metis prod_cases3)
  have "e' = snd (apply_policy po e)" using assms(2) by simp
  then show ?thesis
    using apply_policy_eq [OF mo D_def refl] mo U apply_url_clean [OF assms(1)]
    by (auto simp: event_clean_def split: option.splits)
qed

lemma redact_url_excluded:
  "snd (url_host u) \<noteq> [] \<Longrightarrow> domain_excluded po (snd (url_host u)) \<Longrightarrow>
     redact_url po u = ([], no_redactions\<lparr>rk_domain_excluded := True\<rparr>)"
  by (simp add: redact_url_def case_prod_unfold)

lemma apply_url_hides:
  "br_url b \<noteq> [] \<Longrightarrow> snd (url_host (br_url b)) \<noteq> [] \<Longrightarrow> domain_excluded po (snd (url_host (br_url b))) \<Longrightarrow>
     fst (apply_url po (Some b) au) = None"
  by (simp add: apply_url_def redact_url_excluded)

lemma apply_dns_hides:
  "domain_excluded po (net_dns_query_name n) \<Longrightarrow>
     \<exists>n'. fst (apply_dns po (Some n) au) = Some n' \<and> net_dns_query_name n' = []"
  by (auto simp: apply_dns_def redact_dns_name_def Let_def)

lemma apply_policy_parts:
  "pv_metadata_only (ev_privacy e) \<Longrightarrow>
     ev_network (snd (apply_policy po e)) = fst (apply_dns po (ev_network e) no_redactions)
     \<and> (\<exists>au. ev_browser (snd (apply_policy po e)) = fst (apply_url po (ev_browser e) au))"
  by (auto simp: apply_policy_eq)

lemma apply_dns_frame:
  "map_option (\<lambda>n. n\<lparr>net_dns_query_name := []\<rparr>) (fst (apply_dns po nw au)) =
     map_option (\<lambda>n. n\<lparr>net_dns_query_name := []\<rparr>) nw"
  by (auto simp: apply_dns_def split: option.splits prod.splits)

text \<open>
  C2: under every policy an engine can reach, an event that is not dropped leaves
  \<^verbatim>\<open>apply\<close> marked metadata-only and with no query string and no fragment in its URL.
\<close>

theorem apply_leaves_clean:
  assumes "policy_inv po" "fst (apply_policy po e) \<noteq> Drop"
  shows "event_clean (snd (apply_policy po e))"
  using assms by (intro apply_policy_clean [OF assms(1)]) auto

text \<open>A navigation to a URL with a query, used as a concrete input.\<close>

definition sample_navigation :: event where
  "sample_navigation = event_init\<lparr>ev_type := Navigation, ev_source := Browser,
     ev_browser := Some (browser_init\<lparr>br_url := ''https://a.org/p?q=1''\<rparr>)\<rparr>"

lemma sample_not_dropped: "fst (apply_policy po sample_navigation) \<noteq> Drop"
  by (simp add: apply_policy_drop_iff sample_navigation_def event_init_def privacy_init_def)

theorem apply_leaves_clean_witness: "event_clean (snd (apply_policy policy_engine_init sample_navigation))"
  by (rule apply_leaves_clean [OF policy_engine_init_inv sample_not_dropped])



text \<open>
  \<^verbatim>\<open>apply\<close> drops an event exactly when it is not marked metadata-only; it only ever touches
  the DNS name, the browser association and the privacy annotation, and it answers
  \<^const>\<open>Redact\<close> exactly when it set the redacted mark of a kept event.
\<close>

theorem apply_frame:
  "(fst (apply_policy po e) = Drop \<longleftrightarrow> \<not> pv_metadata_only (ev_privacy e))
   \<and> (snd (apply_policy po e))\<lparr>ev_network := ev_network e, ev_browser := ev_browser e,
        ev_privacy := ev_privacy e\<rparr> = e
   \<and> map_option (\<lambda>n. n\<lparr>net_dns_query_name := []\<rparr>) (ev_network (snd (apply_policy po e))) =
        map_option (\<lambda>n. n\<lparr>net_dns_query_name := []\<rparr>) (ev_network e)
   \<and> (fst (apply_policy po e) = Redact \<longleftrightarrow>
        pv_metadata_only (ev_privacy e) \<and> pv_redacted (ev_privacy (snd (apply_policy po e))))"
  by (cases "pv_metadata_only (ev_privacy e)")
    (simp_all add: apply_policy_eq apply_policy_drop apply_dns_frame)

text \<open>
  The audit of a URL overwrites the audit of a DNS name: here the name is dropped as
  sensitive and the audit says that nothing was excluded.
\<close>

lemma dns_audit_lost:
  "let po = policy_engine_init\<lparr>po_sensitive_domains := [''bank.com'']\<rparr>;
       e = event_init\<lparr>ev_network := Some (network_init\<lparr>net_dns_query_name := ''bank.com''\<rparr>),
             ev_browser := Some (browser_init\<lparr>br_url := ''about''\<rparr>)\<rparr>;
       e' = snd (apply_policy po e)
   in pv_redacted (ev_privacy e') \<and> pv_redactions (ev_privacy e') = no_redactions"
  by (simp add: Let_def apply_policy_def apply_dns_def apply_url_def redact_dns_name_def redact_url_def
      url_host_def find_any_def find_char_def strip_at_def domain_excluded_def host_under_domain_def
      to_lower_def lower_char_def is_upper_def policy_engine_init_def policy_init_def event_init_def
      privacy_init_def network_init_def browser_init_def no_redactions_def or_redactions_def)

section \<open>The contract with the event pipeline\<close>

text \<open>
  What the daemon relies on: whatever policy updates and events come in whatever order, an
  event that is let through is clean.  \<open>pipeline\<close> is the sequence of events let through.
\<close>

datatype pipeline_input = Observe event | Configure json

locale event_sanitizer =
  fixes sanitize :: "'p \<Rightarrow> event \<Rightarrow> policy_decision \<times> event"
    and update :: "'p \<Rightarrow> json \<Rightarrow> string + 'p"
    and inv :: "'p \<Rightarrow> bool"
    and clean :: "event \<Rightarrow> bool"
  assumes update_inv: "inv p \<Longrightarrow> update p doc = Inr q \<Longrightarrow> inv q"
    and sanitize_clean: "inv p \<Longrightarrow> sanitize p e = (d, e') \<Longrightarrow> d \<noteq> Drop \<Longrightarrow> clean e'"
begin

fun pipeline :: "'p \<Rightarrow> pipeline_input list \<Rightarrow> event list" where
  "pipeline p [] = []"
| "pipeline p (Configure doc # is) =
     pipeline (case update p doc of Inl _ \<Rightarrow> p | Inr q \<Rightarrow> q) is"
| "pipeline p (Observe e # is) =
     (case sanitize p e of (d, e') \<Rightarrow> (if d = Drop then [] else [e']) @ pipeline p is)"

lemma pipeline_clean: "inv p \<Longrightarrow> ev \<in> set (pipeline p is) \<Longrightarrow> clean ev"
proof (induction p "is" rule: pipeline.induct)
  case (2 p doc "is")
  then show ?case by (auto split: sum.splits dest: update_inv)
next
  case (3 p e "is")
  then show ?case by (cases "sanitize p e") (auto split: if_splits dest: sanitize_clean)
qed simp

end

interpretation engine: event_sanitizer apply_policy update_from_json policy_inv event_clean
  by unfold_locales (fact update_keeps_inv, fact apply_policy_clean)

end
