(* ===== verification/Ez_Config.thy ===== *)
theory Ez_Config
  imports Ez_Policy
begin

text \<open>
  \<^verbatim>\<open>src/daemon/config.cpp\<close>: the daemon's
  configuration, the checks of the document it is read from and its printing.  A function that
  returns \<^verbatim>\<open>false\<close> and fills \<^verbatim>\<open>error\<close> is a function into a sum; the caller gives a fresh error text
  and uses the configuration only after \<^verbatim>\<open>true\<close>.  \<^verbatim>\<open>json::value\<close> on a document that is not an
  object raises an exception no caller catches, the failure \<open>Escapes\<close>.

  The lemmas show which documents are accepted, what holds of every accepted configuration,
  and how much of a configuration survives being printed and read back.
\<close>

section \<open>Data\<close>

record config =
  cf_socket_path :: string
  cf_log_level :: string
  cf_log_file :: string
  cf_prefer_ebpf :: bool
  cf_pcap_fallback :: bool
  cf_interfaces :: "string list"
  cf_pcap_filter :: string
  cf_policy :: policy
  cf_storage_enabled :: bool
  cf_storage_path :: string
  cf_storage_retention :: int
  cf_status_interval :: int
  cf_max_events_per_second :: nat

definition config_init :: config where
  "config_init = \<lparr>cf_socket_path = ''/run/ezcap/ezcap.sock'', cf_log_level = ''info'', cf_log_file = [],
     cf_prefer_ebpf = True, cf_pcap_fallback = True, cf_interfaces = [], cf_pcap_filter = ''ip or ip6'',
     cf_policy = policy_init, cf_storage_enabled = False, cf_storage_path = ''/var/lib/ezcap/events.db'',
     cf_storage_retention = 86400 * 7, cf_status_interval = 1000, cf_max_events_per_second = 0\<rparr>"

datatype config_failure = Rejected string | Escapes

section \<open>Checks\<close>

text \<open>The error text of \<open>valid_path\<close>, nothing for a valid path.\<close>

definition valid_path :: "string \<Rightarrow> string option" where
  "valid_path path =
     (if path = [] \<or> hd path \<noteq> CHR ''/'' then Some ''path must be absolute''
      else if find_sub ''..'' path \<noteq> None then Some (''path must not contain '..'' @ [CHR 0x27])
      else if 104 < length path then Some ''path too long for a unix socket''
      else None)"

text \<open>The three loops over an array of names differ in the limit and the error text.\<close>

fun name_entries :: "nat \<Rightarrow> string \<Rightarrow> json list \<Rightarrow> config_failure + string list" where
  "name_entries limit err [] = Inr []"
| "name_entries limit err (d # ds) =
     (if \<not> is_string d \<or> get_string d = [] \<or> limit < length (get_string d) then Inl (Rejected err)
      else res_bind (name_entries limit err ds) (\<lambda>rest. Inr (get_string d # rest)))"

definition policy_keys :: "string list" where
  "policy_keys = [''redaction_mode'', ''strip_query_string'', ''strip_fragment'',
     ''sensitive_domains'', ''capture_interfaces'', ''pcap_filter'']"

definition load_mode :: "json \<Rightarrow> policy \<Rightarrow> config_failure + policy" where
  "load_mode v po =
     (if \<not> is_string v then Inl (Rejected ''policy.redaction.redaction_mode must be a string'')
      else case redaction_mode_from_name (get_string v) of
             None \<Rightarrow> Inl (Rejected ''unknown redaction_mode'')
           | Some m \<Rightarrow> Inr (po\<lparr>po_redaction_mode := m\<rparr>))"

definition load_strip :: "string \<Rightarrow> json \<Rightarrow> policy \<Rightarrow> config_failure + policy" where
  "load_strip key v po =
     (if \<not> is_boolean v then Inl (Rejected (''policy.redaction.'' @ key @ '' must be a boolean''))
      else if key = ''strip_query_string'' then Inr (po\<lparr>po_strip_query_string := get_bool v\<rparr>)
      else Inr (po\<lparr>po_strip_fragment := get_bool v\<rparr>))"

definition load_domains :: "json \<Rightarrow> policy \<Rightarrow> config_failure + policy" where
  "load_domains v po =
     (if \<not> is_array v then Inl (Rejected ''policy.redaction.sensitive_domains must be an array'')
      else res_bind (name_entries 253
              ''policy.redaction.sensitive_domains entries must be non-empty strings (max 253 chars)'' (elems v))
            (\<lambda>ds. Inr (po\<lparr>po_sensitive_domains := ds\<rparr>)))"

definition load_capture_interfaces :: "json \<Rightarrow> policy \<Rightarrow> config_failure + policy" where
  "load_capture_interfaces v po =
     (if \<not> is_array v then Inl (Rejected ''policy.redaction.capture_interfaces must be an array'')
      else res_bind (name_entries 16
              ''policy.redaction.capture_interfaces entries must be non-empty interface names (max 16 chars)'' (elems v))
            (\<lambda>names. Inr (po\<lparr>po_capture_interfaces := names\<rparr>)))"

definition load_policy_filter :: "json \<Rightarrow> policy \<Rightarrow> config_failure + policy" where
  "load_policy_filter v po =
     (if \<not> is_string v \<or> 256 < length (get_string v)
      then Inl (Rejected ''policy.redaction.pcap_filter must be a string (max 256 chars)'')
      else Inr (po\<lparr>po_pcap_filter := get_string v\<rparr>))"

definition policy_member :: "string \<Rightarrow> json \<Rightarrow> policy \<Rightarrow> config_failure + policy" where
  "policy_member key v po =
     (if key \<notin> set policy_keys then Inl (Rejected (''unknown policy key: '' @ key))
      else if key = ''redaction_mode'' then load_mode v po
      else if key = ''strip_query_string'' \<or> key = ''strip_fragment'' then load_strip key v po
      else if key = ''sensitive_domains'' then load_domains v po
      else if key = ''capture_interfaces'' then load_capture_interfaces v po
      else load_policy_filter v po)"

fun policy_members :: "(string \<times> json) list \<Rightarrow> policy \<Rightarrow> config_failure + policy" where
  "policy_members [] po = Inr po"
| "policy_members ((k, v) # kvs) po = res_bind (policy_member k v po) (policy_members kvs)"

definition config_parse_policy :: "json \<Rightarrow> policy \<Rightarrow> config_failure + policy" where
  "config_parse_policy doc po =
     (if \<not> is_object doc then Inl Escapes
      else let redaction = (case member doc ''redaction'' of None \<Rightarrow> empty_object | Some r \<Rightarrow> r)
           in if \<not> is_object redaction then Inl (Rejected ''policy.redaction must be an object'')
              else policy_members (items redaction) po)"

definition top_keys :: "string list" where
  "top_keys = [''socket_path'', ''log_level'', ''log_file'', ''prefer_ebpf'', ''pcap_fallback'',
     ''interfaces'', ''pcap_filter'', ''policy'', ''storage'', ''status_interval_ms'', ''max_events_per_second'']"

definition storage_keys :: "string list" where
  "storage_keys = [''enabled'', ''path'', ''retention_seconds'']"

definition config_levels :: "string list" where
  "config_levels = [''trace'', ''debug'', ''info'', ''warn'', ''error'', ''off'']"

fun known_keys :: "string list \<Rightarrow> string \<Rightarrow> (string \<times> json) list \<Rightarrow> config_failure + unit" where
  "known_keys keys err [] = Inr ()"
| "known_keys keys err ((k, v) # kvs) =
     (if k \<notin> set keys then Inl (Rejected (err @ k)) else known_keys keys err kvs)"

definition load_socket_path :: "json \<Rightarrow> config \<Rightarrow> config_failure + config" where
  "load_socket_path v c =
     (if \<not> is_string v then Inl (Rejected ''invalid socket_path'')
      else case valid_path (get_string v) of
             Some e \<Rightarrow> Inl (Rejected e)
           | None \<Rightarrow> Inr (c\<lparr>cf_socket_path := get_string v\<rparr>))"

definition load_log_level :: "json \<Rightarrow> config \<Rightarrow> config_failure + config" where
  "load_log_level v c =
     (if \<not> is_string v then Inl (Rejected ''log_level must be a string'')
      else if get_string v \<notin> set config_levels
        then Inl (Rejected ''log_level must be one of trace|debug|info|warn|error|off'')
      else Inr (c\<lparr>cf_log_level := get_string v\<rparr>))"

definition load_log_file :: "json \<Rightarrow> config \<Rightarrow> config_failure + config" where
  "load_log_file v c =
     (if \<not> is_string v then Inl (Rejected ''log_file must be a string'')
      else Inr (c\<lparr>cf_log_file := get_string v\<rparr>))"

definition load_prefer_ebpf :: "json \<Rightarrow> config \<Rightarrow> config_failure + config" where
  "load_prefer_ebpf v c =
     (if \<not> is_boolean v then Inl (Rejected ''prefer_ebpf must be a boolean'')
      else Inr (c\<lparr>cf_prefer_ebpf := get_bool v\<rparr>))"

definition load_pcap_fallback :: "json \<Rightarrow> config \<Rightarrow> config_failure + config" where
  "load_pcap_fallback v c =
     (if \<not> is_boolean v then Inl (Rejected ''pcap_fallback must be a boolean'')
      else Inr (c\<lparr>cf_pcap_fallback := get_bool v\<rparr>))"

definition load_interfaces :: "json \<Rightarrow> config \<Rightarrow> config_failure + config" where
  "load_interfaces v c =
     (if \<not> is_array v then Inl (Rejected ''interfaces must be an array'')
      else res_bind (name_entries 16 ''interfaces entries must be non-empty names (max 16 chars)'' (elems v))
             (\<lambda>names. Inr (c\<lparr>cf_interfaces := names\<rparr>)))"

definition load_pcap_filter :: "json \<Rightarrow> config \<Rightarrow> config_failure + config" where
  "load_pcap_filter v c =
     (if \<not> is_string v \<or> 256 < length (get_string v) then Inl (Rejected ''pcap_filter must be a string (max 256 chars)'')
      else Inr (c\<lparr>cf_pcap_filter := get_string v\<rparr>))"

definition load_policy :: "json \<Rightarrow> config \<Rightarrow> config_failure + config" where
  "load_policy v c = res_bind (config_parse_policy v (cf_policy c)) (\<lambda>po. Inr (c\<lparr>cf_policy := po\<rparr>))"

definition load_storage_enabled :: "json \<Rightarrow> config \<Rightarrow> config_failure + config" where
  "load_storage_enabled v c =
     (if \<not> is_boolean v then Inl (Rejected ''storage.enabled must be a boolean'')
      else Inr (c\<lparr>cf_storage_enabled := get_bool v\<rparr>))"

definition load_storage_path :: "json \<Rightarrow> config \<Rightarrow> config_failure + config" where
  "load_storage_path v c =
     (if \<not> is_string v \<or> get_string v = [] then Inl (Rejected ''storage.path must be a non-empty string'')
      else Inr (c\<lparr>cf_storage_path := get_string v\<rparr>))"

definition load_storage_retention :: "json \<Rightarrow> config \<Rightarrow> config_failure + config" where
  "load_storage_retention v c =
     (if \<not> is_number_unsigned v \<or> get_uint64 v < 60 \<or> 31536000 < get_uint64 v
      then Inl (Rejected ''storage.retention_seconds must be between 60 and 31536000'')
      else Inr (c\<lparr>cf_storage_retention := int (get_uint64 v)\<rparr>))"

definition load_storage :: "json \<Rightarrow> config \<Rightarrow> config_failure + config" where
  "load_storage v c =
     (if \<not> is_object v then Inl (Rejected ''storage must be an object'')
      else res_bind (known_keys storage_keys ''unknown storage key: '' (items v)) (\<lambda>_.
           res_bind (when_member v ''enabled'' load_storage_enabled c) (\<lambda>c.
           res_bind (when_member v ''path'' load_storage_path c)
             (when_member v ''retention_seconds'' load_storage_retention))))"

definition load_status_interval :: "json \<Rightarrow> config \<Rightarrow> config_failure + config" where
  "load_status_interval v c =
     (if \<not> is_number_unsigned v \<or> get_uint64 v < 100 \<or> 3600000 < get_uint64 v
      then Inl (Rejected ''status_interval_ms must be between 100 and 3600000'')
      else Inr (c\<lparr>cf_status_interval := int (get_uint64 v)\<rparr>))"

definition load_max_events :: "json \<Rightarrow> config \<Rightarrow> config_failure + config" where
  "load_max_events v c =
     (if \<not> is_number_unsigned v then Inl (Rejected ''max_events_per_second must be a non-negative integer'')
      else Inr (c\<lparr>cf_max_events_per_second := get_uint64 v\<rparr>))"

definition check_storage :: "config \<Rightarrow> config_failure + config" where
  "check_storage c =
     (if cf_storage_enabled c \<and> cf_storage_path c = [] then Inl (Rejected ''storage.enabled requires storage.path'')
      else Inr c)"

text \<open>The sections of a document in the order in which they are read, each with its reader.\<close>

definition config_sections :: "(string \<times> (json \<Rightarrow> config \<Rightarrow> config_failure + config)) list" where
  "config_sections =
     [(''socket_path'', load_socket_path), (''log_level'', load_log_level), (''log_file'', load_log_file),
      (''prefer_ebpf'', load_prefer_ebpf), (''pcap_fallback'', load_pcap_fallback),
      (''interfaces'', load_interfaces), (''pcap_filter'', load_pcap_filter), (''policy'', load_policy),
      (''storage'', load_storage), (''status_interval_ms'', load_status_interval),
      (''max_events_per_second'', load_max_events)]"

fun load_sections :: "(string \<times> (json \<Rightarrow> config \<Rightarrow> config_failure + config)) list \<Rightarrow> json \<Rightarrow> config \<Rightarrow>
    config_failure + config" where
  "load_sections [] doc c = Inr c"
| "load_sections ((k, f) # ss) doc c = res_bind (when_member doc k f c) (load_sections ss doc)"

definition parse_document :: "json \<Rightarrow> config \<Rightarrow> config_failure + config" where
  "parse_document doc c =
     (if \<not> is_object doc then Inl (Rejected ''configuration must be a JSON object'')
      else res_bind (known_keys top_keys ''unknown configuration key: '' (items doc)) (\<lambda>_.
           res_bind (load_sections config_sections doc c) check_storage))"

definition config_parse :: "(string \<Rightarrow> json option) \<Rightarrow> string \<Rightarrow> config \<Rightarrow> config_failure + config" where
  "config_parse parse t c =
     (case parse t of
        None \<Rightarrow> Inl (Rejected ''configuration is not valid JSON'')
      | Some doc \<Rightarrow> parse_document doc c)"

text \<open>\<open>files\<close> gives the content of the files that can be opened.\<close>

definition config_load :: "(string \<Rightarrow> json option) \<Rightarrow> (string \<Rightarrow> string option) \<Rightarrow> string \<Rightarrow> config \<Rightarrow>
    config_failure + config" where
  "config_load parse files path c =
     (case files path of
        None \<Rightarrow> Inl (Rejected (''cannot open configuration file: '' @ path))
      | Some t \<Rightarrow> if 256 * 1024 < length t then Inl (Rejected ''configuration file too large'')
                  else config_parse parse t c)"

definition config_json :: "config \<Rightarrow> json" where
  "config_json c =
     assign ''storage'' (obj_of [(''enabled'', JBool (cf_storage_enabled c)), (''path'', JString (cf_storage_path c)),
         (''retention_seconds'', JUnsigned (word_of_int (cf_storage_retention c)))])
    (assign ''policy'' (obj_of [(''redaction_mode'', JString (redaction_mode_name (po_redaction_mode (cf_policy c)))),
         (''strip_query_string'', JBool (po_strip_query_string (cf_policy c))),
         (''strip_fragment'', JBool (po_strip_fragment (cf_policy c))),
         (''sensitive_domains'', JArray (map JString (po_sensitive_domains (cf_policy c)))),
         (''capture_interfaces'', JArray (map JString (po_capture_interfaces (cf_policy c))))])
    (assign ''pcap_filter'' (JString (cf_pcap_filter c))
    (assign ''interfaces'' (JArray (map JString (cf_interfaces c)))
    (assign ''pcap_fallback'' (JBool (cf_pcap_fallback c))
    (assign ''prefer_ebpf'' (JBool (cf_prefer_ebpf c))
    (assign ''log_file'' (JString (cf_log_file c))
    (assign ''log_level'' (JString (cf_log_level c))
    (assign ''socket_path'' (JString (cf_socket_path c)) empty_object))))))))"

definition config_to_json_text :: "(json \<Rightarrow> string option) \<Rightarrow> config \<Rightarrow> string option" where
  "config_to_json_text dump c = dump (config_json c)"

section \<open>Levels\<close>

lemma off_is_no_level: "''off'' \<in> set config_levels \<and> level_from_name ''off'' = None"
  by (simp add: config_levels_def level_from_name_def)

section \<open>What an accepted configuration satisfies\<close>

definition name_ok :: "nat \<Rightarrow> string \<Rightarrow> bool" where
  "name_ok limit s \<longleftrightarrow> s \<noteq> [] \<and> length s \<le> limit"

definition config_policy_ok :: "policy \<Rightarrow> bool" where
  "config_policy_ok po \<longleftrightarrow>
     list_all (name_ok 253) (po_sensitive_domains po) \<and> list_all (name_ok 16) (po_capture_interfaces po)
     \<and> length (po_pcap_filter po) \<le> 256"

definition config_ok :: "config \<Rightarrow> bool" where
  "config_ok c \<longleftrightarrow>
     valid_path (cf_socket_path c) = None \<and> cf_log_level c \<in> set config_levels
     \<and> list_all (name_ok 16) (cf_interfaces c) \<and> length (cf_pcap_filter c) \<le> 256
     \<and> config_policy_ok (cf_policy c) \<and> cf_storage_path c \<noteq> []
     \<and> 60 \<le> cf_storage_retention c \<and> cf_storage_retention c \<le> 31536000
     \<and> 100 \<le> cf_status_interval c \<and> cf_status_interval c \<le> 3600000
     \<and> cf_max_events_per_second c < 2 ^ 64"

lemma name_entries_Inr:
  "name_entries limit err ds = Inr xs \<longleftrightarrow> ds = map JString xs \<and> list_all (name_ok limit) xs"
proof (induction ds arbitrary: xs)
  case (Cons d ds)
  show ?case
    by (cases d; cases xs) (auto simp: res_simps Cons name_ok_def)
qed auto

lemmas policy_load_defs = load_mode_def load_strip_def load_domains_def load_capture_interfaces_def load_policy_filter_def

lemma policy_loads_ok:
  assumes "config_policy_ok po"
  shows "load_mode v po = Inr q \<Longrightarrow> config_policy_ok q"
    "load_strip k v po = Inr q \<Longrightarrow> config_policy_ok q"
    "load_domains v po = Inr q \<Longrightarrow> config_policy_ok q"
    "load_capture_interfaces v po = Inr q \<Longrightarrow> config_policy_ok q"
    "load_policy_filter v po = Inr q \<Longrightarrow> config_policy_ok q"
  using assms
  by (auto simp: policy_load_defs config_policy_ok_def res_simps name_entries_Inr split: if_splits option.splits)

lemma policy_member_ok: "config_policy_ok po \<Longrightarrow> policy_member k v po = Inr q \<Longrightarrow> config_policy_ok q"
  unfolding policy_member_def by (simp only: split: if_split_asm) (auto intro: policy_loads_ok)

lemma policy_members_ok: "config_policy_ok po \<Longrightarrow> policy_members kvs po = Inr q \<Longrightarrow> config_policy_ok q"
  by (induction kvs po rule: policy_members.induct) (auto simp: res_simps dest: policy_member_ok)

lemma config_parse_policy_ok: "config_policy_ok po \<Longrightarrow> config_parse_policy d po = Inr q \<Longrightarrow> config_policy_ok q"
  by (auto simp: config_parse_policy_def Let_def policy_members_ok split: if_splits)

lemmas load_defs = load_socket_path_def load_log_level_def load_log_file_def load_prefer_ebpf_def
  load_pcap_fallback_def load_interfaces_def load_pcap_filter_def load_policy_def
  load_status_interval_def load_max_events_def

lemmas storage_defs = load_storage_enabled_def load_storage_path_def load_storage_retention_def

lemma get_uint64_less: "get_uint64 v < 2 ^ 64"
  using unsigned_less [where 'b = 64 and 'a = nat] by (cases v) simp_all

lemma storage_keeps_ok:
  "config_ok c \<Longrightarrow> load_storage_enabled v c = Inr c' \<Longrightarrow> config_ok c'"
  "config_ok c \<Longrightarrow> load_storage_path v c = Inr c' \<Longrightarrow> config_ok c'"
  "config_ok c \<Longrightarrow> load_storage_retention v c = Inr c' \<Longrightarrow> config_ok c'"
  by (auto simp: storage_defs config_ok_def split: if_splits)

lemma load_storage_ok:
  assumes "config_ok c" "load_storage v c = Inr c'"
  shows "config_ok c'"
proof -
  obtain c1 c2 where s: "when_member v ''enabled'' load_storage_enabled c = Inr c1"
      "when_member v ''path'' load_storage_path c1 = Inr c2"
      "when_member v ''retention_seconds'' load_storage_retention c2 = Inr c'"
    using assms(2) by (auto simp: load_storage_def res_simps split: if_splits)
  have "config_ok c1" using s(1) assms(1) storage_keeps_ok(1) by (rule when_member_keeps)
  with s(2) have "config_ok c2" using storage_keeps_ok(2) by (rule when_member_keeps)
  with s(3) show ?thesis using storage_keeps_ok(3) by (rule when_member_keeps)
qed

lemma sections_keep_ok:
  assumes "config_ok c"
  shows "load_socket_path v c = Inr c' \<Longrightarrow> config_ok c'"
    "load_log_level v c = Inr c' \<Longrightarrow> config_ok c'"
    "load_log_file v c = Inr c' \<Longrightarrow> config_ok c'"
    "load_prefer_ebpf v c = Inr c' \<Longrightarrow> config_ok c'"
    "load_pcap_fallback v c = Inr c' \<Longrightarrow> config_ok c'"
    "load_interfaces v c = Inr c' \<Longrightarrow> config_ok c'"
    "load_pcap_filter v c = Inr c' \<Longrightarrow> config_ok c'"
    "load_policy v c = Inr c' \<Longrightarrow> config_ok c'"
    "load_status_interval v c = Inr c' \<Longrightarrow> config_ok c'"
    "load_max_events v c = Inr c' \<Longrightarrow> config_ok c'"
  using assms get_uint64_less
  by (auto simp: load_defs config_ok_def res_simps name_entries_Inr
      dest: config_parse_policy_ok split: if_splits option.splits)

lemma section_keeps_ok:
  assumes "(k, f) \<in> set config_sections" "config_ok c" "f v c = Inr c'"
  shows "config_ok c'"
proof -
  have "f \<in> {load_socket_path, load_log_level, load_log_file, load_prefer_ebpf, load_pcap_fallback,
      load_interfaces, load_pcap_filter, load_policy, load_storage, load_status_interval, load_max_events}"
    using assms(1) unfolding config_sections_def list.set insert_iff prod.inject empty_iff by blast
  then show ?thesis using assms(3) sections_keep_ok [OF assms(2)] load_storage_ok [OF assms(2)]
    unfolding insert_iff empty_iff by (elim disjE) simp_all
qed

lemma load_sections_ok:
  "set ss \<subseteq> set config_sections \<Longrightarrow> config_ok c \<Longrightarrow> load_sections ss doc c = Inr c' \<Longrightarrow> config_ok c'"
proof (induction ss doc c rule: load_sections.induct)
  case (2 k f ss doc c)
  then obtain d where d: "when_member doc k f c = Inr d" "load_sections ss doc d = Inr c'"
    by (auto simp: res_simps)
  have "config_ok d"
    using d(1) "2.prems"(2) by (rule when_member_keeps) (use "2.prems"(1) section_keeps_ok in auto)
  then show ?case using "2.IH" d(2) "2.prems"(1) by simp
qed simp

lemma parse_document_ok: "config_ok c \<Longrightarrow> parse_document doc c = Inr c' \<Longrightarrow> config_ok c'"
  by (auto simp: parse_document_def res_simps check_storage_def split: if_splits
      dest: load_sections_ok [OF subset_refl])

lemma config_init_ok: "config_ok config_init"
  by (simp add: config_ok_def config_init_def valid_path_def config_levels_def config_policy_ok_def policy_init_def)

lemma config_load_ok: "config_load parse files path config_init = Inr c \<Longrightarrow> config_ok c"
  by (auto simp: config_load_def config_parse_def dest: parse_document_ok [OF config_init_ok] split: option.splits if_splits)

section \<open>Which documents are accepted\<close>

text \<open>The grammar of a configuration, stated without the order of the checks.\<close>

definition names_doc :: "nat \<Rightarrow> json \<Rightarrow> bool" where
  "names_doc limit v \<longleftrightarrow> (\<exists>xs. v = JArray (map JString xs) \<and> list_all (name_ok limit) xs)"

definition policy_entry_doc :: "string \<Rightarrow> json \<Rightarrow> bool" where
  "policy_entry_doc k v \<longleftrightarrow>
     (k = ''redaction_mode'' \<and> (\<exists>m. v = JString (redaction_mode_name m)))
     \<or> (k \<in> {''strip_query_string'', ''strip_fragment''} \<and> is_boolean v)
     \<or> (k = ''sensitive_domains'' \<and> names_doc 253 v)
     \<or> (k = ''capture_interfaces'' \<and> names_doc 16 v)
     \<or> (k = ''pcap_filter'' \<and> (\<exists>s. v = JString s \<and> length s \<le> 256))"

definition policy_doc :: "json \<Rightarrow> bool" where
  "policy_doc v \<longleftrightarrow>
     is_object v \<and> (\<forall>r. member v ''redaction'' = Some r \<longrightarrow>
       is_object r \<and> (\<forall>(k, w)\<in>set (items r). policy_entry_doc k w))"

definition storage_doc :: "json \<Rightarrow> bool" where
  "storage_doc v \<longleftrightarrow>
     is_object v \<and> fst ` set (items v) \<subseteq> {''enabled'', ''path'', ''retention_seconds''}
     \<and> (\<forall>w. member v ''enabled'' = Some w \<longrightarrow> is_boolean w)
     \<and> (\<forall>w. member v ''path'' = Some w \<longrightarrow> (\<exists>s. w = JString s \<and> s \<noteq> []))
     \<and> (\<forall>w. member v ''retention_seconds'' = Some w \<longrightarrow> (\<exists>n. w = JUnsigned n \<and> 60 \<le> unat n \<and> unat n \<le> 31536000))"

definition section_doc :: "string \<Rightarrow> json \<Rightarrow> bool" where
  "section_doc k v \<longleftrightarrow>
     (k = ''socket_path'' \<longrightarrow> (\<exists>s. v = JString s \<and> valid_path s = None))
     \<and> (k = ''log_level'' \<longrightarrow> (\<exists>s. v = JString s \<and> s \<in> set config_levels))
     \<and> (k = ''log_file'' \<longrightarrow> is_string v)
     \<and> (k \<in> {''prefer_ebpf'', ''pcap_fallback''} \<longrightarrow> is_boolean v)
     \<and> (k = ''interfaces'' \<longrightarrow> names_doc 16 v)
     \<and> (k = ''pcap_filter'' \<longrightarrow> (\<exists>s. v = JString s \<and> length s \<le> 256))
     \<and> (k = ''policy'' \<longrightarrow> policy_doc v)
     \<and> (k = ''storage'' \<longrightarrow> storage_doc v)
     \<and> (k = ''status_interval_ms'' \<longrightarrow> (\<exists>n. v = JUnsigned n \<and> 100 \<le> unat n \<and> unat n \<le> 3600000))
     \<and> (k = ''max_events_per_second'' \<longrightarrow> is_number_unsigned v)"

definition config_doc :: "json \<Rightarrow> bool" where
  "config_doc doc \<longleftrightarrow> is_object doc \<and> fst ` set (items doc) \<subseteq> set top_keys
     \<and> (\<forall>k v. member doc k = Some v \<longrightarrow> section_doc k v)"

lemma ex_JString: "(\<exists>s. v = JString s \<and> P s) \<longleftrightarrow> is_string v \<and> P (get_string v)"
  by (cases v) auto

lemma ex_JUnsigned: "(\<exists>n. v = JUnsigned n \<and> a \<le> unat n \<and> unat n \<le> b) \<longleftrightarrow>
    is_number_unsigned v \<and> a \<le> get_uint64 v \<and> get_uint64 v \<le> b"
  by (cases v) auto

lemma is_ok_names: "is_array v \<and> is_ok (name_entries limit err (elems v)) \<longleftrightarrow> names_doc limit v"
proof (cases v)
  case (JArray ds)
  have "is_ok (name_entries limit err ds) \<longleftrightarrow> (\<exists>xs. name_entries limit err ds = Inr xs)"
    by (cases "name_entries limit err ds") auto
  then show ?thesis using JArray by (auto simp: name_entries_Inr names_doc_def)
qed (auto simp: names_doc_def)

lemma is_ok_bind_const: "is_ok (res_bind m (\<lambda>x. Inr (f x))) \<longleftrightarrow> is_ok m"
  by (cases m) auto

lemma is_ok_known_keys: "is_ok (known_keys keys err kvs) \<longleftrightarrow> fst ` set kvs \<subseteq> set keys"
  by (induction kvs) (auto split: if_splits)

lemma is_ok_mode: "is_ok (load_mode v po) \<longleftrightarrow> (\<exists>m. v = JString (redaction_mode_name m))"
  unfolding is_ok_update_mode [of v po, symmetric] by (simp add: load_mode_def update_mode_def split: option.split)

lemma is_ok_policy_loads:
  "is_ok (load_strip k v po) \<longleftrightarrow> is_boolean v"
  "is_ok (load_domains v po) \<longleftrightarrow> names_doc 253 v"
  "is_ok (load_capture_interfaces v po) \<longleftrightarrow> names_doc 16 v"
  "is_ok (load_policy_filter v po) \<longleftrightarrow> (\<exists>s. v = JString s \<and> length s \<le> 256)"
  unfolding ex_JString using is_ok_names [of v]
  by (auto simp: policy_load_defs is_ok_bind_const)

lemma is_ok_policy_member: "is_ok (policy_member k v po) \<longleftrightarrow> policy_entry_doc k v"
proof (cases "k \<in> set policy_keys")
  case True
  then show ?thesis
    unfolding policy_keys_def list.set
    by (elim insertE emptyE)
      (simp_all add: policy_member_def policy_keys_def policy_entry_doc_def is_ok_mode is_ok_policy_loads)
next
  case False
  then show ?thesis by (simp add: policy_member_def policy_entry_doc_def policy_keys_def)
qed

lemma is_ok_policy_members:
  "is_ok (policy_members kvs po) \<longleftrightarrow> (\<forall>(k, v)\<in>set kvs. policy_entry_doc k v)"
proof (induction kvs po rule: policy_members.induct)
  case (2 k v kvs po)
  show ?case
    using 2 is_ok_policy_member [of k v po] by (cases "policy_member k v po") auto
qed simp

lemma is_ok_policy: "is_ok (config_parse_policy v po) \<longleftrightarrow> policy_doc v"
  by (auto simp: config_parse_policy_def policy_doc_def is_ok_policy_members split: option.splits)

lemma is_ok_storage_parts:
  "is_ok (load_storage_enabled v c) \<longleftrightarrow> is_boolean v"
  "is_ok (load_storage_path v c) \<longleftrightarrow> (\<exists>s. v = JString s \<and> s \<noteq> [])"
  "is_ok (load_storage_retention v c) \<longleftrightarrow> (\<exists>n. v = JUnsigned n \<and> 60 \<le> unat n \<and> unat n \<le> 31536000)"
  unfolding ex_JString ex_JUnsigned by (auto simp: storage_defs)

lemma is_ok_storage: "is_ok (load_storage v c) \<longleftrightarrow> storage_doc v"
  by (simp add: load_storage_def storage_doc_def is_ok_bind is_ok_when_member is_ok_storage_parts
      is_ok_known_keys storage_keys_def)

lemma is_ok_sections:
  "is_ok (load_socket_path v c) \<longleftrightarrow> (\<exists>s. v = JString s \<and> valid_path s = None)"
  "is_ok (load_log_level v c) \<longleftrightarrow> (\<exists>s. v = JString s \<and> s \<in> set config_levels)"
  "is_ok (load_log_file v c) \<longleftrightarrow> is_string v"
  "is_ok (load_prefer_ebpf v c) \<longleftrightarrow> is_boolean v"
  "is_ok (load_pcap_fallback v c) \<longleftrightarrow> is_boolean v"
  "is_ok (load_interfaces v c) \<longleftrightarrow> names_doc 16 v"
  "is_ok (load_pcap_filter v c) \<longleftrightarrow> (\<exists>s. v = JString s \<and> length s \<le> 256)"
  "is_ok (load_policy v c) \<longleftrightarrow> policy_doc v"
  "is_ok (load_status_interval v c) \<longleftrightarrow> (\<exists>n. v = JUnsigned n \<and> 100 \<le> unat n \<and> unat n \<le> 3600000)"
  "is_ok (load_max_events v c) \<longleftrightarrow> is_number_unsigned v"
  unfolding ex_JString ex_JUnsigned is_ok_policy [of v "cf_policy c", symmetric] using is_ok_names [of v]
  by (auto simp: load_defs is_ok_bind_const split: option.splits)

lemma section_doc_keys:
  "section_doc ''socket_path'' v \<longleftrightarrow> (\<exists>s. v = JString s \<and> valid_path s = None)"
  "section_doc ''log_level'' v \<longleftrightarrow> (\<exists>s. v = JString s \<and> s \<in> set config_levels)"
  "section_doc ''log_file'' v \<longleftrightarrow> is_string v"
  "section_doc ''prefer_ebpf'' v \<longleftrightarrow> is_boolean v"
  "section_doc ''pcap_fallback'' v \<longleftrightarrow> is_boolean v"
  "section_doc ''interfaces'' v \<longleftrightarrow> names_doc 16 v"
  "section_doc ''pcap_filter'' v \<longleftrightarrow> (\<exists>s. v = JString s \<and> length s \<le> 256)"
  "section_doc ''policy'' v \<longleftrightarrow> policy_doc v"
  "section_doc ''storage'' v \<longleftrightarrow> storage_doc v"
  "section_doc ''status_interval_ms'' v \<longleftrightarrow> (\<exists>n. v = JUnsigned n \<and> 100 \<le> unat n \<and> unat n \<le> 3600000)"
  "section_doc ''max_events_per_second'' v \<longleftrightarrow> is_number_unsigned v"
  by (simp_all add: section_doc_def)

lemma config_sections_spec: "list_all (\<lambda>(k, f). \<forall>v c. is_ok (f v c) \<longleftrightarrow> section_doc k v) config_sections"
  by (simp add: config_sections_def is_ok_sections is_ok_storage section_doc_keys)

lemma is_ok_load_sections:
  "list_all (\<lambda>(k, f). \<forall>v c. is_ok (f v c) \<longleftrightarrow> section_doc k v) ss \<Longrightarrow>
    is_ok (load_sections ss doc c) \<longleftrightarrow> (\<forall>k\<in>fst ` set ss. \<forall>v. member doc k = Some v \<longrightarrow> section_doc k v)"
proof (induction ss arbitrary: c)
  case (Cons s ss)
  obtain k f where s: "s = (k, f)" by (cases s)
  have "is_ok (load_sections (s # ss) doc c) \<longleftrightarrow> is_ok (when_member doc k f c)
      \<and> (\<forall>k\<in>fst ` set ss. \<forall>v. member doc k = Some v \<longrightarrow> section_doc k v)"
    unfolding s load_sections.simps using Cons by (intro is_ok_bind) simp
  then show ?case using Cons.prems s by (simp add: is_ok_when_member)
qed simp

lemma is_ok_parse_document:
  assumes "config_ok c"
  shows "is_ok (parse_document doc c) \<longleftrightarrow> config_doc doc"
proof (cases "is_object doc \<and> fst ` set (items doc) \<subseteq> set top_keys")
  case True
  have keys: "fst ` set config_sections = set top_keys"
    by (simp add: config_sections_def top_keys_def)
  have mem: "k \<in> set top_keys" if "member doc k = Some v" for k v
    using that True by (force simp: member_def dest: map_of_SomeD)
  have "is_ok (parse_document doc c) \<longleftrightarrow> is_ok (load_sections config_sections doc c)"
  proof (cases "load_sections config_sections doc c")
    case (Inr c')
    then have "check_storage c' = Inr c'"
      using load_sections_ok [OF subset_refl assms] by (auto simp: check_storage_def config_ok_def)
    then show ?thesis
      using True Inr is_ok_known_keys [of top_keys "''unknown configuration key: ''" "items doc"]
      by (simp add: parse_document_def is_ok_bind_iff is_ok_Inr)
  qed (auto simp: parse_document_def is_ok_bind_iff)
  then show ?thesis
    using True mem unfolding is_ok_load_sections [OF config_sections_spec] keys config_doc_def by blast
next
  case False
  then show ?thesis
    using is_ok_known_keys [of top_keys "''unknown configuration key: ''" "items doc"]
    by (auto simp: parse_document_def config_doc_def is_ok_bind_iff)
qed

section \<open>Printing and reading back\<close>

text \<open>
  The printed document has the policy's keys directly under \<open>policy\<close>, while the reader looks for them
  under \<open>policy.redaction\<close> and does not check the keys of \<open>policy\<close>.
\<close>

lemma config_json_canonical: "json_canonical (config_json c)"
  unfolding config_json_def by (intro canonical_assign canonical_obj_of) simp_all

lemma config_json_keys: "fst ` set (items (config_json c)) \<subseteq> set top_keys"
  by (simp add: config_json_def fst_items_assign top_keys_def del: assign.simps)

definition policy_object :: "policy \<Rightarrow> json" where
  "policy_object po = obj_of [(''redaction_mode'', JString (redaction_mode_name (po_redaction_mode po))),
     (''strip_query_string'', JBool (po_strip_query_string po)), (''strip_fragment'', JBool (po_strip_fragment po)),
     (''sensitive_domains'', JArray (map JString (po_sensitive_domains po))),
     (''capture_interfaces'', JArray (map JString (po_capture_interfaces po)))]"

definition storage_object :: "config \<Rightarrow> json" where
  "storage_object c = obj_of [(''enabled'', JBool (cf_storage_enabled c)), (''path'', JString (cf_storage_path c)),
     (''retention_seconds'', JUnsigned (word_of_int (cf_storage_retention c)))]"

lemma config_json_member:
  "member (config_json c) ''socket_path'' = Some (JString (cf_socket_path c))"
  "member (config_json c) ''log_level'' = Some (JString (cf_log_level c))"
  "member (config_json c) ''log_file'' = Some (JString (cf_log_file c))"
  "member (config_json c) ''prefer_ebpf'' = Some (JBool (cf_prefer_ebpf c))"
  "member (config_json c) ''pcap_fallback'' = Some (JBool (cf_pcap_fallback c))"
  "member (config_json c) ''interfaces'' = Some (JArray (map JString (cf_interfaces c)))"
  "member (config_json c) ''pcap_filter'' = Some (JString (cf_pcap_filter c))"
  "member (config_json c) ''policy'' = Some (policy_object (cf_policy c))"
  "member (config_json c) ''storage'' = Some (storage_object c)"
  "member (config_json c) ''status_interval_ms'' = None"
  "member (config_json c) ''max_events_per_second'' = None"
  by (simp_all add: config_json_def policy_object_def storage_object_def del: assign.simps)

lemma load_policy_object: "load_policy (policy_object po) d = Inr d"
  by (simp add: load_policy_def config_parse_policy_def policy_object_def obj_of_def member_def)

lemma unat_retention: "0 \<le> i \<Longrightarrow> i \<le> 31536000 \<Longrightarrow> unat (word_of_int i :: u64) = nat i"
  by (simp add: unat_eq_nat_uint uint_word_of_int)

lemma load_storage_object:
  assumes "cf_storage_path c \<noteq> []" "60 \<le> cf_storage_retention c" "cf_storage_retention c \<le> 31536000"
  shows "load_storage (storage_object c) d = Inr (d\<lparr>cf_storage_enabled := cf_storage_enabled c,
    cf_storage_path := cf_storage_path c, cf_storage_retention := cf_storage_retention c\<rparr>)"
  using assms
  by (simp add: load_storage_def storage_object_def obj_of_def storage_keys_def when_member_def member_def
      storage_defs unat_retention nat_less_iff zless_nat_eq_int_zless)

lemma name_entries_map: "list_all (name_ok n) xs \<Longrightarrow> name_entries n err (map JString xs) = Inr xs"
  by (simp add: name_entries_Inr)

lemma load_printed_sections:
  assumes "config_ok c"
  shows "load_sections config_sections (config_json c) config_init =
    Inr (c\<lparr>cf_policy := policy_init, cf_status_interval := 1000, cf_max_events_per_second := 0\<rparr>)"
proof -
  have s: "load_socket_path (JString (cf_socket_path c)) d = Inr (d\<lparr>cf_socket_path := cf_socket_path c\<rparr>)"
    "load_log_level (JString (cf_log_level c)) d = Inr (d\<lparr>cf_log_level := cf_log_level c\<rparr>)"
    "load_log_file (JString (cf_log_file c)) d = Inr (d\<lparr>cf_log_file := cf_log_file c\<rparr>)"
    "load_prefer_ebpf (JBool (cf_prefer_ebpf c)) d = Inr (d\<lparr>cf_prefer_ebpf := cf_prefer_ebpf c\<rparr>)"
    "load_pcap_fallback (JBool (cf_pcap_fallback c)) d = Inr (d\<lparr>cf_pcap_fallback := cf_pcap_fallback c\<rparr>)"
    "load_interfaces (JArray (map JString (cf_interfaces c))) d = Inr (d\<lparr>cf_interfaces := cf_interfaces c\<rparr>)"
    "load_pcap_filter (JString (cf_pcap_filter c)) d = Inr (d\<lparr>cf_pcap_filter := cf_pcap_filter c\<rparr>)"
    "load_storage (storage_object c) d = Inr (d\<lparr>cf_storage_enabled := cf_storage_enabled c,
      cf_storage_path := cf_storage_path c, cf_storage_retention := cf_storage_retention c\<rparr>)" for d
    using assms by (auto simp: load_defs config_ok_def name_entries_map load_storage_object)
  show ?thesis
    by (simp add: config_sections_def when_member_def config_json_member s load_policy_object)
      (cases c, simp add: config_init_def)
qed



text \<open>
  A configuration that was accepted, printed and read again is the same configuration except that
  its policy, its status interval and its event limit are back at their defaults: the last two are
  not printed, and the policy is printed where the reader does not look.
\<close>

theorem config_round_trip:
  assumes "json_laws parse dump" "config_ok c" "config_to_json_text dump c = Some t"
  shows "config_parse parse t config_init =
    Inr (c\<lparr>cf_policy := policy_init, cf_status_interval := 1000, cf_max_events_per_second := 0\<rparr>)"
proof -
  have "parse t = Some (config_json c)"
    using json_laws_dump [OF assms(1) config_json_canonical] assms(3) by (simp add: config_to_json_text_def)
  moreover have "known_keys top_keys ''unknown configuration key: '' (items (config_json c)) = Inr ()"
    using is_ok_known_keys config_json_keys by (simp add: is_ok_Inr)
  moreover have "is_object (config_json c)"
    by (simp add: config_json_def del: assign.simps)
  ultimately show ?thesis
    using assms(2) load_printed_sections [OF assms(2)]
    by (simp add: config_parse_def parse_document_def check_storage_def config_ok_def)
qed

lemma config_round_trip_witness:
  "config_parse (\<lambda>_. Some (config_json config_init)) ''c'' config_init = Inr config_init"
proof -
  have "json_laws (\<lambda>_. Some (config_json config_init)) (\<lambda>j. if j = config_json config_init then Some ''c'' else None)"
    by (simp add: json_laws_def config_json_canonical)
  from config_round_trip [OF this config_init_ok, of "''c''"] show ?thesis
    by (simp add: config_to_json_text_def) (simp add: config_init_def)
qed

lemma policy_not_object_escapes:
  "\<not> is_object v \<Longrightarrow> parse_document (JObject [(''policy'', v)]) c = Inl Escapes"
  by (simp add: parse_document_def top_keys_def config_sections_def when_member_def member_def
      load_policy_def config_parse_policy_def)

lemma config_policy_loosens:
  "config_parse_policy (JObject [(''redaction'', JObject [(''strip_query_string'', JBool False)])]) policy_init =
    Inr (policy_init\<lparr>po_strip_query_string := False\<rparr>)"
  by (simp add: config_parse_policy_def member_def policy_member_def policy_keys_def load_strip_def policy_init_def)

end
