(* ===== verification/Ez_Storage.thy ===== *)
theory Ez_Storage
  imports Ez_Ipc
begin

text \<open>
  \<^verbatim>\<open>src/storage\<close>: the optional event store.  SQLite is a parameter, a record of the calls the
  sources make of it on a database of any type, each with its outcome and the database afterwards; what is
  relied on is stated as \<open>unique_ids\<close> (the UNIQUE column of the schema) and
  \<open>migration_laws\<close> (\<^verbatim>\<open>user_version\<close> and transactions).

  The writer thread is a state machine beside the calls of \<open>store\<close>: it takes the queue under the
  lock (\<open>writer_take\<close>) and writes its batch outside of it (\<open>writer_write\<close>), and other threads may come in between.
  A local of the thread that outlives a round, the batch, is a field of the state.

  The lemmas show what opening a database does to its schema, the bound of the queue, that the
  destructor returns, and what becomes of the batch that is swapped back into the queue.
\<close>

section \<open>SQLite\<close>

record row =
  rw_event_id :: string
  rw_schema_version :: int
  rw_event_type :: string
  rw_source :: string
  rw_confidence :: double
  rw_timestamp_unix_ms :: int
  rw_process_name :: "string option"
  rw_remote_address :: "string option"
  rw_remote_port :: "int option"
  rw_url :: "string option"
  rw_event_json :: string

datatype exec_result = ExecOk | ExecFailed "string option"

record 'd sqlite =
  sq_open :: "string \<Rightarrow> string option + 'd"
  sq_exec :: "'d \<Rightarrow> string \<Rightarrow> exec_result \<times> 'd"
  sq_user_version :: "'d \<Rightarrow> int option"
  sq_insert :: "'d \<Rightarrow> row \<Rightarrow> bool \<times> 'd"
  sq_delete_before :: "'d \<Rightarrow> int \<Rightarrow> int option \<times> 'd"

section \<open>Migrations\<close>

record migration =
  mg_version :: u32
  mg_statements :: "string list"

definition unlines :: "string list \<Rightarrow> string" where
  "unlines ls = concat (map (\<lambda>l. l @ [CHR 0x0A]) (butlast ls)) @ last ls"

definition migrations :: "migration list" where
  "migrations =
     [\<lparr>mg_version = 1, mg_statements =
        [unlines [[], ''CREATE TABLE IF NOT EXISTS events ('',
           ''  id INTEGER PRIMARY KEY AUTOINCREMENT,'',
           ''  event_id TEXT NOT NULL UNIQUE,'',
           ''  schema_version INTEGER NOT NULL,'',
           ''  event_type TEXT NOT NULL,'',
           ''  source TEXT NOT NULL,'',
           ''  confidence REAL NOT NULL,'',
           ''  timestamp_unix_ms INTEGER NOT NULL,'',
           ''  process_name TEXT,'',
           ''  remote_address TEXT,'',
           ''  remote_port INTEGER,'',
           ''  url TEXT,'',
           ''  event_json TEXT NOT NULL'',
           '')'', []],
         unlines [''CREATE INDEX IF NOT EXISTS idx_events_timestamp'', ''  ON events (timestamp_unix_ms)''],
         unlines [''CREATE INDEX IF NOT EXISTS idx_events_type'', ''  ON events (event_type, timestamp_unix_ms)'']]\<rparr>,
      \<lparr>mg_version = 2, mg_statements =
        [unlines [''CREATE TABLE IF NOT EXISTS storage_meta ('', ''  key TEXT PRIMARY KEY,'', ''  value TEXT NOT NULL'', '')''],
         unlines [''INSERT OR REPLACE INTO storage_meta (key, value)'',
           ''  VALUES ('' @ [CHR 0x27] @ ''created_by'' @ [CHR 0x27] @ '', '' @ [CHR 0x27] @ ''ezcap-daemon'' @ [CHR 0x27] @ '')'']]\<rparr>]"

definition current_version :: u32 where
  "current_version = (if migrations = [] then 0 else mg_version (last migrations))"

text \<open>The error text of a failed statement, nothing for success.\<close>

definition exec_fixed :: "'d sqlite \<Rightarrow> string \<Rightarrow> 'd \<Rightarrow> string option \<times> 'd" where
  "exec_fixed sq sql d =
     (case sq_exec sq d sql of
        (ExecOk, d') \<Rightarrow> (None, d')
      | (ExecFailed m, d') \<Rightarrow> (Some (case m of Some e \<Rightarrow> e | None \<Rightarrow> ''sqlite3_exec failed''), d'))"

definition read_version :: "'d sqlite \<Rightarrow> 'd \<Rightarrow> u32" where
  "read_version sq d = (case sq_user_version sq d of None \<Rightarrow> 0 | Some v \<Rightarrow> word_of_int v)"

text \<open>A failed ROLLBACK replaces the error it was called for.\<close>

definition rollback :: "'d sqlite \<Rightarrow> string \<Rightarrow> 'd \<Rightarrow> string option \<times> 'd" where
  "rollback sq e d =
     (let (r, d') = exec_fixed sq ''ROLLBACK'' d in (Some (case r of Some e' \<Rightarrow> e' | None \<Rightarrow> e), d'))"

definition exec_or_rollback :: "'d sqlite \<Rightarrow> string \<Rightarrow> 'd \<Rightarrow> string option \<times> 'd" where
  "exec_or_rollback sq sql d =
     (let (r, d') = exec_fixed sq sql d in case r of None \<Rightarrow> (None, d') | Some e \<Rightarrow> rollback sq e d')"

fun exec_all :: "'d sqlite \<Rightarrow> string list \<Rightarrow> 'd \<Rightarrow> string option \<times> 'd" where
  "exec_all sq [] d = (None, d)"
| "exec_all sq (sql # sqls) d =
     (case exec_or_rollback sq sql d of (None, d') \<Rightarrow> exec_all sq sqls d' | (Some e, d') \<Rightarrow> (Some e, d'))"

definition version_pragma :: "u32 \<Rightarrow> string" where
  "version_pragma v = ''PRAGMA user_version = '' @ dec (unat v)"

text \<open>The statements of the loop over the migrations, in the order in which they are executed.\<close>

definition pending_statements :: "u32 \<Rightarrow> string list" where
  "pending_statements from =
     concat (map (\<lambda>m. if mg_version m \<le> from then [] else mg_statements m @ [version_pragma (mg_version m)]) migrations)"

definition apply_migrations :: "'d sqlite \<Rightarrow> 'd \<Rightarrow> string option \<times> 'd" where
  "apply_migrations sq d =
     (let from = read_version sq d; target = current_version
      in if target < from then
           (Some (''database schema version '' @ dec (unat from) @ '' is newer than this daemon supports (''
                @ dec (unat target) @ '')''), d)
         else if from = target then (None, d)
         else case exec_fixed sq ''BEGIN'' d of
                (Some e, d1) \<Rightarrow> (Some e, d1)
              | (None, d1) \<Rightarrow>
                  (case exec_all sq (pending_statements from) d1 of
                     (Some e, d2) \<Rightarrow> (Some e, d2)
                   | (None, d2) \<Rightarrow> exec_or_rollback sq ''COMMIT'' d2))"

section \<open>Rows\<close>

record pending_write =
  pw_event_id :: string
  pw_schema_version :: u32
  pw_event_type :: string
  pw_source :: string
  pw_confidence :: double
  pw_timestamp_ms :: int
  pw_process_name :: string
  pw_remote_address :: string
  pw_remote_port :: int
  pw_url :: string
  pw_event_json :: string

text \<open>Texts are bound up to their first NUL; an empty optional column is NULL.\<close>

definition bind_optional :: "string \<Rightarrow> string option" where
  "bind_optional s = (if s = [] then None else Some (c_str s))"

definition write_row :: "pending_write \<Rightarrow> row" where
  "write_row w =
     \<lparr>rw_event_id = c_str (pw_event_id w), rw_schema_version = sint (pw_schema_version w),
      rw_event_type = c_str (pw_event_type w), rw_source = c_str (pw_source w),
      rw_confidence = pw_confidence w, rw_timestamp_unix_ms = pw_timestamp_ms w,
      rw_process_name = bind_optional (pw_process_name w),
      rw_remote_address = bind_optional (pw_remote_address w),
      rw_remote_port = (if pw_remote_port w < 0 then None else Some (sint (word_of_int (pw_remote_port w) :: u32))),
      rw_url = bind_optional (pw_url w), rw_event_json = c_str (pw_event_json w)\<rparr>"

definition write_one :: "'d sqlite \<Rightarrow> 'd \<Rightarrow> pending_write \<Rightarrow> bool \<times> 'd" where
  "write_one sq d w = sq_insert sq d (write_row w)"

text \<open>
  The write an event is queued as.  \<^verbatim>\<open>remote_port\<close> has no initial value in the source: \<open>junk\<close> is what
  it holds when the event has no network part.
\<close>

definition pending_of :: "(json \<Rightarrow> string option) \<Rightarrow> int \<Rightarrow> event \<Rightarrow> pending_write option" where
  "pending_of dump junk e =
     map_option (\<lambda>t.
       \<lparr>pw_event_id = ev_event_id e, pw_schema_version = ev_schema_version e,
        pw_event_type = event_type_name (ev_type e), pw_source = event_source_name (ev_source e),
        pw_confidence = ev_confidence e, pw_timestamp_ms = trunc_div (ev_timestamp e) 1000000,
        pw_process_name = (case ev_process e of None \<Rightarrow> [] | Some p \<Rightarrow> pi_name p),
        pw_remote_address = (case ev_network e of None \<Rightarrow> [] | Some n \<Rightarrow> net_remote_address n),
        pw_remote_port = (case ev_network e of None \<Rightarrow> junk | Some n \<Rightarrow> uint (net_remote_port n)),
        pw_url = (case ev_browser e of None \<Rightarrow> [] | Some b \<Rightarrow> br_url b),
        pw_event_json = t\<rparr>) (encode_event dump e)"

section \<open>The store\<close>

definition kMaxQueuedWrites :: nat where
  "kMaxQueuedWrites = 4096"

datatype writer_phase = Waiting | Writing | Exited

record 'd store_impl =
  st_db :: 'd
  st_queue :: "pending_write list"
  st_shutdown :: bool
  st_failed :: bool
  st_stored :: nat
  st_dropped :: nat
  st_version :: u32
  st_phase :: writer_phase
  st_batch :: "pending_write list"

text \<open>\<open>spawn_ok\<close> says whether the writer thread could be started.\<close>

definition store_open :: "'d sqlite \<Rightarrow> bool \<Rightarrow> string \<Rightarrow> string + 'd store_impl" where
  "store_open sq spawn_ok path =
     (case sq_open sq path of
        Inl m \<Rightarrow> Inl (case m of Some e \<Rightarrow> e | None \<Rightarrow> ''sqlite3_open failed'')
      | Inr d0 \<Rightarrow>
          (case exec_fixed sq ''PRAGMA journal_mode = TRUNCATE'' d0 of (Some e, _) \<Rightarrow> Inl e | (None, d1) \<Rightarrow>
          (case exec_fixed sq ''PRAGMA synchronous = NORMAL'' d1 of (Some e, _) \<Rightarrow> Inl e | (None, d2) \<Rightarrow>
          (case exec_fixed sq ''PRAGMA foreign_keys = ON'' d2 of (Some e, _) \<Rightarrow> Inl e | (None, d3) \<Rightarrow>
          (case apply_migrations sq d3 of (Some e, _) \<Rightarrow> Inl e | (None, d4) \<Rightarrow>
             if \<not> spawn_ok then Inl ''cannot start storage writer thread''
             else Inr \<lparr>st_db = d4, st_queue = [], st_shutdown = False, st_failed = False, st_stored = 0,
                       st_dropped = 0, st_version = read_version sq d4, st_phase = Waiting, st_batch = []\<rparr>)))))"

definition enqueue :: "pending_write \<Rightarrow> 'd store_impl \<Rightarrow> bool \<times> 'd store_impl" where
  "enqueue w s =
     (if st_failed s then (False, s)
      else if kMaxQueuedWrites \<le> length (st_queue s) then (False, s\<lparr>st_dropped := st_dropped s + 1\<rparr>)
      else (True, s\<lparr>st_queue := st_queue s @ [w]\<rparr>))"

text \<open>
  \<open>store\<close> is \<^verbatim>\<open>noexcept\<close>, so a document that cannot be printed ends the process: \<^const>\<open>None\<close>.  No store
  behind the pointer is \<^const>\<open>Inl\<close> of the reason it could not be opened.
\<close>

definition store_event :: "(json \<Rightarrow> string option) \<Rightarrow> int \<Rightarrow> event \<Rightarrow> string + 'd store_impl \<Rightarrow>
    (bool \<times> (string + 'd store_impl)) option" where
  "store_event dump junk e st =
     (case st of
        Inl r \<Rightarrow> Some (False, Inl r)
      | Inr s \<Rightarrow>
          if st_failed s then Some (False, Inr s)
          else map_option (\<lambda>w. let (ok, s') = enqueue w s in (ok, Inr s')) (pending_of dump junk e))"

definition prune :: "'d sqlite \<Rightarrow> int \<Rightarrow> int \<Rightarrow> string + 'd store_impl \<Rightarrow> int \<times> (string + 'd store_impl)" where
  "prune sq now retention st =
     (case st of
        Inl r \<Rightarrow> (-1, Inl r)
      | Inr s \<Rightarrow>
          if st_failed s then (-1, Inr s)
          else let cutoff = trunc_div (now - retention * 1000000000) 1000000;
                   (changes, d) = sq_delete_before sq (st_db s) cutoff
               in (case changes of None \<Rightarrow> -1 | Some n \<Rightarrow> n, Inr (s\<lparr>st_db := d\<rparr>)))"

definition stored_count :: "string + 'd store_impl \<Rightarrow> nat" where
  "stored_count st = (case st of Inl _ \<Rightarrow> 0 | Inr s \<Rightarrow> st_stored s)"

definition dropped_count :: "string + 'd store_impl \<Rightarrow> nat" where
  "dropped_count st = (case st of Inl _ \<Rightarrow> 0 | Inr s \<Rightarrow> st_dropped s)"

definition schema_version :: "string + 'd store_impl \<Rightarrow> u32" where
  "schema_version st = (case st of Inl _ \<Rightarrow> 0 | Inr s \<Rightarrow> st_version s)"

section \<open>The writer thread\<close>

definition writer_take :: "'d store_impl \<Rightarrow> 'd store_impl" where
  "writer_take s =
     (if st_phase s \<noteq> Waiting \<or> \<not> (st_shutdown s \<or> st_queue s \<noteq> []) then s
      else if st_queue s = [] \<and> st_shutdown s then s\<lparr>st_phase := Exited\<rparr>
      else s\<lparr>st_batch := st_queue s, st_queue := st_batch s, st_phase := Writing\<rparr>)"

fun write_batch :: "'d sqlite \<Rightarrow> pending_write list \<Rightarrow> 'd \<Rightarrow> bool \<times> nat \<times> 'd" where
  "write_batch sq [] d = (True, 0, d)"
| "write_batch sq (w # ws) d =
     (case write_one sq d w of
        (False, d') \<Rightarrow> (False, 0, d')
      | (True, d') \<Rightarrow> (let (ok, n, d'') = write_batch sq ws d' in (ok, Suc n, d'')))"

definition writer_write :: "'d sqlite \<Rightarrow> 'd store_impl \<Rightarrow> 'd store_impl" where
  "writer_write sq s =
     (if st_phase s \<noteq> Writing then s
      else let (ok, n, d) = write_batch sq (st_batch s) (st_db s);
               s' = s\<lparr>st_db := d, st_stored := st_stored s + n\<rparr>
           in if ok then s'\<lparr>st_phase := Waiting\<rparr> else s'\<lparr>st_failed := True, st_phase := Exited\<rparr>)"

text \<open>The thread on its own; one that waits for ever has no result.\<close>

partial_function (option) writer_loop :: "'d sqlite \<Rightarrow> 'd store_impl \<Rightarrow> 'd store_impl option" where
  "writer_loop sq s =
     (if st_phase s = Exited then Some s else writer_loop sq (writer_write sq (writer_take s)))"

text \<open>The destructor: the writer is told to stop, then joined.\<close>

definition store_destroy :: "'d sqlite \<Rightarrow> 'd store_impl \<Rightarrow> 'd store_impl option" where
  "store_destroy sq s = writer_loop sq (s\<lparr>st_shutdown := True\<rparr>)"

text \<open>What can happen to an open store, one atomic step after the other.\<close>

datatype store_op = OpEnqueue pending_write | OpTake | OpWrite | OpPrune int int

fun store_step :: "'d sqlite \<Rightarrow> store_op \<Rightarrow> 'd store_impl \<Rightarrow> 'd store_impl" where
  "store_step sq (OpEnqueue w) s = snd (enqueue w s)"
| "store_step sq OpTake s = writer_take s"
| "store_step sq OpWrite s = writer_write sq s"
| "store_step sq (OpPrune now retention) s = (case snd (prune sq now retention (Inr s)) of Inr s' \<Rightarrow> s' | Inl _ \<Rightarrow> s)"

section \<open>The queue is bounded\<close>

lemma prune_keeps: "st_queue (store_step sq (OpPrune now r) s) = st_queue s"
  "st_batch (store_step sq (OpPrune now r) s) = st_batch s"
  by (auto simp: prune_def Let_def split: prod.splits)

interpretation write_queue: bounded_container
  "\<lambda>s. max (length (st_queue s)) (length (st_batch s))" "store_step sq" kMaxQueuedWrites for sq
proof
  fix s :: "'a store_impl" and op :: store_op
  assume "max (length (st_queue s)) (length (st_batch s)) \<le> kMaxQueuedWrites"
  then show "max (length (st_queue (store_step sq op s))) (length (st_batch (store_step sq op s))) \<le> kMaxQueuedWrites"
    by (cases op) (simp_all add: prune_keeps del: store_step.simps(4), auto simp: enqueue_def writer_take_def
        writer_write_def Let_def split: prod.splits)
qed

section \<open>The destructor returns\<close>

text \<open>
  The law of the UNIQUE column: \<open>has d i\<close> says that a row with the event id \<open>i\<close> is in the table.
\<close>

definition unique_ids :: "'d sqlite \<Rightarrow> ('d \<Rightarrow> string \<Rightarrow> bool) \<Rightarrow> bool" where
  "unique_ids sq has \<longleftrightarrow>
     (\<forall>d r. has d (rw_event_id r) \<longrightarrow> \<not> fst (sq_insert sq d r))
     \<and> (\<forall>d r. fst (sq_insert sq d r) \<longrightarrow> has (snd (sq_insert sq d r)) (rw_event_id r))
     \<and> (\<forall>d r i. has d i \<longrightarrow> has (snd (sq_insert sq d r)) i)"

abbreviation row_id :: "pending_write \<Rightarrow> string" where
  "row_id w \<equiv> c_str (pw_event_id w)"

lemma write_one_unique:
  assumes "unique_ids sq has" "write_one sq d w = (ok, d')"
  shows "ok \<Longrightarrow> \<not> has d (row_id w) \<and> has d' (row_id w)" "has d i \<Longrightarrow> has d' i"
proof -
  have i: "sq_insert sq d (write_row w) = (ok, d')" "rw_event_id (write_row w) = row_id w"
    using assms(2) by (simp_all add: write_one_def write_row_def)
  then show "ok \<Longrightarrow> \<not> has d (row_id w) \<and> has d' (row_id w)" "has d i \<Longrightarrow> has d' i"
    using assms(1) unfolding unique_ids_def by (metis fst_conv snd_conv)+
qed

lemma write_batch_unique:
  assumes "unique_ids sq has" "write_batch sq ws d = (ok, n, d')"
  shows "(\<forall>i. has d i \<longrightarrow> has d' i) \<and> (ok \<longrightarrow> n = length ws \<and> (\<forall>w\<in>set ws. \<not> has d (row_id w) \<and> has d' (row_id w)))"
  using assms(2)
proof (induction ws arbitrary: d n)
  case (Cons w ws)
  obtain ok1 d1 where w: "write_one sq d w = (ok1, d1)" by fastforce
  show ?case
  proof (cases ok1)
    case True
    obtain n' where ws: "write_batch sq ws d1 = (ok, n', d')" "n = Suc n'"
      using Cons.prems w True by (auto split: prod.splits)
    note keep = write_one_unique [OF assms(1) w]
    from Cons.IH [OF ws(1)] show ?thesis using keep True ws(2) by auto
  qed (use Cons.prems w write_one_unique(2) [OF assms(1) w] in auto)
qed auto

lemma writer_write_cases:
  assumes "unique_ids sq has" "st_phase s = Writing"
  shows "st_phase (writer_write sq s) = Exited \<or>
    (st_phase (writer_write sq s) = Waiting \<and> st_queue (writer_write sq s) = st_queue s
     \<and> st_batch (writer_write sq s) = st_batch s \<and> st_shutdown (writer_write sq s) = st_shutdown s
     \<and> (\<forall>i. has (st_db s) i \<longrightarrow> has (st_db (writer_write sq s)) i)
     \<and> (\<forall>w\<in>set (st_batch s). \<not> has (st_db s) (row_id w) \<and> has (st_db (writer_write sq s)) (row_id w)))"
proof -
  obtain ok n d where "write_batch sq (st_batch s) (st_db s) = (ok, n, d)" by (metis prod_cases3)
  with write_batch_unique [OF assms(1) this] assms(2) show ?thesis
    by (cases ok) (simp_all add: writer_write_def Let_def)
qed

lemma writer_loop_exited: "st_phase s = Exited \<Longrightarrow> writer_loop sq s = Some s"
  by (simp add: writer_loop.simps)

lemma writer_loop_step: "st_phase s \<noteq> Exited \<Longrightarrow> writer_loop sq s = writer_loop sq (writer_write sq (writer_take s))"
  by (simp add: writer_loop.simps [of sq s])

lemma writer_loop_returns_present:
  assumes "unique_ids sq has" "st_phase s = Waiting" "st_shutdown s" "\<forall>w\<in>set (st_queue s). has (st_db s) (row_id w)"
  shows "\<exists>s'. writer_loop sq s = Some s'"
proof (cases "st_queue s = []")
  case True
  then show ?thesis
    using assms(2,3) by (simp add: writer_loop_step writer_take_def writer_write_def writer_loop_exited)
next
  case False
  then have t: "st_phase (writer_take s) = Writing" "st_batch (writer_take s) = st_queue s" "st_db (writer_take s) = st_db s"
    using assms(2) by (simp_all add: writer_take_def)
  have "hd (st_queue s) \<in> set (st_queue s)" using False by simp
  with writer_write_cases [OF assms(1) t(1)] t assms(4) have "st_phase (writer_write sq (writer_take s)) = Exited"
    by auto
  then show ?thesis using assms(2) by (simp add: writer_loop_step writer_loop_exited)
qed

lemma writer_loop_round:
  assumes u: "unique_ids sq has" and "st_phase s = Waiting" "st_shutdown s"
    and returns: "\<And>t. st_phase t = Waiting \<Longrightarrow> st_shutdown t \<Longrightarrow> st_queue t = st_batch s \<Longrightarrow> st_batch t = st_queue s \<Longrightarrow>
      \<forall>w\<in>set (st_batch t). has (st_db t) (row_id w) \<Longrightarrow> \<forall>i. has (st_db s) i \<longrightarrow> has (st_db t) i \<Longrightarrow>
      \<exists>s'. writer_loop sq t = Some s'"
  shows "\<exists>s'. writer_loop sq s = Some s'"
proof (cases "st_queue s = []")
  case True
  then show ?thesis
    using assms(2,3) by (simp add: writer_loop_step writer_take_def writer_write_def writer_loop_exited)
next
  case False
  then have t: "st_phase (writer_take s) = Writing" "st_batch (writer_take s) = st_queue s"
      "st_queue (writer_take s) = st_batch s" "st_shutdown (writer_take s)" "st_db (writer_take s) = st_db s"
    using assms(2,3) by (simp_all add: writer_take_def)
  have s: "writer_loop sq s = writer_loop sq (writer_write sq (writer_take s))"
    using assms(2) by (simp add: writer_loop_step)
  from writer_write_cases [OF u t(1)] show ?thesis
    unfolding s using t by (elim disjE) (simp_all add: writer_loop_exited returns)
qed

lemma writer_loop_returns:
  fixes s :: "'d store_impl"
  assumes u: "unique_ids sq has" and s: "st_phase s = Waiting" "st_shutdown s"
  shows "\<exists>s'. writer_loop sq s = Some s'"
  using u s
proof (rule writer_loop_round)
  fix t :: "'d store_impl"
  assume t: "st_phase t = Waiting" "st_shutdown t" "\<forall>w\<in>set (st_batch t). has (st_db t) (row_id w)"
  show "\<exists>s'. writer_loop sq t = Some s'"
    using u t(1,2)
  proof (rule writer_loop_round)
    fix v :: "'d store_impl"
    assume "st_phase v = Waiting" "st_shutdown v" "st_queue v = st_batch t" "\<forall>i. has (st_db t) i \<longrightarrow> has (st_db v) i"
    then show "\<exists>s'. writer_loop sq v = Some s'"
      using t(3) by (intro writer_loop_returns_present [OF u]) simp_all
  qed
qed

lemma destroy_returns:
  fixes s :: "'d store_impl"
  assumes "unique_ids sq has"
  shows "\<exists>s'. store_destroy sq s = Some s'"
proof -
  let ?s = "s\<lparr>st_shutdown := True\<rparr>"
  consider "st_phase s = Exited" | "st_phase s = Waiting" | "st_phase s = Writing" by (cases "st_phase s") auto
  then show ?thesis
  proof cases
    case 3
    then have "st_phase ?s = Writing" "writer_take ?s = ?s" by (simp_all add: writer_take_def)
    with writer_write_cases [OF assms this(1)]
    have "\<exists>s'. writer_loop sq (writer_write sq (writer_take ?s)) = Some s'"
      by (elim disjE) (simp_all add: writer_loop_exited writer_loop_returns [OF assms])
    with 3 show ?thesis by (simp add: store_destroy_def writer_loop_step [of ?s])
  qed (simp_all add: store_destroy_def writer_loop_exited writer_loop_returns [OF assms])
qed

text \<open>
  C23: the destructor of an open store returns, whatever the queue, the batch and the phase of the writer are,
  when the table refuses a second row with the same event id.  The writer that is told to stop goes on while the queue is
  not empty, and each swap puts the last batch back into it: only the refused row ends the loop.
\<close>

theorem store_destroy_returns:
  fixes s :: "'d store_impl"
  assumes "unique_ids sq has"
  shows "\<exists>s'. store_destroy sq s = Some s'"
  using assms by (rule destroy_returns)

text \<open>A database that is the list of the event ids of its rows.\<close>

definition list_sqlite :: "string list sqlite" where
  "list_sqlite = \<lparr>sq_open = (\<lambda>_. Inr []), sq_exec = (\<lambda>d _. (ExecOk, d)), sq_user_version = (\<lambda>_. Some 2),
     sq_insert = (\<lambda>d r. if rw_event_id r \<in> set d then (False, d) else (True, rw_event_id r # d)),
     sq_delete_before = (\<lambda>d _. (Some 0, d))\<rparr>"

lemma list_sqlite_unique: "unique_ids list_sqlite (\<lambda>d i. i \<in> set d)"
  by (simp add: unique_ids_def list_sqlite_def)

definition sample_write :: "string \<Rightarrow> pending_write" where
  "sample_write i = \<lparr>pw_event_id = i, pw_schema_version = 1, pw_event_type = ''dns_query'', pw_source = ''ebpf'',
     pw_confidence = 1, pw_timestamp_ms = 0, pw_process_name = [], pw_remote_address = [], pw_remote_port = -1,
     pw_url = [], pw_event_json = ''{}''\<rparr>"

definition fresh_store :: "'d \<Rightarrow> 'd store_impl" where
  "fresh_store d = \<lparr>st_db = d, st_queue = [], st_shutdown = False, st_failed = False, st_stored = 0,
     st_dropped = 0, st_version = 2, st_phase = Waiting, st_batch = []\<rparr>"

lemma store_destroy_returns_witness:
  "\<exists>s'. store_destroy list_sqlite ((fresh_store [])\<lparr>st_queue := [sample_write ''a'']\<rparr>) = Some s'"
  by (rule store_destroy_returns [OF list_sqlite_unique])

section \<open>The batch that comes back\<close>

text \<open>A table that refuses a row only for its event id, and an insertion that adds that id alone.\<close>

definition healthy_table :: "'d sqlite \<Rightarrow> ('d \<Rightarrow> string \<Rightarrow> bool) \<Rightarrow> bool" where
  "healthy_table sq has \<longleftrightarrow>
     (\<forall>d r. fst (sq_insert sq d r) \<longleftrightarrow> \<not> has d (rw_event_id r))
     \<and> (\<forall>d r i. has (snd (sq_insert sq d r)) i \<longleftrightarrow> has d i \<or> i = rw_event_id r)"

lemma write_one_healthy:
  assumes "healthy_table sq has" "write_one sq d w = (ok, d')"
  shows "ok \<longleftrightarrow> \<not> has d (row_id w)" "has d' i \<longleftrightarrow> has d i \<or> i = row_id w"
  using assms(1) [unfolded healthy_table_def, THEN conjunct1, rule_format, of d "write_row w"]
    assms(1) [unfolded healthy_table_def, THEN conjunct2, rule_format, of d "write_row w" i] assms(2)
  by (simp_all add: write_one_def write_row_def)

lemma write_batch_healthy:
  assumes "healthy_table sq has" "distinct (map row_id ws)" "\<forall>w\<in>set ws. \<not> has d (row_id w)"
  shows "\<exists>d'. write_batch sq ws d = (True, length ws, d') \<and> (\<forall>i. has d' i \<longleftrightarrow> has d i \<or> i \<in> row_id ` set ws)"
  using assms(2,3)
proof (induction ws arbitrary: d)
  case (Cons w ws)
  obtain ok d1 where w: "write_one sq d w = (ok, d1)" by fastforce
  note ok = write_one_healthy [OF assms(1) w]
  have "distinct (map row_id ws)" "\<forall>v\<in>set ws. \<not> has d1 (row_id v)"
    using Cons.prems by (auto simp: ok rev_image_eqI)
  from Cons.IH [OF this] obtain d2 where
    "write_batch sq ws d1 = (True, length ws, d2)" "\<forall>i. has d2 i \<longleftrightarrow> has d1 i \<or> i \<in> row_id ` set ws" by blast
  moreover have ok using ok(1) Cons.prems(2) by simp
  ultimately show ?case using w by (simp add: ok(2))
qed simp

lemma write_batch_refused:
  assumes "healthy_table sq has" "ws \<noteq> []" "has d (row_id (hd ws))"
  shows "\<exists>d'. write_batch sq ws d = (False, 0, d')"
proof -
  obtain w ws' where ws: "ws = w # ws'" using assms(2) by (cases ws) auto
  obtain ok d' where w: "write_one sq d w = (ok, d')" by fastforce
  with write_one_healthy(1) [OF assms(1) w] assms(3) show ?thesis by (simp add: ws)
qed

lemma fold_enqueue:
  "\<not> st_failed s \<Longrightarrow> length (st_queue s) + length ws \<le> kMaxQueuedWrites \<Longrightarrow>
    fold (store_step sq) (map OpEnqueue ws) s = s\<lparr>st_queue := st_queue s @ ws\<rparr>"
  by (induction ws arbitrary: s) (auto simp: enqueue_def)

text \<open>
  C34: after two batches the store disables itself.  The writer swaps its local batch with the queue and never empties
  it, so the first batch returns to the queue with the second swap; its rows are already in the table, the
  write is refused for the UNIQUE event id, and from then on every event is refused.
\<close>

theorem two_batches_disable:
  fixes sq :: "'d sqlite"
  assumes open_ok: "store_open sq True path = Inr s0" and healthy: "healthy_table sq has"
    and ws: "ws1 \<noteq> []" "ws2 \<noteq> []" "length ws1 \<le> kMaxQueuedWrites" "length ws2 \<le> kMaxQueuedWrites"
    and ids: "distinct (map row_id (ws1 @ ws2))" "\<forall>w\<in>set (ws1 @ ws2). \<not> has (st_db s0) (row_id w)"
    and s: "s = fold (store_step sq) (map OpEnqueue ws1 @ [OpTake, OpWrite] @ map OpEnqueue ws2
      @ [OpTake, OpWrite, OpTake, OpWrite]) s0"
  shows "st_failed s \<and> st_phase s = Exited \<and> st_stored s = length ws1 + length ws2
    \<and> (\<forall>dump junk e. store_event dump junk e (Inr s) = Some (False, Inr s))"
proof -
  have s0: "st_queue s0 = []" "st_batch s0 = []" "\<not> st_failed s0" "st_phase s0 = Waiting" "st_stored s0 = 0"
      "\<not> st_shutdown s0"
    using open_ok by (auto simp: store_open_def split: sum.splits prod.splits option.splits)
  obtain d1 where d1: "write_batch sq ws1 (st_db s0) = (True, length ws1, d1)"
      "\<forall>i. has d1 i \<longleftrightarrow> has (st_db s0) i \<or> i \<in> row_id ` set ws1"
    using write_batch_healthy [OF healthy, of ws1 "st_db s0"] ids by auto
  obtain d2 where d2: "write_batch sq ws2 d1 = (True, length ws2, d2)"
      "\<forall>i. has d2 i \<longleftrightarrow> has d1 i \<or> i \<in> row_id ` set ws2"
    using write_batch_healthy [OF healthy, of ws2 d1] ids d1(2) by force
  have "has d2 (row_id (hd ws1))" using d1(2) d2(2) ws(1) by simp
  then obtain d3 where d3: "write_batch sq ws1 d2 = (False, 0, d3)"
    using write_batch_refused [OF healthy ws(1)] by blast
  define s1 where "s1 = s0\<lparr>st_db := d1, st_batch := ws1, st_stored := length ws1\<rparr>"
  have "writer_write sq (writer_take (s0\<lparr>st_queue := ws1\<rparr>)) = s1"
    using s0 ws(1) d1(1) by (simp add: writer_take_def writer_write_def s1_def)
  then have "s = fold (store_step sq) [OpTake, OpWrite, OpTake, OpWrite] (s1\<lparr>st_queue := ws2\<rparr>)"
    using s0 ws(3,4) unfolding s by (simp add: fold_enqueue s1_def)
  also have "\<dots> = s1\<lparr>st_db := d3, st_queue := ws2, st_stored := length ws1 + length ws2, st_failed := True, st_phase := Exited\<rparr>"
    using s0 ws(1,2) d2(1) d3 by (simp add: writer_take_def writer_write_def s1_def)
  finally show ?thesis by (simp add: store_event_def)
qed

lemma list_sqlite_healthy: "healthy_table list_sqlite (\<lambda>d i. i \<in> set d)"
  by (auto simp: healthy_table_def list_sqlite_def)

lemma list_sqlite_open: "store_open list_sqlite True path = Inr (fresh_store [])"
  by (simp add: store_open_def exec_fixed_def apply_migrations_def read_version_def current_version_def
      migrations_def list_sqlite_def fresh_store_def)

lemma two_batches_disable_witness:
  "st_stored (fold (store_step list_sqlite) (map OpEnqueue [sample_write ''a''] @ [OpTake, OpWrite]
      @ map OpEnqueue [sample_write ''b''] @ [OpTake, OpWrite, OpTake, OpWrite]) (fresh_store [])) = 2"
  using two_batches_disable [OF list_sqlite_open list_sqlite_healthy, of "[sample_write ''a'']" "[sample_write ''b'']"]
  by (simp add: kMaxQueuedWrites_def sample_write_def fresh_store_def c_str_def del: fold.simps)

section \<open>Migrations\<close>

text \<open>
  What is relied on: \<^verbatim>\<open>PRAGMA user_version = n\<close> sets the version that the pragma reads, COMMIT keeps it, a
  BEGIN that fails changes nothing, and a ROLLBACK that succeeds restores the database of the BEGIN.  \<open>tx d0 d\<close>
  says that \<open>d\<close> is inside a transaction begun on \<open>d0\<close>.
\<close>

definition migration_laws :: "'d sqlite \<Rightarrow> ('d \<Rightarrow> 'd \<Rightarrow> bool) \<Rightarrow> bool" where
  "migration_laws sq tx \<longleftrightarrow>
     (\<forall>d d'. sq_exec sq d ''BEGIN'' = (ExecOk, d') \<longrightarrow> tx d d')
     \<and> (\<forall>d d' m. sq_exec sq d ''BEGIN'' = (ExecFailed m, d') \<longrightarrow> d' = d)
     \<and> (\<forall>d0 d sql r d'. tx d0 d \<longrightarrow> sql \<noteq> ''ROLLBACK'' \<longrightarrow> sq_exec sq d sql = (r, d') \<longrightarrow>
          sql \<noteq> ''COMMIT'' \<or> r \<noteq> ExecOk \<longrightarrow> tx d0 d')
     \<and> (\<forall>d0 d d'. tx d0 d \<longrightarrow> sq_exec sq d ''ROLLBACK'' = (ExecOk, d') \<longrightarrow> d' = d0)
     \<and> (\<forall>d d'. \<forall>v\<in>set (map mg_version migrations). sq_exec sq d (version_pragma v) = (ExecOk, d') \<longrightarrow> sq_user_version sq d' = Some (uint v))
     \<and> (\<forall>d d'. sq_exec sq d ''COMMIT'' = (ExecOk, d') \<longrightarrow> sq_user_version sq d' = sq_user_version sq d)"

lemma migration_lawsD:
  assumes "migration_laws sq tx"
  shows "sq_exec sq d ''BEGIN'' = (ExecOk, d') \<Longrightarrow> tx d d'"
    "sq_exec sq d ''BEGIN'' = (ExecFailed m, d') \<Longrightarrow> d' = d"
    "tx d0 d \<Longrightarrow> sql \<noteq> ''ROLLBACK'' \<Longrightarrow> sq_exec sq d sql = (r, d') \<Longrightarrow> sql \<noteq> ''COMMIT'' \<or> r \<noteq> ExecOk \<Longrightarrow> tx d0 d'"
    "tx d0 d \<Longrightarrow> sq_exec sq d ''ROLLBACK'' = (ExecOk, d') \<Longrightarrow> d' = d0"
    "v \<in> set (map mg_version migrations) \<Longrightarrow> sq_exec sq d (version_pragma v) = (ExecOk, d') \<Longrightarrow> sq_user_version sq d' = Some (uint v)"
    "sq_exec sq d ''COMMIT'' = (ExecOk, d') \<Longrightarrow> sq_user_version sq d' = sq_user_version sq d"
proof -
  note law = assms [unfolded migration_laws_def]
  show "sq_exec sq d ''BEGIN'' = (ExecOk, d') \<Longrightarrow> tx d d'"
    by (rule law [THEN conjunct1, rule_format])
  note law = law [THEN conjunct2]
  show "sq_exec sq d ''BEGIN'' = (ExecFailed m, d') \<Longrightarrow> d' = d"
    by (rule law [THEN conjunct1, rule_format])
  note law = law [THEN conjunct2]
  show "tx d0 d \<Longrightarrow> sql \<noteq> ''ROLLBACK'' \<Longrightarrow> sq_exec sq d sql = (r, d') \<Longrightarrow> sql \<noteq> ''COMMIT'' \<or> r \<noteq> ExecOk \<Longrightarrow> tx d0 d'"
    by (rule law [THEN conjunct1, rule_format])
  note law = law [THEN conjunct2]
  show "tx d0 d \<Longrightarrow> sq_exec sq d ''ROLLBACK'' = (ExecOk, d') \<Longrightarrow> d' = d0"
    by (rule law [THEN conjunct1, rule_format])
  note law = law [THEN conjunct2]
  show "v \<in> set (map mg_version migrations) \<Longrightarrow> sq_exec sq d (version_pragma v) = (ExecOk, d') \<Longrightarrow> sq_user_version sq d' = Some (uint v)"
    by (rule law [THEN conjunct1, rule_format])
  show "sq_exec sq d ''COMMIT'' = (ExecOk, d') \<Longrightarrow> sq_user_version sq d' = sq_user_version sq d"
    by (rule law [THEN conjunct2, rule_format])
qed

lemma exec_fixed_None: "exec_fixed sq sql d = (None, d') \<longleftrightarrow> sq_exec sq d sql = (ExecOk, d')"
  by (auto simp: exec_fixed_def split: prod.splits exec_result.splits)

lemma exec_fixed_Some: "exec_fixed sq sql d = (Some e, d') \<Longrightarrow> \<exists>m. sq_exec sq d sql = (ExecFailed m, d')"
  by (auto simp: exec_fixed_def split: prod.splits exec_result.splits)

lemma exec_or_rollback_None: "exec_or_rollback sq sql d = (None, d') \<longleftrightarrow> sq_exec sq d sql = (ExecOk, d')"
  by (auto simp: exec_or_rollback_def rollback_def Let_def simp flip: exec_fixed_None split: prod.splits option.splits)

lemma exec_or_rollback_Some:
  assumes "migration_laws sq tx" "tx d0 d" "sql \<noteq> ''ROLLBACK''" "exec_or_rollback sq sql d = (Some e, d')"
    and "\<forall>d0 x. tx d0 x \<longrightarrow> fst (sq_exec sq x ''ROLLBACK'') = ExecOk"
  shows "d' = d0"
proof -
  obtain e1 d1 where e1: "exec_fixed sq sql d = (Some e1, d1)" "rollback sq e1 d1 = (Some e, d')"
    using assms(4) by (auto simp: exec_or_rollback_def Let_def split: prod.splits option.splits)
  obtain m where m: "sq_exec sq d sql = (ExecFailed m, d1)" using exec_fixed_Some [OF e1(1)] by blast
  have tx: "tx d0 d1" using migration_lawsD(3) [OF assms(1-3) m] by simp
  moreover have "sq_exec sq d1 ''ROLLBACK'' = (ExecOk, d')"
    using e1(2) assms(5) [rule_format, OF tx]
    by (auto simp: rollback_def exec_fixed_def split: prod.splits exec_result.splits)
  ultimately show ?thesis by (rule migration_lawsD(4) [OF assms(1)])
qed

lemma exec_all_tx:
  assumes "migration_laws sq tx" "\<forall>d0 x. tx d0 x \<longrightarrow> fst (sq_exec sq x ''ROLLBACK'') = ExecOk"
  shows "tx d0 d \<Longrightarrow> ''ROLLBACK'' \<notin> set sqls \<Longrightarrow> ''COMMIT'' \<notin> set sqls \<Longrightarrow> exec_all sq sqls d = (r, d') \<Longrightarrow>
    case r of None \<Rightarrow> tx d0 d' | Some _ \<Rightarrow> d' = d0"
proof (induction sqls arbitrary: d)
  case (Cons sql sqls)
  obtain r1 d1 where r1: "exec_or_rollback sq sql d = (r1, d1)" by fastforce
  have sql: "sql \<noteq> ''ROLLBACK''" "sql \<noteq> ''COMMIT''" using Cons.prems(2,3) by auto
  show ?case
  proof (cases r1)
    case None
    then have "sq_exec sq d sql = (ExecOk, d1)" using r1 by (simp add: exec_or_rollback_None)
    from migration_lawsD(3) [OF assms(1) Cons.prems(1) sql(1) this] sql(2) have "tx d0 d1" by blast
    with Cons.IH Cons.prems r1 None show ?thesis by simp
  next
    case (Some e)
    have "d1 = d0"
      using exec_or_rollback_Some [OF assms(1) Cons.prems(1) sql(1) _ assms(2)] r1 Some by blast
    with Cons.prems(4) r1 Some show ?thesis by auto
  qed
qed auto

lemma exec_all_last: "exec_all sq (sqls @ [sql]) d = (None, d') \<Longrightarrow> \<exists>d1. sq_exec sq d1 sql = (ExecOk, d')"
  by (induction sqls arbitrary: d)
    (auto simp flip: exec_or_rollback_None split: prod.splits option.splits)

lemma current_version_2: "current_version = 2"
  by (simp add: current_version_def migrations_def)

lemma pending_statements_last: "from < current_version \<Longrightarrow>
    \<exists>sqls. pending_statements from = sqls @ [version_pragma current_version]"
  unfolding current_version_2 by (simp add: pending_statements_def migrations_def not_le [symmetric])

lemma pending_statements_plain: "''ROLLBACK'' \<notin> set (pending_statements from)" "''COMMIT'' \<notin> set (pending_statements from)"
  by (auto simp: pending_statements_def migrations_def unlines_def version_pragma_def)

lemma apply_migrations_behind:
  assumes "read_version sq d < current_version"
  shows "apply_migrations sq d =
    (case exec_fixed sq ''BEGIN'' d of
       (Some e, d1) \<Rightarrow> (Some e, d1)
     | (None, d1) \<Rightarrow>
         (case exec_all sq (pending_statements (read_version sq d)) d1 of
            (Some e, d2) \<Rightarrow> (Some e, d2)
          | (None, d2) \<Rightarrow> exec_or_rollback sq ''COMMIT'' d2))"
proof -
  have "\<not> current_version < read_version sq d" "read_version sq d \<noteq> current_version" using assms by auto
  then show ?thesis by (simp add: apply_migrations_def Let_def)
qed

lemma apply_migrations_success:
  assumes "migration_laws sq tx" "apply_migrations sq d = (None, d')"
  shows "read_version sq d' = current_version"
proof (cases "read_version sq d < current_version")
  case True
  obtain sqls where sqls: "pending_statements (read_version sq d) = sqls @ [version_pragma current_version]"
    using pending_statements_last [OF True] by blast
  obtain d1 d2 where all: "exec_all sq (pending_statements (read_version sq d)) d1 = (None, d2)"
      and commit: "sq_exec sq d2 ''COMMIT'' = (ExecOk, d')"
    using assms(2) unfolding apply_migrations_behind [OF True]
    by (auto simp flip: exec_or_rollback_None split: prod.splits option.splits)
  obtain d3 where "sq_exec sq d3 (version_pragma current_version) = (ExecOk, d2)"
    using exec_all_last [OF all [unfolded sqls]] by (rule exE)
  moreover have "current_version \<in> set (map mg_version migrations)"
    unfolding current_version_2 by (simp add: migrations_def)
  ultimately have "sq_user_version sq d2 = Some (uint current_version)"
    using migration_lawsD(5) [OF assms(1)] by simp
  then show ?thesis
    using migration_lawsD(6) [OF assms(1) commit] by (simp add: read_version_def)
next
  case False
  then show ?thesis using assms(2) by (auto simp: apply_migrations_def Let_def split: if_splits)
qed

lemma apply_migrations_failure:
  assumes law: "migration_laws sq tx" and rb: "\<forall>d0 x. tx d0 x \<longrightarrow> fst (sq_exec sq x ''ROLLBACK'') = ExecOk"
    and fail: "apply_migrations sq d = (Some e, d')"
  shows "d' = d"
proof (cases "read_version sq d < current_version")
  case True
  obtain r1 d1 where r1: "exec_fixed sq ''BEGIN'' d = (r1, d1)" by fastforce
  show ?thesis
  proof (cases r1)
    case None
    then have tx: "tx d d1" using r1 migration_lawsD(1) [OF law] by (simp add: exec_fixed_None)
    obtain r2 d2 where r2: "exec_all sq (pending_statements (read_version sq d)) d1 = (r2, d2)" by fastforce
    note all = exec_all_tx [OF law rb tx pending_statements_plain r2]
    show ?thesis
    proof (cases r2)
      case None
      then have c: "exec_or_rollback sq ''COMMIT'' d2 = (Some e, d')"
        using fail r1 r2 \<open>r1 = None\<close> by (simp add: apply_migrations_behind [OF True])
      have "tx d d2" using all None by simp
      then show ?thesis by (rule exec_or_rollback_Some [OF law _ _ c rb]) simp
    qed (use all fail r1 r2 \<open>r1 = None\<close> in \<open>simp add: apply_migrations_behind [OF True]\<close>)
  next
    case (Some e1)
    obtain m where "sq_exec sq d ''BEGIN'' = (ExecFailed m, d1)"
      using exec_fixed_Some [OF r1 [unfolded Some]] by (rule exE)
    with migration_lawsD(2) [OF law] have "d1 = d" .
    then show ?thesis using fail r1 Some by (simp add: apply_migrations_behind [OF True])
  qed
qed (use fail in \<open>auto simp: apply_migrations_def Let_def split: if_splits\<close>)


text \<open>A database that is its version and, inside a transaction, the version at the BEGIN.\<close>

definition version_exec :: "int \<times> int option \<Rightarrow> string \<Rightarrow> exec_result \<times> int \<times> int option" where
  "version_exec d sql =
     (if sql = ''BEGIN'' then (if snd d = None then (ExecOk, fst d, Some (fst d)) else (ExecFailed None, d))
      else if sql = ''ROLLBACK'' then (case snd d of None \<Rightarrow> (ExecFailed None, d) | Some v \<Rightarrow> (ExecOk, v, None))
      else if sql = ''COMMIT'' then (ExecOk, fst d, None)
      else if sql = version_pragma 1 then (ExecOk, 1, snd d)
      else if sql = version_pragma 2 then (ExecOk, 2, snd d)
      else (ExecOk, d))"

definition version_sqlite :: "(int \<times> int option) sqlite" where
  "version_sqlite = \<lparr>sq_open = (\<lambda>_. Inr (0, None)), sq_exec = version_exec, sq_user_version = (\<lambda>d. Some (fst d)),
     sq_insert = (\<lambda>d r. (True, d)), sq_delete_before = (\<lambda>d _. (Some 0, d))\<rparr>"

abbreviation version_tx :: "int \<times> int option \<Rightarrow> int \<times> int option \<Rightarrow> bool" where
  "version_tx d0 d \<equiv> snd d0 = None \<and> snd d = Some (fst d0)"

lemma version_pragmas:
  "version_pragma 1 = ''PRAGMA user_version = 1''" "version_pragma 2 = ''PRAGMA user_version = 2''"
  by (simp_all add: version_pragma_def dec.simps dec_digit_def char_eq_iff_code of_char_of)

lemma version_laws: "migration_laws version_sqlite version_tx"
  unfolding migration_laws_def
proof (intro conjI)
  show "\<forall>d0 d sql r d'. version_tx d0 d \<longrightarrow> sql \<noteq> ''ROLLBACK'' \<longrightarrow> sq_exec version_sqlite d sql = (r, d') \<longrightarrow>
      sql \<noteq> ''COMMIT'' \<or> r \<noteq> ExecOk \<longrightarrow> version_tx d0 d'"
    by (simp add: version_sqlite_def version_exec_def split: option.splits)
  show "\<forall>d d'. \<forall>v\<in>set (map mg_version migrations). sq_exec version_sqlite d (version_pragma v) = (ExecOk, d') \<longrightarrow>
      sq_user_version version_sqlite d' = Some (uint v)"
    by (simp add: version_sqlite_def version_exec_def version_pragmas migrations_def)
qed (auto simp: version_sqlite_def version_exec_def split: if_splits)


end
