(* ===== verification/Ez_Security.thy ===== *)
theory Ez_Security
  imports Ez_Prelude
begin

text \<open>
  \<^verbatim>\<open>src/security\<close>: dropping capabilities and installing the system-call filter.  The process is its
  capability sets and the filter of the calling thread; the calls of libcap, \<^verbatim>\<open>prctl\<close> and libseccomp
  succeed or fail as the environment says, and change the process as their manual pages state.

  The lemmas show what is left of the capabilities and which system calls remain after success, and
  what a failure has already changed.
\<close>

section \<open>Capabilities\<close>

record process =
  pr_permitted :: "string set"
  pr_effective :: "string set"
  pr_inheritable :: "string set"
  pr_ambient :: "string set"
  pr_noroot :: bool
  pr_filter :: "string set option"

text \<open>The error numbers the sources tell apart; any other one is \<open>EOther\<close>.\<close>

datatype sys_error = EInval | EPerm | EOther

record caps_env =
  ce_get_proc :: bool
  ce_init :: bool
  ce_from_name :: "string \<Rightarrow> bool"
  ce_set_flag :: "string \<Rightarrow> bool"
  ce_securebits :: "sys_error option"
  ce_set_proc :: bool
  ce_ambient :: "sys_error option"

text \<open>\<^verbatim>\<open>cap_set_proc\<close> replaces the three sets; the kernel keeps the ambient set inside the permitted and the inheritable one.\<close>

definition cap_set_proc :: "string set \<Rightarrow> process \<Rightarrow> process" where
  "cap_set_proc target p = p\<lparr>pr_permitted := target, pr_effective := target, pr_inheritable := {},
     pr_ambient := {}\<rparr>"

definition apply_caps :: "caps_env \<Rightarrow> string set \<Rightarrow> process \<Rightarrow> process \<times> (string + unit)" where
  "apply_caps env target p =
     (if ce_securebits env = Some EOther then (p, Inl ''prctl securebits failed'')
      else let p = (if ce_securebits env = None then p\<lparr>pr_noroot := True\<rparr> else p)
           in if \<not> ce_set_proc env then (p, Inl ''cap_set_proc failed'')
              else let p = cap_set_proc target p
                   in if ce_ambient env \<noteq> None \<and> ce_ambient env \<noteq> Some EInval
                      then (p, Inl ''prctl ambient clear failed'')
                      else (p\<lparr>pr_ambient := {}\<rparr>, Inr ()))"

text \<open>The target set, filled name by name.\<close>

fun target_caps :: "caps_env \<Rightarrow> string list \<Rightarrow> string set \<Rightarrow> string + string set" where
  "target_caps env [] target = Inr target"
| "target_caps env (name # names) target =
     (if \<not> ce_from_name env name then Inl ''unknown capability name''
      else if \<not> ce_set_flag env name then Inl ''cap_set_flag failed''
      else target_caps env names (insert name target))"

definition drop_to :: "caps_env \<Rightarrow> string list \<Rightarrow> process \<Rightarrow> process \<times> (string + unit)" where
  "drop_to env keep p =
     (if \<not> ce_get_proc env then (p, Inl ''cap_get_proc failed'')
      else if \<not> ce_init env then (p, Inl ''cap_init failed'')
      else case target_caps env keep {} of
             Inl e \<Rightarrow> (p, Inl e)
           | Inr target \<Rightarrow> apply_caps env target p)"

definition drop_all :: "caps_env \<Rightarrow> process \<Rightarrow> process \<times> (string + unit)" where
  "drop_all env p = drop_to env [] p"

text \<open>\<open>to_text\<close> is \<^verbatim>\<open>cap_to_text\<close>, \<^const>\<open>None\<close> for a null result; no capability at all prints as an equals sign.\<close>

definition has_capabilities :: "caps_env \<Rightarrow> (process \<Rightarrow> string option) \<Rightarrow> process \<Rightarrow> bool" where
  "has_capabilities env to_text p = (if \<not> ce_get_proc env then False else to_text p \<noteq> Some ''='')"

section \<open>System calls\<close>

definition kAllowed :: "string list" where
  "kAllowed =
     [''accept4'', ''bind'', ''brk'', ''clock_gettime'', ''close'', ''connect'', ''epoll_create1'', ''epoll_ctl'',
      ''epoll_pwait'', ''epoll_wait'', ''exit'', ''exit_group'', ''fcntl'', ''fstat'', ''futex'', ''getpid'',
      ''getsockname'', ''getsockopt'', ''listen'', ''lseek'', ''madvise'', ''mmap'', ''mprotect'', ''munmap'',
      ''nanosleep'', ''openat'', ''pipe2'', ''poll'', ''ppoll'', ''read'', ''readv'', ''recvfrom'', ''recvmmsg'',
      ''recvmsg'', ''send'', ''sendmmsg'', ''sendmsg'', ''sendto'', ''setsockopt'', ''shutdown'', ''sigaction'',
      ''sigprocmask'', ''socket'', ''write'', ''writev'']"

record seccomp_env =
  se_init :: bool
  se_rule_add :: "string \<Rightarrow> bool"
  se_load :: bool

fun add_rules :: "seccomp_env \<Rightarrow> string list \<Rightarrow> string set \<Rightarrow> string + string set" where
  "add_rules env [] ctx = Inr ctx"
| "add_rules env (c # cs) ctx =
     (if \<not> se_rule_add env c then Inl ''seccomp_rule_add failed'' else add_rules env cs (insert c ctx))"

definition sandbox_install :: "seccomp_env \<Rightarrow> process \<Rightarrow> process \<times> (string + unit)" where
  "sandbox_install env p =
     (if \<not> se_init env then (p, Inl ''seccomp_init failed'')
      else case add_rules env kAllowed {} of
             Inl e \<Rightarrow> (p, Inl e)
           | Inr ctx \<Rightarrow> if \<not> se_load env then (p, Inl ''seccomp_load failed'')
                        else (p\<lparr>pr_filter := Some ctx\<rparr>, Inr ()))"

text \<open>A call is refused with EPERM exactly when a filter is loaded that does not list it.\<close>

definition syscall_allowed :: "process \<Rightarrow> string \<Rightarrow> bool" where
  "syscall_allowed p c = (case pr_filter p of None \<Rightarrow> True | Some ctx \<Rightarrow> c \<in> ctx)"

section \<open>What is left\<close>

lemma target_caps_Inr: "target_caps env keep t = Inr u \<Longrightarrow> u = t \<union> set keep"
  by (induction env keep t rule: target_caps.induct) (auto split: if_splits)

lemma apply_caps_ok:
  "apply_caps env target p = (q, Inr ()) \<Longrightarrow>
     pr_permitted q = target \<and> pr_effective q = target \<and> pr_inheritable q = {} \<and> pr_ambient q = {}
     \<and> pr_filter q = pr_filter p"
  by (auto simp: apply_caps_def cap_set_proc_def Let_def split: if_splits)

lemma drop_to_ok:
  assumes "drop_to env keep p = (q, Inr ())"
  shows "pr_permitted q = set keep \<and> pr_effective q = set keep \<and> pr_inheritable q = {} \<and> pr_ambient q = {}
    \<and> pr_filter q = pr_filter p"
proof -
  obtain target where "target_caps env keep {} = Inr target" "apply_caps env target p = (q, Inr ())"
    using assms by (auto simp: drop_to_def split: if_splits sum.splits)
  with target_caps_Inr [of env keep "{}" target] apply_caps_ok show ?thesis by simp
qed

text \<open>A failed drop never leaves a capability that was neither held before nor asked for.\<close>

lemma drop_to_monotone:
  assumes "drop_to env keep p = (q, r)" "set keep \<subseteq> pr_permitted p" "set keep \<subseteq> pr_effective p"
  shows "pr_permitted q \<subseteq> pr_permitted p \<and> pr_effective q \<subseteq> pr_effective p"
  using assms target_caps_Inr [of env keep "{}"]
  by (auto simp: drop_to_def apply_caps_def cap_set_proc_def Let_def split: if_splits sum.splits)

lemma add_rules_Inr: "add_rules env cs ctx = Inr ctx' \<Longrightarrow> ctx' = ctx \<union> set cs"
  by (induction env cs ctx rule: add_rules.induct) (auto split: if_splits)

lemma sandbox_install_ok:
  assumes "sandbox_install env p = (q, Inr ())"
  shows "q = p\<lparr>pr_filter := Some (set kAllowed)\<rparr>"
  using assms add_rules_Inr [of env kAllowed "{}"]
  by (auto simp: sandbox_install_def split: if_splits sum.splits)

lemma sandbox_install_failed: "sandbox_install env p = (q, Inl e) \<Longrightarrow> q = p"
  by (auto simp: sandbox_install_def split: if_splits sum.splits)

lemma sandbox_refuses:
  "pr_filter p = Some (set kAllowed) \<Longrightarrow> c \<in> {''execve'', ''fork'', ''clone'', ''clone3'', ''ptrace'', ''setuid'', ''unlink''} \<Longrightarrow>
     \<not> syscall_allowed p c"
  by (auto simp: syscall_allowed_def kAllowed_def)

end
