(* ===== verification/Ez_Daemon.thy ===== *)
theory Ez_Daemon
  imports Ez_Attribution Ez_Handler Ez_Config Ez_Storage Ez_Security
begin

text \<open>
  \<^verbatim>\<open>src/daemon/daemon.cpp\<close> and \<^verbatim>\<open>src/daemon/main.cpp\<close>: the composition of the components.  The members of
  \<^verbatim>\<open>Daemon\<close> other than the server are the record \<open>daemon_core\<close>; it is the handler state of the IPC
  server, so a daemon is a server with that state, and \<open>dc_has_server\<close> says whether the pointer
  \<^verbatim>\<open>server_\<close> is set.  What the machine answers (interfaces, environment, capture libraries, clocks,
  SQLite) is an argument of the operations.  An operation that ends the process has no result.

  The lemmas follow an event from the capture callback to the sockets and to the store, and show how the daemon starts,
  stops and becomes confined.
\<close>

section \<open>Data\<close>

datatype backend = Ebpf ebpf_backend | Pcap pcap_backend

record 'db daemon_core =
  dc_config :: config
  dc_policy :: policy
  dc_correlator :: correlator
  dc_backend :: "backend option"
  dc_has_server :: bool
  dc_store :: "(string + 'db store_impl) option"
  dc_running :: bool
  dc_stop_requested :: bool
  dc_started_at :: int
  dc_events_seen :: u64
  dc_events_published :: u64
  dc_events_dropped :: u64
  dc_last_prune :: int

type_synonym 'db daemon = "'db daemon_core server"

definition daemon_core_init :: "config \<Rightarrow> 'db daemon_core" where
  "daemon_core_init c = \<lparr>dc_config = c, dc_policy = policy_engine_init, dc_correlator = correlator_init,
     dc_backend = None, dc_has_server = False, dc_store = None, dc_running = False, dc_stop_requested = False,
     dc_started_at = 0, dc_events_seen = 0, dc_events_published = 0, dc_events_dropped = 0, dc_last_prune = 0\<rparr>"

definition daemon_init :: "config \<Rightarrow> 'db daemon" where
  "daemon_init c = server_init (daemon_core_init c)"

text \<open>The libraries behind the daemon, and what \<^verbatim>\<open>send\<close> does to a message.\<close>

record 'db world =
  wo_parse :: "string \<Rightarrow> json option"
  wo_dump :: "json \<Rightarrow> string option"
  wo_sqlite :: "'db sqlite"
  wo_send_ok :: "int \<Rightarrow> string \<Rightarrow> bool"
  wo_euid :: u32
  wo_strerror :: "int \<Rightarrow> string"

abbreviation update_core :: "('db daemon_core \<Rightarrow> 'db daemon_core) \<Rightarrow> 'db daemon \<Rightarrow> 'db daemon" where
  "update_core f d \<equiv> d\<lparr>sv_daemon := f (sv_daemon d)\<rparr>"

section \<open>Choosing the interface\<close>

record ifaddr =
  if_name :: "string option"
  if_up :: bool
  if_loopback :: bool

text \<open>The four candidates of the loop: first one up, first one, each without and with loopback.\<close>

definition first_name :: "string \<Rightarrow> bool \<Rightarrow> string \<Rightarrow> string" where
  "first_name cur use name = (if cur = [] \<and> use then name else cur)"

fun scan_interfaces :: "ifaddr list \<Rightarrow> string \<times> string \<times> string \<times> string \<Rightarrow> string \<times> string \<times> string \<times> string" where
  "scan_interfaces [] acc = acc"
| "scan_interfaces (i # ifs) (nl_up, nl_any, lo_up, lo_any) =
     (case if_name i of
        None \<Rightarrow> scan_interfaces ifs (nl_up, nl_any, lo_up, lo_any)
      | Some n \<Rightarrow>
          if if_loopback i
          then scan_interfaces ifs (nl_up, nl_any, first_name lo_up (if_up i) n, first_name lo_any True n)
          else scan_interfaces ifs (first_name nl_up (if_up i) n, first_name nl_any True n, lo_up, lo_any))"

text \<open>\<^const>\<open>None\<close> is a failed \<^verbatim>\<open>getifaddrs\<close>.\<close>

definition default_interface :: "ifaddr list option \<Rightarrow> string" where
  "default_interface ifas =
     (case ifas of
        None \<Rightarrow> []
      | Some ifs \<Rightarrow>
          let (nl_up, nl_any, lo_up, lo_any) = scan_interfaces ifs ([], [], [], [])
          in if nl_up \<noteq> [] then nl_up else if nl_any \<noteq> [] then nl_any else if lo_up \<noteq> [] then lo_up else lo_any)"

definition is_blank :: "char \<Rightarrow> bool" where
  "is_blank c \<longleftrightarrow> c \<in> {CHR '' '', CHR 0x09, CHR 0x0D, CHR 0x0A}"

definition trim :: "string \<Rightarrow> string" where
  "trim s = (case first_idx (\<lambda>c. \<not> is_blank c) s of
     None \<Rightarrow> []
   | Some b \<Rightarrow> (case last_idx (\<lambda>c. \<not> is_blank c) s of None \<Rightarrow> [] | Some e \<Rightarrow> take (e - b + 1) (drop b s)))"

definition add_candidate :: "string \<Rightarrow> string list \<Rightarrow> string list" where
  "add_candidate iface cs = (if iface = [] \<or> iface \<in> set cs then cs else cs @ [iface])"

definition IFNAMSIZ :: nat where "IFNAMSIZ = 16"

definition candidate_interfaces :: "string option \<Rightarrow> string list \<Rightarrow> ifaddr list option \<Rightarrow> string list" where
  "candidate_interfaces env_iface configured ifas =
     (let cs = (case env_iface of
                  None \<Rightarrow> []
                | Some v \<Rightarrow> if trim v \<noteq> [] \<and> length (trim v) < IFNAMSIZ then add_candidate (trim v) [] else []);
          cs = (case configured of [] \<Rightarrow> cs | iface # _ \<Rightarrow> add_candidate iface cs);
          cs = add_candidate (default_interface ifas) cs
      in add_candidate ''any'' cs)"

section \<open>The pipeline\<close>

text \<open>
  The capture callback: \<open>now\<close> is the clock the correlator prunes by, \<open>junk\<close> the value of the
  uninitialised port.  The three branches after the policy are those of the source.
\<close>

definition server_config :: "'db world \<Rightarrow> (request \<Rightarrow> 'db daemon_core \<Rightarrow> (response \<times> 'db daemon_core) option) \<Rightarrow>
    'db daemon_core server_cfg" where
  "server_config w handler = \<lparr>sc_parse = wo_parse w, sc_dump = wo_dump w, sc_handler = handler,
     sc_send_ok = wo_send_ok w, sc_euid = wo_euid w\<rparr>"

definition publish_event :: "'db daemon_core server_cfg \<Rightarrow> event \<Rightarrow> 'db daemon \<Rightarrow> abnormal + 'db daemon" where
  "publish_event cfg e d = (if dc_has_server (sv_daemon d) then broadcast cfg e d else Inr d)"

definition persist_event :: "'db world \<Rightarrow> int \<Rightarrow> event \<Rightarrow> 'db daemon \<Rightarrow> abnormal + 'db daemon" where
  "persist_event w junk e d =
     (case dc_store (sv_daemon d) of
        None \<Rightarrow> Inr d
      | Some st \<Rightarrow>
          (case store_event (wo_dump w) junk e st of
             None \<Rightarrow> Inl Uncaught
           | Some (ok, st') \<Rightarrow>
               Inr (update_core (\<lambda>c. c\<lparr>dc_store := Some st',
                 dc_events_dropped := (if ok then dc_events_dropped c else dc_events_dropped c + 1)\<rparr>) d)))"

definition on_capture_event ::
  "'db world \<Rightarrow> 'db daemon_core server_cfg \<Rightarrow> time_point \<Rightarrow> int \<Rightarrow> event \<Rightarrow> 'db daemon \<Rightarrow> abnormal + 'db daemon" where
  "on_capture_event w cfg now junk e d =
     (let c = sv_daemon d;
          (correlated, correlator) = correlate now e (dc_correlator c);
          (decision, applied) = apply_policy (dc_policy c) correlated;
          d = d\<lparr>sv_daemon := c\<lparr>dc_events_seen := dc_events_seen c + 1, dc_correlator := correlator\<rparr>\<rparr>
      in if decision = Drop then Inr (update_core (\<lambda>c. c\<lparr>dc_events_dropped := dc_events_dropped c + 1\<rparr>) d)
         else res_bind (publish_event cfg applied d) (\<lambda>d.
              res_bind (persist_event w junk applied d) (\<lambda>d.
              Inr (update_core (\<lambda>c. c\<lparr>dc_events_published := dc_events_published c + 1\<rparr>) d))))"

section \<open>Status and requests\<close>

fun backend_name :: "backend \<Rightarrow> string" where
  "backend_name (Ebpf _) = ''ebpf''"
| "backend_name (Pcap _) = ''pcap''"

fun backend_running :: "backend \<Rightarrow> bool" where
  "backend_running (Ebpf b) = eb_running b"
| "backend_running (Pcap b) = pb_running b"

abbreviation junsigned :: "nat \<Rightarrow> json" where
  "junsigned n \<equiv> JUnsigned (of_nat n)"

definition status_json :: "int \<Rightarrow> 'db daemon_core \<Rightarrow> json" where
  "status_json now c =
     (let uptime = (if dc_started_at c = 0 then 0 else trunc_div (now - dc_started_at c) 1000000000);
          doc = assign ''state'' (JString (if dc_running c then ''running'' else ''stopped'')) JNull;
          doc = assign ''version'' (JString kVersionString) doc;
          doc = assign ''uptime_seconds'' (JInteger (word_of_int uptime)) doc;
          doc = assign ''metadata_only'' (JBool True) doc;
          doc = assign ''backends'' (JArray (case dc_backend c of
                  None \<Rightarrow> []
                | Some b \<Rightarrow> [assign ''active'' (JBool (backend_running b)) (assign ''name'' (JString (backend_name b)) JNull)])) doc;
          counters = assign ''events_dropped'' (JUnsigned (dc_events_dropped c))
            (assign ''events_published'' (JUnsigned (dc_events_published c))
              (assign ''events_seen'' (JUnsigned (dc_events_seen c)) JNull));
          doc = assign ''counters'' counters doc
      in assign ''storage'' (case dc_store c of
             None \<Rightarrow> obj_of [(''enabled'', JBool False)]
           | Some st \<Rightarrow> assign ''schema_version'' (JUnsigned (ucast (schema_version st)))
               (assign ''dropped'' (junsigned (dropped_count st))
                 (assign ''stored'' (junsigned (stored_count st)) (assign ''enabled'' (JBool True) JNull)))) doc)"

definition build_status_json :: "'db world \<Rightarrow> int \<Rightarrow> 'db daemon_core \<Rightarrow> string option" where
  "build_status_json w now c = wo_dump w (status_json now c)"

text \<open>Whether \<open>publish_status\<close> comes back.\<close>

definition publish_status :: "'db world \<Rightarrow> int \<Rightarrow> 'db daemon_core \<Rightarrow> bool" where
  "publish_status w now c = (dc_has_server c \<longrightarrow> build_status_json w now c \<noteq> None)"

definition reply :: "string option \<Rightarrow> response \<Rightarrow> 'c \<Rightarrow> (response \<times> 'c) option" where
  "reply result resp c = map_option (\<lambda>t. (resp\<lparr>rs_ok := True, rs_result_json := t\<rparr>, c)) result"

definition handle_set_policy :: "'db world \<Rightarrow> request \<Rightarrow> response \<Rightarrow> 'db daemon_core \<Rightarrow> (response \<times> 'db daemon_core) option" where
  "handle_set_policy w rq resp c =
     (case wo_parse w (rq_params_json rq) of
        None \<Rightarrow> Some (resp\<lparr>rs_error := ipc_err SchemaViolation ''set_policy params must be an object''\<rparr>, c)
      | Some params \<Rightarrow>
          if \<not> is_object params
          then Some (resp\<lparr>rs_error := ipc_err SchemaViolation ''set_policy params must be an object''\<rparr>, c)
          else case update_from_json (dc_policy c) params of
                 Inl e \<Rightarrow> Some (resp\<lparr>rs_error := ipc_err PolicyViolation e\<rparr>, c)
               | Inr po \<Rightarrow> reply (wo_dump w (policy_to_json po)) resp (c\<lparr>dc_policy := po\<rparr>))"

definition daemon_handle_request :: "'db world \<Rightarrow> int \<Rightarrow> request \<Rightarrow> 'db daemon_core \<Rightarrow> (response \<times> 'db daemon_core) option" where
  "daemon_handle_request w now rq c =
     (let resp = response_init\<lparr>rs_request_id := rq_request_id rq\<rparr>
      in case rq_operation rq of
           Hello \<Rightarrow> reply (wo_dump w (assign ''metadata_only'' (JBool True)
                      (assign ''protocol_version'' (JUnsigned (ucast kProtocolVersion))
                        (assign ''version'' (JString kVersionString) (assign ''daemon'' (JString ''ezcap'') JNull))))) resp c
         | GetStatus \<Rightarrow> reply (build_status_json w now c) resp c
         | Subscribe \<Rightarrow> reply (wo_dump w (assign ''subscription_id'' (JString (rq_request_id rq)) JNull)) resp c
         | Unsubscribe \<Rightarrow> reply (wo_dump w (assign ''removed'' (JBool True)
                            (assign ''subscription_id'' (JString (rq_request_id rq)) JNull))) resp c
         | GetPolicy \<Rightarrow> reply (wo_dump w (policy_to_json (dc_policy c))) resp c
         | SetPolicy \<Rightarrow> handle_set_policy w rq resp c
         | Shutdown \<Rightarrow> Some (resp\<lparr>rs_error := ipc_err OperationNotAllowed ''shutdown is not available over IPC''\<rparr>, c))"

definition daemon_cfg :: "'db world \<Rightarrow> int \<Rightarrow> 'db daemon_core server_cfg" where
  "daemon_cfg w now = server_config w (daemon_handle_request w now)"

section \<open>Start, stop and the main loop\<close>

definition backend_drop :: "backend option \<Rightarrow> unit option" where
  "backend_drop b = (case b of None \<Rightarrow> Some () | Some (Ebpf e) \<Rightarrow> ebpf_destroy (ebpf_stop e) | Some (Pcap p) \<Rightarrow> pcap_destroy (pcap_stop p))"

definition store_drop :: "'db world \<Rightarrow> (string + 'db store_impl) option \<Rightarrow> unit option" where
  "store_drop w st = (case st of Some (Inr s) \<Rightarrow> map_option (\<lambda>_. ()) (store_destroy (wo_sqlite w) s) | _ \<Rightarrow> Some ())"

text \<open>What a server that was destroyed leaves, and a new one starts with.\<close>

definition reset_server :: "'db daemon \<Rightarrow> 'db daemon" where
  "reset_server d = d\<lparr>sv_running := False, sv_listen := False, sv_accept_thread := False, sv_clients := [], sv_dropped := 0\<rparr>"

definition server_drop :: "'db daemon \<Rightarrow> 'db daemon option" where
  "server_drop d =
     (if \<not> dc_has_server (sv_daemon d) then Some d
      else let d = server_stop d
           in if sv_accept_thread d then None
              else Some (update_core (\<lambda>c. c\<lparr>dc_has_server := False\<rparr>) (reset_server d)))"

definition daemon_stop :: "'db world \<Rightarrow> 'db daemon \<Rightarrow> 'db daemon option" where
  "daemon_stop w d =
     (let c = sv_daemon d
      in if \<not> dc_running c \<and> \<not> dc_has_server c \<and> dc_backend c = None \<and> dc_store c = None then Some d
         else case server_drop (update_core (\<lambda>c. c\<lparr>dc_running := False\<rparr>) d) of
                None \<Rightarrow> None
              | Some d \<Rightarrow>
                  (case backend_drop (dc_backend c) of
                     None \<Rightarrow> None
                   | Some _ \<Rightarrow>
                       (case store_drop w (dc_store c) of
                          None \<Rightarrow> None
                        | Some _ \<Rightarrow> Some (update_core (\<lambda>c. c\<lparr>dc_backend := None, dc_store := None\<rparr>) d))))"

record daemon_env =
  de_now :: int
  de_spawn_ok :: bool
  de_ebpf :: ebpf_env
  de_env_iface :: "string option"
  de_ifas :: "ifaddr list option"
  de_pcap :: "string \<Rightarrow> pcap_env"
  de_server :: server_env

definition start_store :: "'db world \<Rightarrow> daemon_env \<Rightarrow> 'db daemon_core \<Rightarrow> 'db daemon_core option" where
  "start_store w env c =
     (if \<not> cf_storage_enabled (dc_config c) then Some c
      else map_option (\<lambda>_. c\<lparr>dc_store := Some (store_open (wo_sqlite w) (de_spawn_ok env) (cf_storage_path (dc_config c)))\<rparr>)
             (store_drop w (dc_store c)))"

fun try_pcap :: "(string \<Rightarrow> pcap_env) \<Rightarrow> string list \<Rightarrow> string \<Rightarrow> string + pcap_backend" where
  "try_pcap env [] e = Inl e"
| "try_pcap env (iface # ifs) e =
     (case pcap_start (env iface) pcap_backend_init of
        Some (b, Inr _) \<Rightarrow> Inr b
      | Some (b, Inl e') \<Rightarrow> try_pcap env ifs e'
      | None \<Rightarrow> Inl e)"

definition start_backend :: "'db world \<Rightarrow> daemon_env \<Rightarrow> config \<Rightarrow> string + backend" where
  "start_backend w env c =
     (let ebpf = (if cf_prefer_ebpf c then map_option (\<lambda>(b, r). map_sum id (\<lambda>_. b) r) (ebpf_start (wo_strerror w) (de_ebpf env) ebpf_backend_init)
                  else None)
      in case ebpf of
           Some (Inr b) \<Rightarrow> Inr (Ebpf b)
         | _ \<Rightarrow>
             let reason = (case ebpf of Some (Inl e) \<Rightarrow> e | _ \<Rightarrow> [])
             in if cf_pcap_fallback c
                then let candidates = candidate_interfaces (de_env_iface env) (cf_interfaces c) (de_ifas env)
                     in if candidates = [] then Inl ''no capture interface available''
                        else case try_pcap (de_pcap env) candidates reason of
                               Inl e \<Rightarrow> Inl (''pcap backend failed on all candidate interfaces: '' @ e)
                             | Inr b \<Rightarrow> Inr (Pcap b)
                else Inl (''no capture backend available'' @ (if reason = [] then [] else '' ('' @ reason @ '')'')))"

definition start_server :: "'db world \<Rightarrow> daemon_env \<Rightarrow> 'db daemon \<Rightarrow> ('db daemon \<times> (string + unit)) option" where
  "start_server w env d =
     (case server_start (cf_socket_path (dc_config (sv_daemon d))) (de_server env)
             (update_core (\<lambda>c. c\<lparr>dc_has_server := True\<rparr>) (reset_server d)) of
        None \<Rightarrow> None
      | Some (d, Inl e) \<Rightarrow> map_option (\<lambda>d. (d, Inl e)) (daemon_stop w d)
      | Some (d, Inr _) \<Rightarrow>
          let d = update_core (\<lambda>c. c\<lparr>dc_started_at := de_now env, dc_last_prune := de_now env, dc_running := True\<rparr>) d
          in if publish_status w (de_now env) (sv_daemon d) then Some (d, Inr ()) else None)"

definition daemon_start :: "'db world \<Rightarrow> daemon_env \<Rightarrow> 'db daemon \<Rightarrow> ('db daemon \<times> (string + unit)) option" where
  "daemon_start w env d =
     (if dc_running (sv_daemon d) then Some (d, Inr ())
      else case start_store w env (sv_daemon d) of
             None \<Rightarrow> None
           | Some c \<Rightarrow>
               (case start_backend w env (dc_config c) of
                  Inl e \<Rightarrow> Some (d\<lparr>sv_daemon := c\<rparr>, Inl e)
                | Inr b \<Rightarrow>
                    (case backend_drop (dc_backend c) of
                       None \<Rightarrow> None
                     | Some _ \<Rightarrow> start_server w env (d\<lparr>sv_daemon := c\<lparr>dc_backend := Some b\<rparr>\<rparr>))))"

text \<open>
  One round of the main loop after its sleep: \<open>now\<close> is the steady clock, \<open>wall\<close> the system clock.
\<close>

record run_state =
  ru_next_status :: int
  ru_next_prune :: int

definition kPruneInterval :: int where "kPruneInterval = 5 * 60 * 1000000000"

definition prune_store :: "'db world \<Rightarrow> int \<Rightarrow> 'db daemon_core \<Rightarrow> 'db daemon_core" where
  "prune_store w wall c =
     (case dc_store c of
        None \<Rightarrow> c
      | Some st \<Rightarrow> c\<lparr>dc_store := Some (snd (prune (wo_sqlite w) wall (cf_storage_retention (dc_config c)) st))\<rparr>)"

definition round_core :: "'db world \<Rightarrow> int \<Rightarrow> bool \<Rightarrow> 'db daemon \<Rightarrow> 'db daemon_core" where
  "round_core w wall pruned d =
     (let c = (if pruned then prune_store w wall (sv_daemon d) else sv_daemon d)
      in if dc_has_server c then c\<lparr>dc_events_dropped := sv_dropped d\<rparr> else c)"

definition run_round :: "'db world \<Rightarrow> int \<Rightarrow> int \<Rightarrow> run_state \<times> 'db daemon \<Rightarrow> (run_state \<times> 'db daemon) option" where
  "run_round w now wall = (\<lambda>(ru, d).
     let c = sv_daemon d;
         status = (ru_next_status ru \<le> now);
         ru1 = (if status then ru\<lparr>ru_next_status := now + cf_status_interval (dc_config c) * 1000000\<rparr> else ru);
         pruned = (dc_store c \<noteq> None \<and> ru_next_prune ru1 \<le> now);
         ru2 = (if pruned then ru1\<lparr>ru_next_prune := now + kPruneInterval\<rparr> else ru1)
     in if status \<and> \<not> publish_status w now c then None else Some (ru2, d\<lparr>sv_daemon := round_core w wall pruned d\<rparr>))"

text \<open>What happens to a running daemon between two tests of the loop condition: a signal, or a round.\<close>

datatype tick = TickSignal | TickRound int int

definition request_stop :: "'db daemon \<Rightarrow> 'db daemon" where
  "request_stop d = update_core (\<lambda>c. c\<lparr>dc_stop_requested := True\<rparr>) d"

text \<open>The flag says whether the loop has ended; without it the loop would go on after the given ticks.\<close>

fun run_loop :: "'db world \<Rightarrow> tick list \<Rightarrow> run_state \<times> 'db daemon \<Rightarrow> (bool \<times> 'db daemon) option" where
  "run_loop w ts (ru, d) =
     (if dc_stop_requested (sv_daemon d) \<or> \<not> dc_running (sv_daemon d)
      then map_option (Pair True) (daemon_stop w d)
      else case ts of
             [] \<Rightarrow> Some (False, d)
           | TickSignal # ts \<Rightarrow> run_loop w ts (ru, request_stop d)
           | TickRound now wall # ts \<Rightarrow>
               (case run_round w now wall (ru, d) of None \<Rightarrow> None | Some s \<Rightarrow> run_loop w ts s))"

definition daemon_run :: "'db world \<Rightarrow> int \<Rightarrow> tick list \<Rightarrow> 'db daemon \<Rightarrow> (bool \<times> 'db daemon) option" where
  "daemon_run w now ts d =
     run_loop w ts (\<lparr>ru_next_status = now + cf_status_interval (dc_config (sv_daemon d)) * 1000000,
       ru_next_prune = now + kPruneInterval\<rparr>, d)"

section \<open>The process\<close>

datatype main_args = Run string bool | Leave nat

fun parse_args :: "string list \<Rightarrow> string \<Rightarrow> bool \<Rightarrow> main_args" where
  "parse_args [] path check = Run path check"
| "parse_args [a] path check = (if a = ''--help'' \<or> a = ''-h'' then Leave 0 else Leave 2)"
| "parse_args (a # b # rest) path check =
     (if a = ''--config'' then parse_args rest b check
      else if a = ''--check-config'' then parse_args rest b True
      else if a = ''--help'' \<or> a = ''-h'' then Leave 0
      else Leave 2)"

datatype exit_status = Exit nat | Aborted

definition exit_after :: "nat \<Rightarrow> 'a option \<Rightarrow> exit_status" where
  "exit_after n r = (case r of None \<Rightarrow> Aborted | Some _ \<Rightarrow> Exit n)"

text \<open>
  \<^verbatim>\<open>main\<close> up to the main loop: an exit status, or the daemon and the process with which the loop is entered.
\<close>

definition main_prepare ::
  "'db world \<Rightarrow> daemon_env \<Rightarrow> caps_env \<Rightarrow> seccomp_env \<Rightarrow> (string \<Rightarrow> string option) \<Rightarrow> string list \<Rightarrow> process \<Rightarrow>
    exit_status + 'db daemon \<times> process" where
  "main_prepare w env cenv senv files args p =
     (case parse_args args ''/etc/ezcap/ezcap.conf.json'' False of
        Leave n \<Rightarrow> Inl (Exit n)
      | Run path check \<Rightarrow>
          (case config_load (wo_parse w) files path config_init of
             Inl (Rejected e) \<Rightarrow> Inl (Exit 2)
           | Inl Escapes \<Rightarrow> Inl Aborted
           | Inr config \<Rightarrow>
               if check then Inl (Exit 0)
               else if level_from_name (cf_log_level config) = None then Inl (Exit 2)
               else case daemon_start w env (daemon_init config) of
                      None \<Rightarrow> Inl Aborted
                    | Some (d, Inl e) \<Rightarrow> Inl (exit_after 1 (daemon_stop w d))
                    | Some (d, Inr _) \<Rightarrow>
                        (case drop_all cenv p of
                           (p, Inl e) \<Rightarrow> Inl (exit_after 1 (daemon_stop w d))
                         | (p, Inr _) \<Rightarrow>
                             (case sandbox_install senv p of
                                (p, Inl e) \<Rightarrow> Inl (exit_after 1 (daemon_stop w d))
                              | (p, Inr _) \<Rightarrow> Inr (d, p)))))"

definition daemon_main ::
  "'db world \<Rightarrow> daemon_env \<Rightarrow> caps_env \<Rightarrow> seccomp_env \<Rightarrow> (string \<Rightarrow> string option) \<Rightarrow> string list \<Rightarrow> process \<Rightarrow>
    tick list \<Rightarrow> exit_status option" where
  "daemon_main w env cenv senv files args p ts =
     (case main_prepare w env cenv senv files args p of
        Inl x \<Rightarrow> Some x
      | Inr (d, p) \<Rightarrow>
          (case daemon_run w (de_now env) ts d of
             None \<Rightarrow> Some Aborted
           | Some (ended, d) \<Rightarrow> if ended then Some (Exit 0) else None))"

section \<open>What leaves the daemon\<close>

text \<open>Everything that can happen to a daemon; an operation that ends the process changes nothing further.\<close>

datatype daemon_op =
    DmCapture time_point int event
  | DmAccept int "u32 option" bool
  | DmRecv int int string
  | DmNavigation navigation
  | DmProcesses "browser_process list"
  | DmWriter store_op
  | DmRound run_state int int
  | DmSignal
  | DmStart daemon_env
  | DmStop

definition writer_step :: "'db world \<Rightarrow> store_op \<Rightarrow> 'db daemon_core \<Rightarrow> 'db daemon_core" where
  "writer_step w op c =
     (case (dc_store c, op) of
        (Some (Inr s), OpTake) \<Rightarrow> c\<lparr>dc_store := Some (Inr (writer_take s))\<rparr>
      | (Some (Inr s), OpWrite) \<Rightarrow> c\<lparr>dc_store := Some (Inr (writer_write (wo_sqlite w) s))\<rparr>
      | _ \<Rightarrow> c)"

fun daemon_step :: "'db world \<Rightarrow> daemon_op \<Rightarrow> 'db daemon \<Rightarrow> 'db daemon" where
  "daemon_step w (DmCapture now junk e) d = settle d (on_capture_event w (daemon_cfg w now) now junk e d)"
| "daemon_step w (DmAccept fd peer thread_ok) d =
     (if dc_has_server (sv_daemon d) then accept_client (daemon_cfg w 0) fd peer thread_ok d else d)"
| "daemon_step w (DmRecv now fd chunk) d =
     (if dc_has_server (sv_daemon d) then settle d (client_round (daemon_cfg w now) fd chunk d) else d)"
| "daemon_step w (DmNavigation n) d = update_core (\<lambda>c. c\<lparr>dc_correlator := record_navigation n (dc_correlator c)\<rparr>) d"
| "daemon_step w (DmProcesses ps) d = update_core (\<lambda>c. c\<lparr>dc_correlator := set_browser_processes ps (dc_correlator c)\<rparr>) d"
| "daemon_step w (DmWriter op) d = update_core (writer_step w op) d"
| "daemon_step w (DmRound ru now wall) d = (case run_round w now wall (ru, d) of None \<Rightarrow> d | Some (_, d') \<Rightarrow> d')"
| "daemon_step w DmSignal d = request_stop d"
| "daemon_step w (DmStart env) d = (case daemon_start w env d of None \<Rightarrow> d | Some (d', _) \<Rightarrow> d')"
| "daemon_step w DmStop d = (case daemon_stop w d of None \<Rightarrow> d | Some d' \<Rightarrow> d')"

definition message_clean :: "'db world \<Rightarrow> string \<Rightarrow> bool" where
  "message_clean w m \<longleftrightarrow>
     (\<exists>e t. event_clean e \<and> encode_event (wo_dump w) e = Some t \<and> m = t @ [newline])
     \<or> (\<exists>resp t. encode_response (wo_parse w) (wo_dump w) resp = Some t \<and> m = t @ [newline])"

definition write_clean :: "'db world \<Rightarrow> pending_write \<Rightarrow> bool" where
  "write_clean w pw \<longleftrightarrow> (\<exists>e junk. event_clean e \<and> pending_of (wo_dump w) junk e = Some pw)"

definition store_writes :: "'db daemon_core \<Rightarrow> pending_write list" where
  "store_writes c = (case dc_store c of Some (Inr s) \<Rightarrow> st_queue s @ st_batch s | _ \<Rightarrow> [])"

definition core_clean :: "'db world \<Rightarrow> 'db daemon_core \<Rightarrow> bool" where
  "core_clean w c \<longleftrightarrow> policy_inv (dc_policy c) \<and> list_all (write_clean w) (store_writes c)"

abbreviation daemon_good :: "'db world \<Rightarrow> 'db daemon \<Rightarrow> bool" where
  "daemon_good w \<equiv> server_good (core_clean w) (message_clean w)"

lemma core_clean_cong: "dc_policy c' = dc_policy c \<Longrightarrow> dc_store c' = dc_store c \<Longrightarrow> core_clean w c' = core_clean w c"
  by (simp add: core_clean_def store_writes_def)

lemma good_core: "daemon_good w d \<Longrightarrow> core_clean w c \<Longrightarrow> daemon_good w (d\<lparr>sv_daemon := c\<rparr>)"
  by (simp add: server_good_def)

lemma good_update: "daemon_good w d \<Longrightarrow> dc_policy c = dc_policy (sv_daemon d) \<Longrightarrow> dc_store c = dc_store (sv_daemon d) \<Longrightarrow>
    daemon_good w (d\<lparr>sv_daemon := c\<rparr>)"
  using core_clean_cong [of c "sv_daemon d" w] by (simp add: server_good_def)

lemma good_coreD: "daemon_good w d \<Longrightarrow> core_clean w (sv_daemon d)"
  by (simp add: server_good_def)

lemma handle_request_clean:
  assumes "core_clean w c" "daemon_handle_request w now rq c = Some (resp, c')"
  shows "core_clean w c'"
proof -
  have "core_clean w (c\<lparr>dc_policy := po\<rparr>)" if "update_from_json (dc_policy c) doc = Inr po" for doc po
    using assms(1) update_keeps_inv [OF _ that] by (simp add: core_clean_def store_writes_def)
  then show ?thesis
    using assms by (auto simp: daemon_handle_request_def handle_set_policy_def reply_def Let_def
        split: operation.splits option.splits if_splits sum.splits)
qed

interpretation daemon_server: request_handler "daemon_cfg w now" "core_clean w" "message_clean w" for w now
proof
  show "core_clean w d \<Longrightarrow> sc_handler (daemon_cfg w now) rq d = Some (resp, d') \<Longrightarrow> core_clean w d'" for d rq resp d'
    using handle_request_clean by (simp add: daemon_cfg_def server_config_def)
  show "encode_response (sc_parse (daemon_cfg w now)) (sc_dump (daemon_cfg w now)) resp = Some t \<Longrightarrow>
      message_clean w (t @ [newline])" for resp t
    by (auto simp: daemon_cfg_def server_config_def message_clean_def)
qed

lemma store_event_clean:
  assumes "core_clean w c" "dc_store c = Some st" "event_clean e" "store_event (wo_dump w) junk e st = Some (ok, st')"
  shows "core_clean w (c\<lparr>dc_store := Some st'\<rparr>)"
proof (cases st)
  case (Inr s)
  have "write_clean w pw" if "pending_of (wo_dump w) junk e = Some pw" for pw
    using that assms(3) by (auto simp: write_clean_def)
  then show ?thesis
    using assms Inr by (auto simp: store_event_def enqueue_def core_clean_def store_writes_def split: if_splits)
qed (use assms in \<open>auto simp: store_event_def core_clean_def store_writes_def\<close>)

lemma persist_good:
  assumes "daemon_good w d" "event_clean e" "persist_event w junk e d = Inr d'"
  shows "daemon_good w d'"
proof (cases "dc_store (sv_daemon d)")
  case None
  then show ?thesis using assms by (simp add: persist_event_def)
next
  case (Some st)
  then obtain ok st' where st': "store_event (wo_dump w) junk e st = Some (ok, st')"
      and d': "d' = update_core (\<lambda>c. c\<lparr>dc_store := Some st',
        dc_events_dropped := (if ok then dc_events_dropped c else dc_events_dropped c + 1)\<rparr>) d"
    using assms(3) by (auto simp: persist_event_def split: option.splits)
  have "core_clean w ((sv_daemon d)\<lparr>dc_store := Some st'\<rparr>)"
    by (rule store_event_clean [OF good_coreD [OF assms(1)] Some assms(2) st'])
  then show ?thesis unfolding d' by (intro good_core [OF assms(1)]) (simp add: core_clean_def store_writes_def)
qed

lemma publish_good:
  assumes "daemon_good w d" "event_clean e" "publish_event (daemon_cfg w now) e d = Inr d'"
  shows "daemon_good w d'"
proof (cases "dc_has_server (sv_daemon d)")
  case True
  then have "broadcast (daemon_cfg w now) e d = Inr d'" using assms(3) by (simp add: publish_event_def)
  moreover have "message_clean w (t @ [newline])" if "encode_event (sc_dump (daemon_cfg w now)) e = Some t" for t
    using that assms(2) by (auto simp: message_clean_def daemon_cfg_def server_config_def)
  ultimately show ?thesis by (rule daemon_server.broadcast_good [OF assms(1), rotated])
qed (use assms in \<open>simp add: publish_event_def\<close>)

lemma capture_good:
  assumes "daemon_good w d" "on_capture_event w (daemon_cfg w now) clock junk e d = Inr d'"
  shows "daemon_good w d'"
proof -
  let ?c = "sv_daemon d"
  obtain ec co where c: "correlate clock e (dc_correlator ?c) = (ec, co)" by fastforce
  obtain dec e' where a: "apply_policy (dc_policy ?c) ec = (dec, e')" by fastforce
  define d1 where "d1 = d\<lparr>sv_daemon := ?c\<lparr>dc_events_seen := dc_events_seen ?c + 1, dc_correlator := co\<rparr>\<rparr>"
  have g1: "daemon_good w d1" unfolding d1_def by (rule good_update [OF assms(1)]) simp_all
  show ?thesis
  proof (cases "dec = Drop")
    case True
    then show ?thesis
      using assms(2) c a by (auto simp: on_capture_event_def Let_def intro!: good_update [OF assms(1)])
  next
    case False
    have clean: "event_clean e'"
      using good_coreD [OF assms(1)] a False by (auto simp: core_clean_def intro: apply_policy_clean)
    obtain d2 d3 where p: "publish_event (daemon_cfg w now) e' d1 = Inr d2" "persist_event w junk e' d2 = Inr d3"
        and d': "d' = update_core (\<lambda>c. c\<lparr>dc_events_published := dc_events_published c + 1\<rparr>) d3"
      using assms(2) c a False by (auto simp: on_capture_event_def Let_def d1_def [symmetric] res_simps)
    have "daemon_good w d3" by (rule persist_good [OF publish_good [OF g1 clean p(1)] clean p(2)])
    then show ?thesis unfolding d' by (rule good_update) simp_all
  qed
qed

lemma writer_good: "daemon_good w d \<Longrightarrow> daemon_good w (update_core (writer_step w op) d)"
proof (rule good_core)
  assume "daemon_good w d"
  then show "core_clean w (writer_step w op (sv_daemon d))"
    using good_coreD [of w d]
    by (auto simp: writer_step_def core_clean_def store_writes_def writer_take_def writer_write_def Let_def
        split: option.splits sum.splits store_op.splits prod.splits)
qed

lemma prune_store_clean: "core_clean w c \<Longrightarrow> core_clean w (prune_store w wall c)"
  by (auto simp: prune_store_def core_clean_def store_writes_def prune_def Let_def split: option.splits sum.splits prod.splits)

lemma round_good:
  assumes "daemon_good w d" "run_round w now wall (ru, d) = Some (ru', d')"
  shows "daemon_good w d'"
proof -
  obtain b where d': "d' = d\<lparr>sv_daemon := round_core w wall b d\<rparr>"
    using assms(2) by (auto simp: run_round_def Let_def split: if_splits)
  have "core_clean w (round_core w wall b d)"
    using prune_store_clean [OF good_coreD [OF assms(1)], of wall] good_coreD [OF assms(1)]
    by (auto simp: round_core_def Let_def core_clean_def store_writes_def)
  then show ?thesis unfolding d' by (rule good_core [OF assms(1)])
qed

lemma reset_good: "daemon_good w d \<Longrightarrow> daemon_good w (reset_server d)" "daemon_good w d \<Longrightarrow> daemon_good w (server_stop d)"
  by (simp_all add: server_good_def reset_server_def server_stop_def)

lemma server_drop_good:
  assumes "daemon_good w d" "server_drop d = Some d'"
  shows "daemon_good w d'"
proof (cases "dc_has_server (sv_daemon d)")
  case True
  then have d': "d' = update_core (\<lambda>c. c\<lparr>dc_has_server := False\<rparr>) (reset_server (server_stop d))"
    using assms(2) by (simp add: server_drop_def Let_def split: if_splits)
  show ?thesis unfolding d' by (rule good_update) (simp_all add: reset_good assms(1))
qed (use assms in \<open>simp add: server_drop_def\<close>)

lemma stop_good:
  assumes "daemon_good w d" "daemon_stop w d = Some d'"
  shows "daemon_good w d'"
proof (cases "d' = d")
  case False
  then obtain d1 where d1: "server_drop (update_core (\<lambda>c. c\<lparr>dc_running := False\<rparr>) d) = Some d1"
      and d': "d' = update_core (\<lambda>c. c\<lparr>dc_backend := None, dc_store := None\<rparr>) d1"
    using assms(2) by (auto simp: daemon_stop_def Let_def split: if_splits option.splits)
  have "daemon_good w (update_core (\<lambda>c. c\<lparr>dc_running := False\<rparr>) d)" by (rule good_update [OF assms(1)]) simp_all
  then have g: "daemon_good w d1" using d1 by (rule server_drop_good)
  show ?thesis
    unfolding d' using good_coreD [OF g] by (intro good_core [OF g]) (simp add: core_clean_def store_writes_def)
qed (use assms in simp)

lemma start_store_clean:
  assumes "core_clean w c" "start_store w env c = Some c'"
  shows "core_clean w c'"
proof -
  have "store_open (wo_sqlite w) b path = Inr s \<Longrightarrow> st_queue s = [] \<and> st_batch s = []" for b path s
    by (auto simp: store_open_def split: sum.splits prod.splits option.splits if_splits)
  then show ?thesis
    using assms by (auto simp: start_store_def core_clean_def store_writes_def split: if_splits option.splits sum.splits)
qed

lemma server_start_good: "daemon_good w d \<Longrightarrow> server_start path env d = Some (d', r) \<Longrightarrow> daemon_good w d'"
  by (auto simp: server_start_def server_good_def split: if_splits sum.splits)

lemma start_server_good:
  assumes "daemon_good w d" "start_server w env d = Some (d', r)"
  shows "daemon_good w d'"
proof -
  have g: "daemon_good w (update_core (\<lambda>c. c\<lparr>dc_has_server := True\<rparr>) (reset_server d))"
    by (rule good_update) (simp_all add: reset_good assms(1))
  obtain d1 r1 where d1: "server_start (cf_socket_path (dc_config (sv_daemon d))) (de_server env)
      (update_core (\<lambda>c. c\<lparr>dc_has_server := True\<rparr>) (reset_server d)) = Some (d1, r1)"
    using assms(2) by (auto simp: start_server_def split: option.splits)
  note g1 = server_start_good [OF g d1]
  show ?thesis
  proof (cases r1)
    case (Inl e)
    then have "daemon_stop w d1 = Some d'" using assms(2) d1 by (auto simp: start_server_def)
    then show ?thesis by (rule stop_good [OF g1])
  next
    case (Inr u)
    then have "d' = update_core (\<lambda>c. c\<lparr>dc_started_at := de_now env, dc_last_prune := de_now env, dc_running := True\<rparr>) d1"
      using assms(2) d1 by (auto simp: start_server_def Let_def split: if_splits)
    then show ?thesis using good_update [OF g1] by auto
  qed
qed

lemma start_good:
  assumes "daemon_good w d" "daemon_start w env d = Some (d', r)"
  shows "daemon_good w d'"
proof (cases "dc_running (sv_daemon d)")
  case False
  then obtain c where c: "start_store w env (sv_daemon d) = Some c"
    using assms(2) by (auto simp: daemon_start_def split: option.splits)
  note clean = start_store_clean [OF good_coreD [OF assms(1)] c]
  show ?thesis
  proof (cases "start_backend w env (dc_config c)")
    case (Inl e)
    then show ?thesis using assms c False good_core [OF assms(1) clean] by (auto simp: daemon_start_def)
  next
    case (Inr b)
    then have "start_server w env (d\<lparr>sv_daemon := c\<lparr>dc_backend := Some b\<rparr>\<rparr>) = Some (d', r)"
      using assms(2) c False by (auto simp: daemon_start_def split: option.splits)
    moreover have "daemon_good w (d\<lparr>sv_daemon := c\<lparr>dc_backend := Some b\<rparr>\<rparr>)"
      using clean by (intro good_core [OF assms(1)]) (simp add: core_clean_def store_writes_def)
    ultimately show ?thesis using start_server_good by blast
  qed
qed (use assms in \<open>simp add: daemon_start_def\<close>)

interpretation daemon_steps: step_invariant "daemon_step w" "daemon_good w" for w
proof
  fix d op assume g: "daemon_good w d"
  show "daemon_good w (daemon_step w op d)"
  proof (cases op)
    case (DmCapture now junk e)
    then show ?thesis using g capture_good [OF g] by (auto simp: settle_def split: sum.splits)
  next
    case (DmRecv now fd chunk)
    then show ?thesis using g daemon_server.client_round_good [OF g] by (auto simp: settle_def split: sum.splits)
  next
    case (DmWriter sop)
    then show ?thesis using writer_good [OF g] by simp
  next
    case (DmRound ru now wall)
    then show ?thesis using g round_good [OF g] by (auto split: option.splits)
  next
    case (DmStart env)
    then show ?thesis using g start_good [OF g] by (auto split: option.splits)
  next
    case DmStop
    then show ?thesis using g stop_good [OF g] by (auto split: option.splits)
  qed (use g accept_good [OF g] good_update [OF g] in \<open>auto simp: request_stop_def\<close>)
qed

lemma daemon_init_good: "daemon_good w (daemon_init c)"
  by (simp add: server_good_def daemon_init_def server_init_def daemon_core_init_def core_clean_def
      store_writes_def policy_engine_init_inv)

text \<open>
  C1: nothing but redacted metadata leaves the daemon.  After every sequence of captured events, client messages,
  policy updates, navigations, writer steps, main-loop rounds, starts and stops, each message handed to a socket is an
  answer to a request or an encoded event without query and fragment and marked metadata-only, and each write on its way
  to the store was made from such an event.
\<close>

theorem daemon_output_clean:
  "let d = fold (daemon_step w) ops (daemon_init c)
   in list_all (message_clean w \<circ> snd) (sv_sent d) \<and> list_all (write_clean w) (store_writes (sv_daemon d))"
  using daemon_steps.run_keeps [OF daemon_init_good, of w ops c] by (simp add: server_good_def core_clean_def Let_def)

section \<open>Requests\<close>

lemma handle_request_changes:
  assumes "daemon_handle_request w now rq c = Some (resp, c')"
  shows "c' = c \<or> (rq_operation rq = SetPolicy \<and> rs_ok resp \<and> c' = c\<lparr>dc_policy := dc_policy c'\<rparr>
      \<and> (\<exists>doc. wo_parse w (rq_params_json rq) = Some doc \<and> update_from_json (dc_policy c) doc = Inr (dc_policy c')))"
  using assms by (auto simp: daemon_handle_request_def handle_set_policy_def reply_def Let_def
      split: operation.splits option.splits if_splits sum.splits)

lemma handle_request_shutdown:
  "rq_operation rq = Shutdown \<Longrightarrow> \<exists>resp. daemon_handle_request w now rq c = Some (resp, c) \<and> \<not> rs_ok resp"
  by (simp add: daemon_handle_request_def Let_def response_init_def)

section \<open>Interfaces\<close>

text \<open>The name of the first interface with a property, empty when there is none.\<close>

fun first_interface :: "(ifaddr \<Rightarrow> bool) \<Rightarrow> ifaddr list \<Rightarrow> string" where
  "first_interface P [] = []"
| "first_interface P (i # ifs) =
     (case if_name i of None \<Rightarrow> first_interface P ifs | Some n \<Rightarrow> if P i \<and> n \<noteq> [] then n else first_interface P ifs)"

definition or_else :: "string \<Rightarrow> string \<Rightarrow> string" where
  "or_else a b = (if a = [] then b else a)"

lemma scan_interfaces_first:
  "scan_interfaces ifs (a, b, c, e) =
     (or_else a (first_interface (\<lambda>i. \<not> if_loopback i \<and> if_up i) ifs), or_else b (first_interface (\<lambda>i. \<not> if_loopback i) ifs),
      or_else c (first_interface (\<lambda>i. if_loopback i \<and> if_up i) ifs), or_else e (first_interface if_loopback ifs))"
proof (induction ifs arbitrary: a b c e)
  case (Cons i ifs)
  show ?case
    by (cases "if_name i"; cases "if_loopback i"; cases "if_up i"; simp add: Cons first_name_def or_else_def)
qed (simp add: or_else_def)

lemma default_interface_prefers:
  "default_interface (Some ifs) =
     or_else (first_interface (\<lambda>i. \<not> if_loopback i \<and> if_up i) ifs) (or_else (first_interface (\<lambda>i. \<not> if_loopback i) ifs)
       (or_else (first_interface (\<lambda>i. if_loopback i \<and> if_up i) ifs) (first_interface if_loopback ifs)))"
  by (simp add: default_interface_def scan_interfaces_first or_else_def)

lemma candidates_spec:
  "distinct (candidate_interfaces env_iface configured ifas)"
  "''any'' \<in> set (candidate_interfaces env_iface configured ifas)"
  "[] \<notin> set (candidate_interfaces env_iface configured ifas)"
  by (auto simp: candidate_interfaces_def add_candidate_def Let_def split: option.splits list.splits)

section \<open>Life cycle\<close>

text \<open>A daemon whose parts are in step: no server object that was left behind, no backend whose loop gave up.\<close>

definition daemon_wf :: "'db daemon \<Rightarrow> bool" where
  "daemon_wf d \<longleftrightarrow> (if dc_has_server (sv_daemon d) then sv_accept_thread d = sv_running d else server_idle d)
     \<and> backend_drop (dc_backend (sv_daemon d)) = Some ()"

definition daemon_stopped :: "'db daemon \<Rightarrow> bool" where
  "daemon_stopped d \<longleftrightarrow> \<not> dc_running (sv_daemon d) \<and> \<not> dc_has_server (sv_daemon d) \<and> dc_backend (sv_daemon d) = None
     \<and> dc_store (sv_daemon d) = None \<and> server_idle d"

lemma store_drop_returns: "unique_ids (wo_sqlite w) has \<Longrightarrow> store_drop w st = Some ()"
  using destroy_returns by (fastforce simp: store_drop_def split: option.splits sum.splits)

lemma daemon_stop_returns:
  assumes "unique_ids (wo_sqlite w) has" "daemon_wf d"
  shows "\<exists>d'. daemon_stop w d = Some d' \<and> daemon_stopped d'"
  using assms(2) store_drop_returns [OF assms(1)]
  by (auto simp: daemon_stop_def Let_def daemon_wf_def daemon_stopped_def server_drop_def server_idle_def
      reset_server_def server_stop_def)

lemma daemon_stop_stopped: "daemon_stopped d \<Longrightarrow> daemon_stop w d = Some d"
  by (simp add: daemon_stop_def daemon_stopped_def Let_def)

lemma round_core_keeps:
  "dc_running (round_core w wall b d) = dc_running (sv_daemon d)"
  "dc_stop_requested (round_core w wall b d) = dc_stop_requested (sv_daemon d)"
  "dc_has_server (round_core w wall b d) = dc_has_server (sv_daemon d)"
  "dc_backend (round_core w wall b d) = dc_backend (sv_daemon d)"
  by (simp_all add: round_core_def prune_store_def Let_def split: option.splits)

lemma run_round_returns:
  assumes "\<forall>j. wo_dump w j \<noteq> None" "daemon_wf d"
  shows "\<exists>ru' d'. run_round w now wall (ru, d) = Some (ru', d') \<and> daemon_wf d'"
  using assms by (auto simp: run_round_def Let_def publish_status_def build_status_json_def daemon_wf_def server_idle_def
      round_core_keeps)

lemma run_loop_stops:
  assumes "unique_ids (wo_sqlite w) has" "\<forall>j. wo_dump w j \<noteq> None"
  shows "daemon_wf d \<Longrightarrow> TickSignal \<in> set ts \<or> dc_stop_requested (sv_daemon d) \<or> \<not> dc_running (sv_daemon d) \<Longrightarrow>
    \<exists>d'. run_loop w ts (ru, d) = Some (True, d') \<and> daemon_stopped d'"
proof (induction ts arbitrary: ru d)
  case Nil
  then show ?case using daemon_stop_returns [OF assms(1) Nil(1)] by auto
next
  case (Cons t ts)
  show ?case
  proof (cases "dc_stop_requested (sv_daemon d) \<or> \<not> dc_running (sv_daemon d)")
    case True
    then show ?thesis using daemon_stop_returns [OF assms(1) Cons.prems(1)] by auto
  next
    case go: False
    show ?thesis
    proof (cases t)
      case TickSignal
      have "daemon_wf (request_stop d)" using Cons.prems(1) by (auto simp: daemon_wf_def request_stop_def server_idle_def split: if_splits)
      from Cons.IH [OF this] go TickSignal show ?thesis by (simp add: request_stop_def)
    next
      case (TickRound now wall)
      obtain ru' d' where r: "run_round w now wall (ru, d) = Some (ru', d')" "daemon_wf d'"
        using run_round_returns [OF assms(2) Cons.prems(1)] by blast
      have "TickSignal \<in> set ts" using Cons.prems(2) go TickRound by auto
      with Cons.IH [OF r(2)] r(1) go TickRound show ?thesis by simp
    qed
  qed
qed

lemma try_pcap_running: "try_pcap env ifs e = Inr b \<Longrightarrow> pb_running b"
proof (induction env ifs e rule: try_pcap.induct)
  case (2 env iface ifs e)
  have "pcap_idle pcap_backend_init" by (simp add: pcap_idle_def pcap_backend_init_def)
  from pcap.start_idle [OF this, of "env iface"] obtain b' r where
    s: "pcap_start (env iface) pcap_backend_init = Some (b', r)" "is_ok r \<Longrightarrow> pb_running b'" by auto
  show ?case using 2 s by (cases r) simp_all
qed simp

lemma start_backend_running: "start_backend w env c = Inr b \<Longrightarrow> backend_running b"
proof -
  assume b: "start_backend w env c = Inr b"
  have "ebpf_idle ebpf_backend_init" by (simp add: ebpf_idle_def ebpf_backend_init_def)
  from ebpf.start_idle [OF this, of "wo_strerror w" "de_ebpf env"] obtain b' r where
    s: "ebpf_start (wo_strerror w) (de_ebpf env) ebpf_backend_init = Some (b', r)" "is_ok r \<Longrightarrow> eb_running b'" by auto
  from b s show "backend_running b"
    by (cases r) (auto simp: start_backend_def Let_def dest: try_pcap_running split: if_splits sum.splits)
qed

lemma backend_drop_running: "backend_running b \<Longrightarrow> backend_drop (Some b) = Some ()"
  by (cases b) (simp_all add: backend_drop_def ebpf_destroy_def ebpf_stop_def pcap_destroy_def pcap_stop_def)

lemma start_store_keeps: "start_store w env c = Some c' \<Longrightarrow> dc_config c' = dc_config c \<and> dc_policy c' = dc_policy c \<and> dc_backend c' = dc_backend c"
  by (auto simp: start_store_def split: if_splits)

definition daemon_started :: "config \<Rightarrow> 'db daemon \<Rightarrow> bool" where
  "daemon_started c d \<longleftrightarrow> dc_config (sv_daemon d) = c \<and> dc_policy (sv_daemon d) = policy_engine_init
     \<and> dc_running (sv_daemon d) \<and> dc_has_server (sv_daemon d) \<and> sv_running d \<and> sv_accept_thread d
     \<and> (\<exists>b. dc_backend (sv_daemon d) = Some b \<and> backend_running b)"

lemma daemon_start_started:
  assumes "daemon_start w env (daemon_init c) = Some (d, Inr ())"
  shows "daemon_started c d"
proof -
  let ?i = "daemon_core_init c"
  have init: "sv_daemon (daemon_init c) = ?i" "dc_running ?i = False" "dc_config ?i = c"
      "dc_policy ?i = policy_engine_init" "dc_backend ?i = None"
    by (simp_all add: daemon_init_def server_init_def daemon_core_init_def)
  note start = assms [unfolded daemon_start_def init(1,2) if_False]
  obtain c1 where c1: "start_store w env ?i = Some c1"
    using start by (auto split: option.splits)
  note keep = start_store_keeps [OF c1, unfolded init]
  obtain b where b: "start_backend w env c = Inr b"
      "start_server w env ((daemon_init c)\<lparr>sv_daemon := c1\<lparr>dc_backend := Some b\<rparr>\<rparr>) = Some (d, Inr ())"
    using start c1 keep by (auto simp: backend_drop_def split: sum.splits)
  from b(2) keep start_backend_running [OF b(1)] show ?thesis
    by (auto simp: start_server_def server_start_def reset_server_def daemon_started_def Let_def
        split: if_splits sum.splits option.splits)
qed

lemma daemon_started_wf: "daemon_started c d \<Longrightarrow> daemon_wf d"
  by (auto simp: daemon_started_def daemon_wf_def backend_drop_running)



text \<open>A machine on which everything works, with an empty configuration file and no storage.\<close>

definition sample_world :: "string list world" where
  "sample_world = \<lparr>wo_parse = (\<lambda>_. Some (JObject [])), wo_dump = (\<lambda>_. Some []), wo_sqlite = list_sqlite,
     wo_send_ok = (\<lambda>_ _. True), wo_euid = 0, wo_strerror = (\<lambda>_. [])\<rparr>"

definition sample_env :: daemon_env where
  "sample_env = \<lparr>de_now = 1, de_spawn_ok = True,
     de_ebpf = \<lparr>ee_btf = True, ee_object_path = ''o'', ee_open_null = False, ee_open_error = 0, ee_load = 0, ee_attach = [],
       ee_events_map = True, ee_ringbuf = True\<rparr>,
     de_env_iface = None, de_ifas = None,
     de_pcap = (\<lambda>_. \<lparr>pe_create = False, pe_set_snaplen = 0, pe_set_promisc = 0, pe_set_timeout = 0, pe_activate = 0,
       pe_compile = 0, pe_setfilter = 0\<rparr>),
     de_server = \<lparr>ve_dir = LDir, ve_mkdir = MkOk, ve_dir_after = LDir, ve_path = LMissing, ve_unlink_ok = True,
       ve_socket_ok = True, ve_bind = None, ve_listen_ok = True\<rparr>\<rparr>"

lemma sample_start: "\<exists>d. daemon_start sample_world sample_env (daemon_init config_init) = Some (d, Inr ())"
  by (simp add: daemon_start_def daemon_init_def server_init_def daemon_core_init_def start_store_def start_backend_def
      start_server_def server_start_def bind_socket_def ensure_default_socket_directory_def remove_stale_socket_def guard_def
      reset_server_def backend_drop_def ebpf_start_def host_supported_def ebpf_backend_init_def publish_status_def
      build_status_json_def sample_env_def sample_world_def config_init_def kDefaultSocketPath_def Let_def)


definition sample_caps :: caps_env where
  "sample_caps = \<lparr>ce_get_proc = True, ce_init = True, ce_from_name = (\<lambda>_. True), ce_set_flag = (\<lambda>_. True),
     ce_securebits = None, ce_set_proc = True, ce_ambient = None\<rparr>"

definition sample_seccomp :: seccomp_env where
  "sample_seccomp = \<lparr>se_init = True, se_rule_add = (\<lambda>_. True), se_load = True\<rparr>"

definition sample_process :: process where
  "sample_process = \<lparr>pr_permitted = {''cap_net_raw''}, pr_effective = {''cap_net_raw''}, pr_inheritable = {},
     pr_ambient = {}, pr_noroot = False, pr_filter = None\<rparr>"


text \<open>
  An enabled store that cannot be opened does not keep the daemon from starting: the pointer to the store is set either way, and
  the status reports storage as enabled.
\<close>

lemma failed_store_starts:
  assumes "cf_storage_enabled c" "store_open (wo_sqlite w) (de_spawn_ok env) (cf_storage_path c) = Inl e"
  shows "\<exists>core. start_store w env (daemon_core_init c) = Some core \<and> dc_store core = Some (Inl e)
    \<and> (\<exists>st. member (status_json now core) ''storage'' = Some st \<and> member st ''enabled'' = Some (JBool True))
    \<and> store_event (wo_dump w) junk ev (Inl e) = Some (False, Inl e)"
  using assms by (simp add: start_store_def daemon_core_init_def store_drop_def status_json_def Let_def store_event_def del: assign.simps)

end
