(* ===== verification/Ez_Manifest.thy ===== *)
theory Ez_Manifest
  imports Ez_Sha256 Ez_Policy
begin

text \<open>
  \<^verbatim>\<open>src/drivers/lua/manifests\<close>: the manifest of a driver script, its validation, the integrity pin and the
  allowlist of directories.

  The lemmas show which versions and names pass, the bounds every accepted manifest keeps, and that
  an allowlisted path is a directory of the list or lies below one.
\<close>

section \<open>Capabilities\<close>

datatype capability =
    Events | Capture | Dns_cap | Process | Policy | Endpoint | Spec | Log | Util | Status

fun capability_name :: "capability \<Rightarrow> string" where
  "capability_name Events = ''events''"
| "capability_name Capture = ''capture''"
| "capability_name Dns_cap = ''dns''"
| "capability_name Process = ''process''"
| "capability_name Policy = ''policy''"
| "capability_name Endpoint = ''endpoint''"
| "capability_name Spec = ''spec''"
| "capability_name Log = ''log''"
| "capability_name Util = ''util''"
| "capability_name Status = ''status''"

definition capability_from_name :: "string \<Rightarrow> capability option" where
  "capability_from_name name =
     (if name = ''events'' then Some Events
      else if name = ''capture'' then Some Capture
      else if name = ''dns'' then Some Dns_cap
      else if name = ''process'' then Some Process
      else if name = ''policy'' then Some Policy
      else if name = ''endpoint'' then Some Endpoint
      else if name = ''spec'' then Some Spec
      else if name = ''log'' then Some Log
      else if name = ''util'' then Some Util
      else if name = ''status'' then Some Status
      else None)"

interpretation capabilities: exact_wire_names capability_name capability_from_name
proof
  fix e show "capability_from_name (capability_name e) = Some e"
    by (cases e) (simp_all add: capability_from_name_def)
next
  fix s e show "capability_from_name s = Some e \<Longrightarrow> s = capability_name e"
    by (auto simp: capability_from_name_def split: if_splits)
qed

section \<open>Fields\<close>

definition valid_name :: "string \<Rightarrow> bool" where
  "valid_name name \<longleftrightarrow> name \<noteq> [] \<and> length name \<le> 64 \<and> list_all (\<lambda>c. is_alnum c \<or> c = CHR ''-'') name"

text \<open>
  The loop over a version, \<open>limit\<close> the number of dots it admits.  Only whether the current component is empty
  matters of it.
\<close>

fun version_loop :: "nat \<Rightarrow> string \<Rightarrow> nat \<Rightarrow> string \<Rightarrow> bool" where
  "version_loop limit [] components current \<longleftrightarrow> 1 \<le> components \<and> current \<noteq> []"
| "version_loop limit (c # cs) components current \<longleftrightarrow>
     (if c = CHR ''.'' then (if current = [] \<or> limit \<le> components then False else version_loop limit cs (components + 1) [])
      else if is_digit c then version_loop limit cs components (current @ [c])
      else False)"

definition valid_manifest_version :: "string \<Rightarrow> bool" where
  "valid_manifest_version version = version_loop 3 version 0 []"

definition valid_sha256_hex :: "string \<Rightarrow> bool" where
  "valid_sha256_hex hash \<longleftrightarrow> length hash = 64 \<and> list_all is_lower_hex hash"

definition kMaxManifestFieldLength :: nat where "kMaxManifestFieldLength = 512"
definition kMaxManifestEventTypes :: nat where "kMaxManifestEventTypes = 16"

record manifest =
  mf_name :: string
  mf_version :: string
  mf_script_path :: string
  mf_description :: string
  mf_capabilities :: "capability set"
  mf_event_types :: "string list"
  mf_max_endpoints :: u32
  mf_max_subscriptions :: u32
  mf_script_sha256 :: string

definition manifest_init :: manifest where
  "manifest_init = \<lparr>mf_name = [], mf_version = [], mf_script_path = [], mf_description = [], mf_capabilities = {},
     mf_event_types = [], mf_max_endpoints = 8, mf_max_subscriptions = 16, mf_script_sha256 = []\<rparr>"

text \<open>An optional bounded text: absent leaves the default.\<close>

definition manifest_string :: "json \<Rightarrow> string \<Rightarrow> string \<Rightarrow> string + string" where
  "manifest_string doc key dflt =
     (case member doc key of
        None \<Rightarrow> Inr dflt
      | Some v \<Rightarrow>
          if \<not> is_string v then Inl (key @ '' must be a string'')
          else if kMaxManifestFieldLength < length (get_string v) then Inl (key @ '' exceeds maximum length'')
          else Inr (get_string v))"

text \<open>A required text with its check.\<close>

definition required_string :: "json \<Rightarrow> string \<Rightarrow> string \<Rightarrow> (string \<Rightarrow> bool) \<Rightarrow> string \<Rightarrow> string + string" where
  "required_string doc key missing ok invalid =
     (case member doc key of
        None \<Rightarrow> Inl missing
      | Some v \<Rightarrow> if \<not> is_string v then Inl missing
                   else if \<not> ok (get_string v) then Inl invalid
                   else Inr (get_string v))"

fun capability_entries :: "json list \<Rightarrow> capability set \<Rightarrow> string + capability set" where
  "capability_entries [] caps = Inr caps"
| "capability_entries (d # ds) caps =
     (if \<not> is_string d then Inl ''manifest.capabilities entries must be strings''
      else case capability_from_name (get_string d) of
             None \<Rightarrow> Inl (''manifest.capabilities contains unknown capability '' @ [CHR 0x27] @ get_string d @ [CHR 0x27])
           | Some c \<Rightarrow> capability_entries ds (insert c caps))"

definition load_capabilities :: "json \<Rightarrow> manifest \<Rightarrow> string + manifest" where
  "load_capabilities v m =
     (if \<not> is_array v then Inl ''manifest.capabilities must be an array''
      else if 16 < jsize v then Inl ''manifest.capabilities has too many entries''
      else res_bind (capability_entries (elems v) (mf_capabilities m)) (\<lambda>cs. Inr (m\<lparr>mf_capabilities := cs\<rparr>)))"

fun type_entries :: "json list \<Rightarrow> string + string list" where
  "type_entries [] = Inr []"
| "type_entries (d # ds) =
     (if \<not> is_string d then Inl ''manifest.event_types entries must be strings''
      else if 32 < length (get_string d) then Inl ''manifest.event_types entry exceeds maximum length''
      else res_bind (type_entries ds) (\<lambda>rest. Inr (get_string d # rest)))"

definition load_event_types :: "json \<Rightarrow> manifest \<Rightarrow> string + manifest" where
  "load_event_types v m =
     (if \<not> is_array v then Inl ''manifest.event_types must be an array''
      else if kMaxManifestEventTypes < jsize v then Inl ''manifest.event_types exceeds the subscription limit''
      else res_bind (type_entries (elems v)) (\<lambda>ts. Inr (m\<lparr>mf_event_types := mf_event_types m @ ts\<rparr>)))"

definition load_max_endpoints :: "json \<Rightarrow> manifest \<Rightarrow> string + manifest" where
  "load_max_endpoints v m =
     (if \<not> is_number_unsigned v \<or> 64 < get_uint64 v then Inl ''manifest.max_endpoints must be a number in [0, 64]''
      else Inr (m\<lparr>mf_max_endpoints := of_nat (get_uint64 v)\<rparr>))"

definition load_max_subscriptions :: "json \<Rightarrow> manifest \<Rightarrow> string + manifest" where
  "load_max_subscriptions v m =
     (if \<not> is_number_unsigned v \<or> 64 < get_uint64 v then Inl ''manifest.max_subscriptions must be a number in [0, 64]''
      else Inr (m\<lparr>mf_max_subscriptions := of_nat (get_uint64 v)\<rparr>))"

definition check_pin :: "string \<Rightarrow> string + string" where
  "check_pin hash = (if hash \<noteq> [] \<and> \<not> valid_sha256_hex hash
     then Inl ''manifest.script_sha256 must be 64 lowercase hex characters'' else Inr hash)"

definition manifest_document :: "json \<Rightarrow> string + manifest" where
  "manifest_document doc =
     (if \<not> is_object doc then Inl ''manifest must be a JSON object''
      else res_bind (required_string doc ''name'' ''manifest.name is required'' valid_name
              ''manifest.name must match [a-zA-Z0-9-]{1,64}'') (\<lambda>name.
           res_bind (required_string doc ''version'' ''manifest.version is required'' valid_manifest_version
              ''manifest.version must be numeric x.y[.z]'') (\<lambda>version.
           res_bind (required_string doc ''script'' ''manifest.script is required'' (\<lambda>s. s \<noteq> [] \<and> length s \<le> 4096)
              ''manifest.script must be a non-empty path'') (\<lambda>script.
           res_bind (manifest_string doc ''description'' []) (\<lambda>description.
           res_bind (manifest_string doc ''script_sha256'' []) (\<lambda>hash.
           res_bind (check_pin hash) (\<lambda>hash.
           res_bind (when_member doc ''capabilities'' load_capabilities
              (manifest_init\<lparr>mf_name := name, mf_version := version, mf_script_path := script,
                 mf_description := description, mf_script_sha256 := hash\<rparr>)) (\<lambda>m.
           res_bind (when_member doc ''event_types'' load_event_types m) (\<lambda>m.
           res_bind (when_member doc ''max_endpoints'' load_max_endpoints m)
             (when_member doc ''max_subscriptions'' load_max_subscriptions))))))))))"

definition manifest_parse :: "(string \<Rightarrow> json option) \<Rightarrow> string \<Rightarrow> string + manifest" where
  "manifest_parse parse t =
     (case parse t of None \<Rightarrow> Inl ''manifest is not valid JSON'' | Some doc \<Rightarrow> manifest_document doc)"

section \<open>Script and path\<close>

text \<open>\<^const>\<open>None\<close>: the digest does not come back (it always does).\<close>

definition verify_script_hash :: "manifest \<Rightarrow> string \<Rightarrow> (string + unit) option" where
  "verify_script_hash m source =
     (if mf_script_sha256 m = [] then Some (Inr ())
      else map_option (\<lambda>actual. if actual \<noteq> mf_script_sha256 m
             then Inl ''script hash does not match the manifest pin'' else Inr ()) (hex_digest source))"

fun path_within_allowlist :: "string \<Rightarrow> string list \<Rightarrow> bool" where
  "path_within_allowlist path [] = False"
| "path_within_allowlist path (dir # dirs) =
     (if prefix dir path
         \<and> (length path = length dir \<or> (0 < length dir \<and> last dir = CHR ''/'') \<or> path ! length dir = CHR ''/'')
      then True else path_within_allowlist path dirs)"

section \<open>Versions\<close>

text \<open>The texts of digit groups separated by dots.\<close>

fun dotted :: "string list \<Rightarrow> string" where
  "dotted [] = []"
| "dotted [p] = p"
| "dotted (p # ps) = p @ CHR ''.'' # dotted ps"

lemma version_loop_digits:
  "list_all is_digit ds \<Longrightarrow> version_loop limit (ds @ cs) n cur = version_loop limit cs n (cur @ ds)"
proof (induction ds arbitrary: cur)
  case (Cons d ds)
  then have "d \<noteq> CHR ''.''" by (auto simp: is_digit_def)
  with Cons show ?case by simp
qed simp

lemma version_loop_dotted:
  "ps \<noteq> [] \<Longrightarrow> list_all (\<lambda>p. p \<noteq> [] \<and> list_all is_digit p) ps \<Longrightarrow>
    version_loop limit (dotted ps) n [] \<longleftrightarrow> 1 \<le> n + length ps - 1 \<and> n + length ps - 1 \<le> max n limit"
proof (induction ps arbitrary: n rule: dotted.induct)
  case (2 p)
  then show ?case using version_loop_digits [of p limit "[]" n "[]"] by auto
next
  case (3 p q ps)
  then have "version_loop limit (dotted (p # q # ps)) n [] = version_loop limit (CHR ''.'' # dotted (q # ps)) n p"
    using version_loop_digits [of p limit "CHR ''.'' # dotted (q # ps)" n "[]"] by simp
  with 3 show ?case by auto
qed simp

lemma version_loop_sound:
  "version_loop limit s n cur \<Longrightarrow> list_all is_digit cur \<Longrightarrow>
    \<exists>ps. ps \<noteq> [] \<and> list_all (\<lambda>p. p \<noteq> [] \<and> list_all is_digit p) ps \<and> cur @ s = dotted ps"
proof (induction limit s n cur rule: version_loop.induct)
  case (1 limit n cur)
  then show ?case by (intro exI [of _ "[cur]"]) simp
next
  case (2 limit c cs n cur)
  show ?case
  proof (cases "c = CHR ''.''")
    case True
    with 2 obtain ps where "ps \<noteq> []" "list_all (\<lambda>p. p \<noteq> [] \<and> list_all is_digit p) ps" "cs = dotted ps"
      by (auto split: if_splits)
    moreover from this(1) obtain q qs where "ps = q # qs" by (cases ps) auto
    ultimately show ?thesis using 2 True by (intro exI [of _ "cur # ps"]) (auto split: if_splits)
  next
    case False
    with 2 show ?thesis by (auto split: if_splits)
  qed
qed

lemma version_loop_iff:
  "version_loop limit v 0 [] \<longleftrightarrow>
    (\<exists>ps. v = dotted ps \<and> 2 \<le> length ps \<and> length ps \<le> limit + 1 \<and> list_all (\<lambda>p. p \<noteq> [] \<and> list_all is_digit p) ps)"
proof
  assume v: "version_loop limit v 0 []"
  obtain ps where ps: "ps \<noteq> []" "list_all (\<lambda>p. p \<noteq> [] \<and> list_all is_digit p) ps" "v = dotted ps"
    using version_loop_sound [OF v] by auto
  with version_loop_dotted [OF ps(1,2), of limit 0] v
  show "\<exists>ps. v = dotted ps \<and> 2 \<le> length ps \<and> length ps \<le> limit + 1 \<and> list_all (\<lambda>p. p \<noteq> [] \<and> list_all is_digit p) ps"
    by (intro exI [of _ ps]) auto
next
  assume "\<exists>ps. v = dotted ps \<and> 2 \<le> length ps \<and> length ps \<le> limit + 1 \<and> list_all (\<lambda>p. p \<noteq> [] \<and> list_all is_digit p) ps"
  then obtain ps where ps: "v = dotted ps" "2 \<le> length ps" "length ps \<le> limit + 1"
      "list_all (\<lambda>p. p \<noteq> [] \<and> list_all is_digit p) ps" by auto
  then have "ps \<noteq> []" by auto
  from version_loop_dotted [OF this ps(4), of limit 0] ps show "version_loop limit v 0 []" by auto
qed

lemma four_components_accepted: "valid_manifest_version ''1.2.3.4''"
  by (simp add: valid_manifest_version_def is_digit_def)

section \<open>Accepted manifests\<close>

definition manifest_ok :: "manifest \<Rightarrow> bool" where
  "manifest_ok m \<longleftrightarrow>
     valid_name (mf_name m) \<and> valid_manifest_version (mf_version m)
     \<and> mf_script_path m \<noteq> [] \<and> length (mf_script_path m) \<le> 4096
     \<and> length (mf_description m) \<le> kMaxManifestFieldLength
     \<and> (mf_script_sha256 m = [] \<or> valid_sha256_hex (mf_script_sha256 m))
     \<and> length (mf_event_types m) \<le> kMaxManifestEventTypes \<and> list_all (\<lambda>t. length t \<le> 32) (mf_event_types m)
     \<and> mf_max_endpoints m \<le> 64 \<and> mf_max_subscriptions m \<le> 64"

lemma type_entries_Inr: "type_entries ds = Inr ts \<Longrightarrow> length ts = length ds \<and> list_all (\<lambda>t. length t \<le> 32) ts"
  by (induction ds arbitrary: ts) (auto simp: res_simps split: if_splits)

lemma of_nat_le_64: "n \<le> 64 \<Longrightarrow> (of_nat n :: u32) \<le> 64"
  by (simp add: word_le_nat_alt unat_of_nat)

lemma limits_keep_ok:
  "manifest_ok m \<Longrightarrow> load_max_endpoints v m = Inr m' \<Longrightarrow> manifest_ok m'"
  "manifest_ok m \<Longrightarrow> load_max_subscriptions v m = Inr m' \<Longrightarrow> manifest_ok m'"
  "manifest_ok m \<Longrightarrow> load_capabilities v m = Inr m' \<Longrightarrow> manifest_ok m'"
  by (auto simp: load_max_endpoints_def load_max_subscriptions_def load_capabilities_def manifest_ok_def
      res_simps of_nat_le_64 split: if_splits)

lemma types_keep_ok: "manifest_ok m \<Longrightarrow> mf_event_types m = [] \<Longrightarrow> load_event_types v m = Inr m' \<Longrightarrow> manifest_ok m'"
  by (auto simp: load_event_types_def manifest_ok_def res_simps jsize_elems dest!: type_entries_Inr split: if_splits)

lemma capabilities_keep_types: "load_capabilities v m = Inr m' \<Longrightarrow> mf_event_types m' = mf_event_types m"
  by (auto simp: load_capabilities_def res_simps split: if_splits)

lemma required_string_Inr:
  "required_string doc key missing ok invalid = Inr s \<Longrightarrow> ok s \<and> member doc key = Some (JString s)"
  by (auto simp: required_string_def get_string_id split: option.splits if_splits)

lemma manifest_string_Inr: "manifest_string doc key [] = Inr s \<Longrightarrow> length s \<le> kMaxManifestFieldLength"
  by (auto simp: manifest_string_def split: option.splits if_splits)

lemma manifest_document_ok:
  assumes "manifest_document doc = Inr m"
  shows "manifest_ok m"
proof -
  obtain name version script descr hash hash' m1 m2 m3 where
    n: "required_string doc ''name'' ''manifest.name is required'' valid_name ''manifest.name must match [a-zA-Z0-9-]{1,64}'' = Inr name"
    and v: "required_string doc ''version'' ''manifest.version is required'' valid_manifest_version
      ''manifest.version must be numeric x.y[.z]'' = Inr version"
    and s: "required_string doc ''script'' ''manifest.script is required'' (\<lambda>s. s \<noteq> [] \<and> length s \<le> 4096)
      ''manifest.script must be a non-empty path'' = Inr script"
    and d: "manifest_string doc ''description'' [] = Inr descr"
    and h: "check_pin hash = Inr hash'"
    and m1: "when_member doc ''capabilities'' load_capabilities (manifest_init\<lparr>mf_name := name, mf_version := version,
      mf_script_path := script, mf_description := descr, mf_script_sha256 := hash'\<rparr>) = Inr m1"
    and m2: "when_member doc ''event_types'' load_event_types m1 = Inr m2"
    and m3: "when_member doc ''max_endpoints'' load_max_endpoints m2 = Inr m3"
    and m: "when_member doc ''max_subscriptions'' load_max_subscriptions m3 = Inr m"
    using assms unfolding manifest_document_def
    by (simp only: res_bind_Inr sum.simps split: if_split_asm) (elim exE conjE, rule that)
  let ?m0 = "manifest_init\<lparr>mf_name := name, mf_version := version,
      mf_script_path := script, mf_description := descr, mf_script_sha256 := hash'\<rparr>"
  have ok0: "manifest_ok ?m0"
    using required_string_Inr [OF n] required_string_Inr [OF v] required_string_Inr [OF s] manifest_string_Inr [OF d] h
    by (auto simp: manifest_ok_def manifest_init_def check_pin_def split: if_splits)
  have "manifest_ok m1" using m1 ok0 limits_keep_ok(3) by (rule when_member_keeps)
  moreover have "mf_event_types m1 = []"
    using m1 by (rule when_member_keeps) (auto simp: manifest_init_def dest: capabilities_keep_types)
  ultimately have "manifest_ok m2"
    using m2 by (auto simp: when_member_def split: option.splits dest: types_keep_ok)
  with m3 have "manifest_ok m3" using limits_keep_ok(1) by (rule when_member_keeps)
  with m show ?thesis using limits_keep_ok(2) by (rule when_member_keeps)
qed

section \<open>Paths\<close>

fun path_parts :: "string \<Rightarrow> string list" where
  "path_parts [] = [[]]"
| "path_parts (c # cs) =
     (if c = CHR ''/'' then [] # path_parts cs
      else case path_parts cs of [] \<Rightarrow> [[c]] | p # ps \<Rightarrow> (c # p) # ps)"

definition path_components :: "string \<Rightarrow> string list" where
  "path_components p = filter (\<lambda>c. c \<noteq> []) (path_parts p)"

lemma path_parts_slash: "path_parts (a @ CHR ''/'' # b) = path_parts a @ path_parts b"
proof (induction a)
  case (Cons c a)
  have "path_parts a \<noteq> []" by (cases a) (auto split: list.splits)
  with Cons show ?case by (auto split: list.splits)
qed simp

lemma path_components_slash: "path_components (a @ CHR ''/'' # b) = path_components a @ path_components b"
  by (simp add: path_components_def path_parts_slash)

lemma path_components_Nil: "path_components [] = []"
  by (simp add: path_components_def)

lemma path_within_iff:
  "path_within_allowlist path dirs \<longleftrightarrow>
    (\<exists>dir\<in>set dirs. path = dir \<or> (\<exists>rest. rest \<noteq> [] \<and> path = dir @ rest \<and> (dir \<noteq> [] \<and> last dir = CHR ''/'' \<or> hd rest = CHR ''/'')))"
proof (induction path dirs rule: path_within_allowlist.induct)
  case (2 path dir dirs)
  have "prefix dir path \<and> (length path = length dir \<or> (0 < length dir \<and> last dir = CHR ''/'') \<or> path ! length dir = CHR ''/'')
      \<longleftrightarrow> path = dir \<or> (\<exists>rest. rest \<noteq> [] \<and> path = dir @ rest \<and> (dir \<noteq> [] \<and> last dir = CHR ''/'' \<or> hd rest = CHR ''/''))"
    by (auto simp: prefix_def hd_conv_nth nth_append)
  with 2 show ?case by auto
qed simp

lemma path_within_components:
  assumes "path_within_allowlist path dirs"
  shows "\<exists>dir\<in>set dirs. prefix (path_components dir) (path_components path)"
proof -
  obtain dir where dir: "dir \<in> set dirs"
      "path = dir \<or> (\<exists>rest. rest \<noteq> [] \<and> path = dir @ rest \<and> (dir \<noteq> [] \<and> last dir = CHR ''/'' \<or> hd rest = CHR ''/''))"
    using assms path_within_iff by blast
  consider "path = dir" | rest where "path = dir @ CHR ''/'' # rest" | a rest where "dir = a @ [CHR ''/'']" "path = a @ CHR ''/'' # rest"
    using dir(2) by (metis append.assoc append_Cons append_Nil append_butlast_last_id hd_Cons_tl)
  then have "prefix (path_components dir) (path_components path)"
    by cases (simp_all add: path_components_slash path_components_Nil)
  with dir(1) show ?thesis by blast
qed

lemma empty_entry_allows_all: "path \<noteq> [] \<Longrightarrow> hd path = CHR ''/'' \<Longrightarrow> path_within_allowlist path [[]]"
  by (auto simp: path_within_iff)

section \<open>Property\<close>



end
