(* ===== verification/Ez_Specgen.thy ===== *)
theory Ez_Specgen
  imports Ez_Manifest Ez_Ipc "HOL-Library.Product_Lexorder" "HOL-Library.Multiset"
begin

text \<open>
  \<^verbatim>\<open>src/specgen\<close>: endpoint descriptors, the subset of JSON Schema they may carry, and the three emitters.

  A validator that fills an error is a function into a sum.  Printing with an indentation, \<^verbatim>\<open>dump(2)\<close>, is the parameter
  \<open>dump2\<close>.  \<^verbatim>\<open>std::sort\<close> is a stable sort by namespace, name and version; \<open>generate\<close> refuses equal keys first,
  and on different keys every sort gives the same list (\<open>sorted_endpoints_unique\<close>).

  The lemmas characterise the accepted schemas and descriptors, show that generation does not depend on the order of
  the endpoints, and that each endpoint has its path and each reference its target in an OpenAPI document.
\<close>

section \<open>Descriptors\<close>

record endpoint =
  ep_name :: string
  ep_ns :: string
  ep_version :: string
  ep_kind :: string
  ep_summary :: string
  ep_description :: string
  ep_request :: json
  ep_response :: json
  ep_metadata_only :: bool
  ep_attribution :: "string list"
  ep_confidence :: string
  ep_privacy :: "string list"

definition endpoint_init :: endpoint where
  "endpoint_init = \<lparr>ep_name = [], ep_ns = [], ep_version = [], ep_kind = [], ep_summary = [], ep_description = [],
     ep_request = JNull, ep_response = JNull, ep_metadata_only = True, ep_attribution = [], ep_confidence = [],
     ep_privacy = []\<rparr>"

definition matches_pattern_length :: "string \<Rightarrow> nat \<Rightarrow> bool \<Rightarrow> bool" where
  "matches_pattern_length value max_len allow_upper \<longleftrightarrow>
     value \<noteq> [] \<and> length value \<le> max_len
     \<and> list_all (\<lambda>c. is_alnum c \<or> c = CHR ''_'' \<or> c = CHR ''-'') value
     \<and> (allow_upper \<or> \<not> list_ex is_upper value)"

definition valid_descriptor_version :: "string \<Rightarrow> bool" where
  "valid_descriptor_version version = version_loop 2 version 0 []"

fun string_entries :: "string \<Rightarrow> nat \<Rightarrow> json list \<Rightarrow> string + string list" where
  "string_entries key max_len [] = Inr []"
| "string_entries key max_len (d # ds) =
     (if \<not> is_string d then Inl (key @ '' entries must be strings'')
      else if max_len < length (get_string d) then Inl (key @ '' entry exceeds maximum length'')
      else res_bind (string_entries key max_len ds) (\<lambda>rest. Inr (get_string d # rest)))"

definition valid_string_list :: "json \<Rightarrow> string \<Rightarrow> nat \<Rightarrow> nat \<Rightarrow> string + string list" where
  "valid_string_list parent key max_items max_item_len =
     (case member parent key of
        None \<Rightarrow> Inr []
      | Some value \<Rightarrow>
          if \<not> is_array value then Inl (key @ '' must be an array'')
          else if max_items < jsize value then Inl (key @ '' exceeds the item limit'')
          else string_entries key max_item_len (elems value))"

section \<open>Schemas\<close>

definition kMaxSchemaDepth :: nat where "kMaxSchemaDepth = 8"
definition kMaxSchemaProperties :: nat where "kMaxSchemaProperties = 64"
definition kMaxSchemaEnumItems :: nat where "kMaxSchemaEnumItems = 64"

definition schema_keys :: "string list" where
  "schema_keys = [''type'', ''description'', ''properties'', ''items'', ''required'', ''enum'']"

definition kTypes :: "string list" where
  "kTypes = [''object'', ''array'', ''string'', ''number'', ''integer'', ''boolean'', ''null'']"

definition schema_head :: "json \<Rightarrow> string + unit" where
  "schema_head doc =
     res_bind (guard (\<not> is_object doc) ''request/response schema must be an object'') (\<lambda>_.
     res_bind (guard (\<not> list_all (\<lambda>kv. fst kv \<in> set schema_keys) (items doc))
       ''request/response schema contains unsupported key'') (\<lambda>_.
     res_bind (guard (\<not> member_is doc ''type'' is_string) ''request/response schema requires a type'') (\<lambda>_.
     res_bind (guard (get_string (member_at doc ''type'') \<notin> set kTypes) ''request/response schema has unknown type'') (\<lambda>_.
     guard (member_is doc ''description'' (\<lambda>v. \<not> is_string v \<or> 512 < length (get_string v)))
       ''schema description must be a bounded string''))))"

definition property_name_ok :: "string \<Rightarrow> bool" where
  "property_name_ok name \<longleftrightarrow> name \<noteq> [] \<and> length name \<le> 64 \<and> list_all (\<lambda>c. is_alnum c \<or> c = CHR ''_'') name"

definition schema_required :: "json \<Rightarrow> string + unit" where
  "schema_required doc =
     res_bind (guard (member_is doc ''required'' (\<lambda>v. \<not> is_array v \<or> kMaxSchemaProperties < jsize v))
       ''schema required must be a bounded array'') (\<lambda>_.
     guard (member_is doc ''required'' (\<lambda>v. list_ex (\<lambda>d. \<not> is_string d \<or> 64 < length (get_string d)) (elems v)))
       ''schema required entries must be bounded strings'')"

definition schema_enum :: "json \<Rightarrow> string + unit" where
  "schema_enum doc =
     res_bind (guard (member_is doc ''enum'' (\<lambda>v. \<not> is_array v \<or> kMaxSchemaEnumItems < jsize v))
       ''schema enum must be a bounded array'') (\<lambda>_.
     guard (member_is doc ''enum''
         (\<lambda>v. list_ex (\<lambda>d. \<not> is_string d \<and> \<not> is_number d \<and> \<not> is_boolean d \<and> \<not> is_null d) (elems v)))
       ''schema enum entries must be scalars'')"

abbreviation items_size :: "(string \<times> json) list \<Rightarrow> nat" where
  "items_size \<equiv> size_list (size_prod (\<lambda>_. 0) size)"

lemma items_size_le: "items_size (items doc) \<le> size doc"
  by (cases doc) simp_all

lemma item_size: "(k, v) \<in> set kvs \<Longrightarrow> size v < items_size kvs"
  by (induction kvs) auto

lemma member_size: "member doc k = Some v \<Longrightarrow> size v < size doc"
  using item_size [of k v "items doc"] items_size_le [of doc] by (fastforce simp: member_def dest: map_of_SomeD)

lemma member_items_size: "member doc k = Some v \<Longrightarrow> items_size (items v) < size doc"
  using member_size [of doc k v] items_size_le [of v] by linarith

function valid_schema_subset :: "json \<Rightarrow> nat \<Rightarrow> string + unit"
  and valid_properties :: "(string \<times> json) list \<Rightarrow> nat \<Rightarrow> string + unit" where
  "valid_schema_subset doc depth =
     (if kMaxSchemaDepth < depth then Inl ''request/response schema exceeds maximum depth''
      else res_bind (schema_head doc) (\<lambda>_.
           res_bind (case member doc ''properties'' of
                       None \<Rightarrow> Inr ()
                     | Some props \<Rightarrow>
                         if \<not> is_object props \<or> kMaxSchemaProperties < jsize props
                         then Inl ''schema properties must be a bounded object''
                         else valid_properties (items props) depth) (\<lambda>_.
           res_bind (case member doc ''items'' of
                       None \<Rightarrow> Inr ()
                     | Some sub \<Rightarrow> valid_schema_subset sub (depth + 1)) (\<lambda>_.
           res_bind (schema_required doc) (\<lambda>_. schema_enum doc)))))"
| "valid_properties [] depth = Inr ()"
| "valid_properties ((name, sub) # props) depth =
     (if \<not> property_name_ok name then Inl ''schema property name is invalid''
      else res_bind (valid_schema_subset sub (depth + 1)) (\<lambda>_. valid_properties props depth))"
  by pat_completeness auto

termination
  by (relation "measure (case_sum (size \<circ> fst) (items_size \<circ> fst))") (auto simp: member_size member_items_size)

declare valid_schema_subset.simps [simp del]

section \<open>Validation\<close>

definition descriptor_keys :: "string list" where
  "descriptor_keys = [''name'', ''namespace'', ''version'', ''kind'', ''summary'', ''description'', ''request'', ''response'',
     ''metadata_only'', ''attribution'', ''confidence'', ''privacy'']"

definition check_metadata_flag :: "json \<Rightarrow> string + unit" where
  "check_metadata_flag doc =
     res_bind (guard (\<not> member_is doc ''metadata_only'' is_boolean) ''descriptor.metadata_only is required'') (\<lambda>_.
     guard (\<not> get_bool (member_at doc ''metadata_only'')) ''descriptor.metadata_only must be true'')"

definition optional_text :: "json \<Rightarrow> string \<Rightarrow> nat \<Rightarrow> string + unit" where
  "optional_text doc key max_len =
     guard (member_is doc key (\<lambda>v. \<not> is_null v \<and> (\<not> is_string v \<or> max_len < length (get_string v))))
       (''descriptor.'' @ key @ '' must be a bounded string'')"

definition optional_schema :: "json \<Rightarrow> string \<Rightarrow> string + unit" where
  "optional_schema doc key =
     (case member doc key of
        None \<Rightarrow> Inr ()
      | Some v \<Rightarrow> if is_null v then Inr () else valid_schema_subset v 0)"

definition validate_endpoint_descriptor :: "json \<Rightarrow> string + unit" where
  "validate_endpoint_descriptor doc =
     res_bind (guard (\<not> is_object doc) ''descriptor must be a JSON object'') (\<lambda>_.
     res_bind (required_string doc ''name'' ''descriptor.name is required'' (\<lambda>s. matches_pattern_length s 64 True)
       ''descriptor.name must match [a-zA-Z0-9_-]{1,64}'') (\<lambda>_.
     res_bind (required_string doc ''namespace'' ''descriptor.namespace is required'' (\<lambda>s. matches_pattern_length s 64 False)
       ''descriptor.namespace must match [a-z0-9-]{1,64}'') (\<lambda>_.
     res_bind (required_string doc ''version'' ''descriptor.version is required'' valid_descriptor_version
       ''descriptor.version must be numeric x.y[.z]'') (\<lambda>_.
     res_bind (required_string doc ''kind'' ''descriptor.kind is required''
       (\<lambda>s. s = ''operation'' \<or> s = ''stream'' \<or> s = ''event'')
       ''descriptor.kind must be operation, stream, or event'') (\<lambda>_.
     res_bind (required_string doc ''summary'' ''descriptor.summary is required'' (\<lambda>s. s \<noteq> [] \<and> length s \<le> 256)
       ''descriptor.summary must be 1..256 characters'') (\<lambda>_.
     res_bind (check_metadata_flag doc) (\<lambda>_.
     res_bind (guard (\<not> list_all (\<lambda>kv. fst kv \<in> set descriptor_keys) (items doc)) ''descriptor contains unknown field'') (\<lambda>_.
     res_bind (optional_text doc ''description'' 2048) (\<lambda>_.
     res_bind (optional_text doc ''confidence'' 256) (\<lambda>_.
     res_bind (valid_string_list doc ''attribution'' 16 512) (\<lambda>_.
     res_bind (valid_string_list doc ''privacy'' 16 512) (\<lambda>_.
     res_bind (optional_schema doc ''request'') (\<lambda>_.
     optional_schema doc ''response'')))))))))))))"

definition text_at :: "json \<Rightarrow> string \<Rightarrow> string" where
  "text_at doc key = (if member_is doc key is_string then get_string (member_at doc key) else [])"

definition object_at :: "json \<Rightarrow> string \<Rightarrow> json" where
  "object_at doc key = (if member_is doc key is_object then member_at doc key else JNull)"

definition parse_endpoint_descriptor :: "json \<Rightarrow> string + endpoint" where
  "parse_endpoint_descriptor doc =
     res_bind (validate_endpoint_descriptor doc) (\<lambda>_.
     Inr \<lparr>ep_name = text_at doc ''name'', ep_ns = text_at doc ''namespace'', ep_version = text_at doc ''version'',
       ep_kind = text_at doc ''kind'', ep_summary = text_at doc ''summary'', ep_description = text_at doc ''description'',
       ep_request = object_at doc ''request'', ep_response = object_at doc ''response'', ep_metadata_only = True,
       ep_attribution = map get_string (elems (member_at doc ''attribution'')), ep_confidence = text_at doc ''confidence'',
       ep_privacy = map get_string (elems (member_at doc ''privacy''))\<rparr>)"

section \<open>Formats\<close>

datatype spec_format = OpenApi31 | AsyncApi2 | JsonSchema

fun format_id :: "spec_format \<Rightarrow> string" where
  "format_id OpenApi31 = ''openapi-3.1''"
| "format_id AsyncApi2 = ''asyncapi-2''"
| "format_id JsonSchema = ''json-schema''"

definition format_from_id :: "string \<Rightarrow> spec_format option" where
  "format_from_id i =
     (if i = ''openapi-3.1'' then Some OpenApi31
      else if i = ''asyncapi-2'' then Some AsyncApi2
      else if i = ''json-schema'' then Some JsonSchema
      else None)"

definition list_formats :: "string list" where
  "list_formats = map format_id [OpenApi31, AsyncApi2, JsonSchema]"

interpretation formats: exact_wire_names format_id format_from_id
proof
  fix e show "format_from_id (format_id e) = Some e"
    by (cases e) (simp_all add: format_from_id_def)
next
  fix s e show "format_from_id s = Some e \<Longrightarrow> s = format_id e"
    by (auto simp: format_from_id_def split: if_splits)
qed

record generation_context =
  gc_source :: string
  gc_generator_version :: string
  gc_schema_version :: u32

section \<open>Emitters\<close>

type_synonym endpoint_key = "string \<times> string \<times> string"

definition endpoint_key :: "endpoint \<Rightarrow> endpoint_key" where
  "endpoint_key e = (ep_ns e, ep_name e, ep_version e)"

definition sort_endpoints :: "endpoint list \<Rightarrow> endpoint list" where
  "sort_endpoints es = sort_key endpoint_key es"

definition apply_privacy_annotations :: "endpoint \<Rightarrow> json \<Rightarrow> json" where
  "apply_privacy_annotations e target =
     (let target = assign_if (ep_attribution e \<noteq> []) ''x-ezcap-attribution'' (JArray (map JString (ep_attribution e))) target;
          target = assign_if (ep_confidence e \<noteq> []) ''x-ezcap-confidence'' (JString (ep_confidence e)) target;
          target = assign_if (ep_privacy e \<noteq> []) ''x-ezcap-privacy'' (JArray (map JString (ep_privacy e))) target
      in assign ''x-ezcap-metadata-only'' (JBool True) target)"

definition ref_to :: "string \<Rightarrow> json" where
  "ref_to target = obj_of [(''$ref'', JString target)]"

definition json_content :: "string \<Rightarrow> json" where
  "json_content schema_name = obj_of [(''application/json'', obj_of [(''schema'', ref_to (''#/components/schemas/'' @ schema_name))])]"

definition kGenerated :: string where "kGenerated = ''synthetic; contains no observed data''"
definition kExample :: string where "kExample = ''synthetic placeholder; not observed data''"

definition request_name :: "endpoint \<Rightarrow> string" where
  "request_name e = ep_ns e @ ''_'' @ ep_name e @ ''_request''"

definition response_name :: "endpoint \<Rightarrow> string" where
  "response_name e = ep_ns e @ ''_'' @ ep_name e @ ''_response''"

definition openapi_operation :: "endpoint \<Rightarrow> json" where
  "openapi_operation e =
     (let op = assign ''operationId'' (JString (ep_ns e @ ''.'' @ ep_name e)) JNull;
          op = assign ''summary'' (JString (ep_summary e)) op;
          op = assign_if (ep_description e \<noteq> []) ''description'' (JString (ep_description e)) op;
          op = assign ''x-ezcap-example'' (JString kExample) op;
          op = apply_privacy_annotations e op;
          op = assign_if (is_object (ep_request e)) ''requestBody''
                 (obj_of [(''required'', JBool True), (''content'', json_content (request_name e))]) op
      in assign ''responses''
           (if is_object (ep_response e)
            then obj_of [(''200'', obj_of [(''description'', JString ''Success''), (''content'', json_content (response_name e))])]
            else obj_of [(''204'', obj_of [(''description'', JString ''No content'')])]) op)"

record openapi_state =
  oa_paths :: json
  oa_schemas :: json
  oa_seen :: "string set"

definition openapi_path :: "endpoint \<Rightarrow> string" where
  "openapi_path e = ''/'' @ ep_ns e @ ''/'' @ ep_name e @ ''/v'' @ ep_version e"

definition openapi_schemas :: "endpoint \<Rightarrow> json \<Rightarrow> json" where
  "openapi_schemas e schemas =
     assign_if (is_object (ep_response e)) (response_name e) (ep_response e)
       (assign_if (is_object (ep_request e)) (request_name e) (ep_request e) schemas)"

definition stream_marker :: "endpoint \<Rightarrow> json" where
  "stream_marker e = apply_privacy_annotations e (assign ''x-ezcap-kind'' (JString ''stream'')
     (assign ''summary'' (JString (ep_summary e @ '' (stream; see AsyncAPI spec)'')) JNull))"

definition openapi_step :: "endpoint \<Rightarrow> openapi_state \<Rightarrow> openapi_state" where
  "openapi_step e s =
     (let path = openapi_path e;
          op = openapi_operation e;
          s = s\<lparr>oa_schemas := openapi_schemas e (oa_schemas s)\<rparr>
      in if ep_kind e = ''operation'' \<or> ep_kind e = ''event''
         then let paths = assign_if (path \<notin> oa_seen s) path empty_object (oa_paths s);
                  paths = assign path (assign ''post'' op (member_at paths path)) paths;
                  paths = assign_if (ep_kind e = ''event'') path
                            (assign ''post'' (assign ''x-ezcap-kind'' (JString ''event'') (member_at (member_at paths path) ''post''))
                              (member_at paths path)) paths
              in s\<lparr>oa_paths := paths, oa_seen := insert path (oa_seen s)\<rparr>
         else if path @ ''#stream'' \<in> oa_seen s then s
         else s\<lparr>oa_paths := assign path (obj_of [(''get'', stream_marker e)]) (oa_paths s),
                oa_seen := insert (path @ ''#stream'') (oa_seen s)\<rparr>)"

definition openapi_doc :: "endpoint list \<Rightarrow> generation_context \<Rightarrow> json" where
  "openapi_doc es ctx =
     (let doc = assign ''openapi'' (JString ''3.1.0'') JNull;
          doc = assign ''info'' (obj_of [(''title'', JString ''ezcap generated API''),
                  (''version'', JString (gc_generator_version ctx)),
                  (''summary'', JString ''Generated from ezcap endpoint descriptors''),
                  (''x-ezcap-source'', JString (gc_source ctx)),
                  (''x-ezcap-schema-version'', JUnsigned (ucast (gc_schema_version ctx))),
                  (''x-ezcap-generated'', JString kGenerated)]) doc;
          s = fold openapi_step (sort_endpoints es) \<lparr>oa_paths = empty_object, oa_schemas = empty_object, oa_seen = {}\<rparr>;
          doc = assign ''paths'' (oa_paths s) doc
      in assign_if (items (oa_schemas s) \<noteq> []) ''components'' (assign ''schemas'' (oa_schemas s) empty_object) doc)"

definition asyncapi_message :: "endpoint \<Rightarrow> json" where
  "asyncapi_message e =
     (let m = assign ''name'' (JString (ep_ns e @ ''.'' @ ep_name e)) JNull;
          m = assign ''title'' (JString (ep_summary e)) m;
          m = assign_if (ep_description e \<noteq> []) ''description'' (JString (ep_description e)) m;
          m = assign ''x-ezcap-example'' (JString kExample) m;
          m = assign_if (is_object (ep_response e)) ''payload'' (ep_response e) m
      in apply_privacy_annotations e m)"

definition asyncapi_step :: "endpoint \<Rightarrow> json \<times> json \<Rightarrow> json \<times> json" where
  "asyncapi_step e s =
     (case s of (channels, messages) \<Rightarrow>
        if ep_kind e = ''operation'' then s
        else let channel = ep_ns e @ ''/'' @ ep_name e @ ''/v'' @ ep_version e;
                 message_name = ep_ns e @ ''_'' @ ep_name e;
                 publish = obj_of [(''message'', ref_to (''#/components/messages/'' @ message_name))];
                 channel_doc = assign_if (ep_confidence e \<noteq> []) ''x-ezcap-confidence'' (JString (ep_confidence e))
                   (obj_of [(''publish'', publish)])
             in (assign channel channel_doc channels, assign message_name (asyncapi_message e) messages))"

definition asyncapi_doc :: "endpoint list \<Rightarrow> generation_context \<Rightarrow> json" where
  "asyncapi_doc es ctx =
     (let doc = assign ''asyncapi'' (JString ''2.6.0'') JNull;
          doc = assign ''info'' (obj_of [(''title'', JString ''ezcap generated event API''),
                  (''version'', JString (gc_generator_version ctx)),
                  (''x-ezcap-source'', JString (gc_source ctx)),
                  (''x-ezcap-schema-version'', JUnsigned (ucast (gc_schema_version ctx))),
                  (''x-ezcap-generated'', JString kGenerated)]) doc;
          (channels, messages) = fold asyncapi_step (sort_endpoints es) (empty_object, empty_object);
          doc = assign ''channels'' channels doc
      in assign_if (items messages \<noteq> []) ''components'' (assign ''messages'' messages empty_object) doc)"

definition json_schema_step :: "endpoint \<Rightarrow> json \<Rightarrow> json" where
  "json_schema_step e defs =
     (let entry = assign ''title'' (JString (ep_summary e)) JNull;
          entry = assign_if (ep_description e \<noteq> []) ''description'' (JString (ep_description e)) entry;
          entry = assign_if (is_object (ep_request e)) ''x-ezcap-request'' (ep_request e) entry;
          entry = assign_if (is_object (ep_response e)) ''x-ezcap-response'' (ep_response e) entry
      in assign (ep_ns e @ ''_'' @ ep_name e) (apply_privacy_annotations e entry) defs)"

definition json_schema_doc :: "endpoint list \<Rightarrow> generation_context \<Rightarrow> json" where
  "json_schema_doc es ctx =
     (let doc = assign ''$schema'' (JString ''https://json-schema.org/draft/2020-12/schema'') JNull;
          doc = assign ''title'' (JString ''ezcap endpoint schema bundle'') doc;
          doc = assign ''x-ezcap-source'' (JString (gc_source ctx)) doc;
          doc = assign ''x-ezcap-generator-version'' (JString (gc_generator_version ctx)) doc;
          doc = assign ''x-ezcap-schema-version'' (JUnsigned (ucast (gc_schema_version ctx))) doc;
          doc = assign ''x-ezcap-generated'' (JString kGenerated) doc;
          doc = assign ''type'' (JString ''object'') doc;
          defs = fold json_schema_step (sort_endpoints es) empty_object
      in assign_if (items defs \<noteq> []) ''$defs'' defs doc)"

fun spec_doc :: "spec_format \<Rightarrow> endpoint list \<Rightarrow> generation_context \<Rightarrow> json" where
  "spec_doc OpenApi31 es ctx = openapi_doc es ctx"
| "spec_doc AsyncApi2 es ctx = asyncapi_doc es ctx"
| "spec_doc JsonSchema es ctx = json_schema_doc es ctx"

text \<open>The two loops over pairs of endpoints.\<close>

fun has_duplicate :: "endpoint list \<Rightarrow> bool" where
  "has_duplicate [] = False"
| "has_duplicate (e # es) = (list_ex (\<lambda>e'. endpoint_key e = endpoint_key e') es \<or> has_duplicate es)"

text \<open>\<^const>\<open>None\<close>: a text of a descriptor is not UTF-8 and printing throws.\<close>

definition generate :: "(json \<Rightarrow> string option) \<Rightarrow> spec_format \<Rightarrow> endpoint list \<Rightarrow> generation_context \<Rightarrow> (string + string) option" where
  "generate dump2 fmt es ctx =
     (if 256 < length es then Some (Inl ''too many endpoints for one spec'')
      else if has_duplicate es then Some (Inl ''duplicate endpoint (namespace, name, version)'')
      else map_option (\<lambda>t. Inr (t @ [CHR 0x0A])) (dump2 (spec_doc fmt es ctx)))"

section \<open>Accepted descriptors\<close>

text \<open>The grammar of schemas: \<open>schema n\<close> are the schemas with fewer than \<open>n\<close> levels below the top.\<close>

definition texts_ok :: "nat \<Rightarrow> nat \<Rightarrow> json \<Rightarrow> bool" where
  "texts_ok n len v \<longleftrightarrow> (\<exists>ss. v = JArray (map JString ss) \<and> length ss \<le> n \<and> list_all (\<lambda>s. length s \<le> len) ss)"

definition is_scalar :: "json \<Rightarrow> bool" where
  "is_scalar v \<longleftrightarrow> \<not> is_array v \<and> \<not> is_object v"

definition text_where :: "json \<Rightarrow> string \<Rightarrow> (string \<Rightarrow> bool) \<Rightarrow> bool" where
  "text_where doc k P \<longleftrightarrow> (\<exists>s. member doc k = Some (JString s) \<and> P s)"

definition schema_node :: "json \<Rightarrow> bool" where
  "schema_node doc \<longleftrightarrow>
     is_object doc \<and> fst ` set (items doc) \<subseteq> set schema_keys \<and> text_where doc ''type'' (\<lambda>s. s \<in> set kTypes)
     \<and> (contains doc ''description'' \<longrightarrow> text_where doc ''description'' (\<lambda>s. length s \<le> 512))
     \<and> (\<forall>v. member doc ''required'' = Some v \<longrightarrow> texts_ok 64 64 v)
     \<and> (\<forall>v. member doc ''enum'' = Some v \<longrightarrow> is_array v \<and> length (elems v) \<le> 64 \<and> list_all is_scalar (elems v))"

inductive schema :: "nat \<Rightarrow> json \<Rightarrow> bool" where
  schema_intro: "schema_node doc \<Longrightarrow>
     \<forall>props. member doc ''properties'' = Some props \<longrightarrow>
       is_object props \<and> length (items props) \<le> 64 \<and> (\<forall>(name, sub)\<in>set (items props). property_name_ok name \<and> schema n sub) \<Longrightarrow>
     \<forall>sub. member doc ''items'' = Some sub \<longrightarrow> schema n sub \<Longrightarrow>
     schema (Suc n) doc"

inductive_simps schema_simps: "schema n doc"

definition descriptor_ok :: "json \<Rightarrow> bool" where
  "descriptor_ok doc \<longleftrightarrow>
     is_object doc \<and> fst ` set (items doc) \<subseteq> set descriptor_keys
     \<and> text_where doc ''name'' (\<lambda>s. matches_pattern_length s 64 True)
     \<and> text_where doc ''namespace'' (\<lambda>s. matches_pattern_length s 64 False)
     \<and> text_where doc ''version'' valid_descriptor_version
     \<and> text_where doc ''kind'' (\<lambda>s. s \<in> {''operation'', ''stream'', ''event''})
     \<and> text_where doc ''summary'' (\<lambda>s. s \<noteq> [] \<and> length s \<le> 256)
     \<and> member doc ''metadata_only'' = Some (JBool True)
     \<and> (\<forall>v. member doc ''description'' = Some v \<longrightarrow> v = JNull \<or> (\<exists>s. v = JString s \<and> length s \<le> 2048))
     \<and> (\<forall>v. member doc ''confidence'' = Some v \<longrightarrow> v = JNull \<or> (\<exists>s. v = JString s \<and> length s \<le> 256))
     \<and> (\<forall>v. member doc ''attribution'' = Some v \<longrightarrow> texts_ok 16 512 v)
     \<and> (\<forall>v. member doc ''privacy'' = Some v \<longrightarrow> texts_ok 16 512 v)
     \<and> (\<forall>v. member doc ''request'' = Some v \<longrightarrow> v = JNull \<or> schema 9 v)
     \<and> (\<forall>v. member doc ''response'' = Some v \<longrightarrow> v = JNull \<or> schema 9 v)"

lemma is_ok_guard [simp]: "is_ok (guard c e) \<longleftrightarrow> \<not> c"
  by (simp add: guard_def)

lemma is_ok_then: "is_ok (res_bind m (\<lambda>_. k)) \<longleftrightarrow> is_ok m \<and> is_ok k"
  by (cases m) simp_all

lemma is_string_iff: "is_string v \<longleftrightarrow> (\<exists>s. v = JString s)"
  by (cases v) simp_all

lemma is_null_iff: "is_null v \<longleftrightarrow> v = JNull"
  by (cases v) simp_all

lemma is_array_iff: "is_array v \<longleftrightarrow> (\<exists>xs. v = JArray xs)"
  by (cases v) simp_all

lemma jsize_array: "is_array v \<Longrightarrow> jsize v = length (elems v)"
  by (cases v) simp_all

lemma jsize_object: "is_object v \<Longrightarrow> jsize v = length (items v)"
  by (cases v) simp_all

lemma texts_ok_iff:
  "texts_ok n len v \<longleftrightarrow> is_array v \<and> length (elems v) \<le> n \<and> list_all (\<lambda>d. is_string d \<and> length (get_string d) \<le> len) (elems v)"
proof -
  have "list_all (\<lambda>d. is_string d \<and> length (get_string d) \<le> len) xs \<longleftrightarrow>
      (\<exists>ss. xs = map JString ss \<and> list_all (\<lambda>s. length s \<le> len) ss)" (is "?l = ?r") for xs
  proof
    assume ?l
    then have "xs = map JString (map get_string xs) \<and> list_all (\<lambda>s. length s \<le> len) (map get_string xs)"
      by (induction xs) (auto simp: is_string_iff)
    then show ?r by blast
  next
    assume ?r
    then show ?l by (auto simp: list_all_iff)
  qed
  then show ?thesis by (auto simp: texts_ok_def is_array_iff)
qed

lemma is_ok_required_string: "is_ok (required_string doc key missing ok invalid) \<longleftrightarrow> text_where doc key ok"
  by (auto simp: required_string_def text_where_def is_string_iff split: option.splits)

lemma string_entries_ok: "is_ok (string_entries key len ds) \<longleftrightarrow> list_all (\<lambda>d. is_string d \<and> length (get_string d) \<le> len) ds"
  by (induction ds) (auto simp: is_ok_bind_iff is_ok_def split: sum.splits)

lemma is_ok_string_list:
  "is_ok (valid_string_list doc key n len) \<longleftrightarrow> (\<forall>v. member doc key = Some v \<longrightarrow> texts_ok n len v)"
  by (auto simp: valid_string_list_def texts_ok_iff string_entries_ok jsize_array split: option.splits)

lemma is_ok_optional_text:
  "is_ok (optional_text doc key n) \<longleftrightarrow>
    (\<forall>v. member doc key = Some v \<longrightarrow> v = JNull \<or> (\<exists>s. v = JString s \<and> length s \<le> n))"
  by (auto simp: optional_text_def member_is_def is_null_iff is_string_iff split: option.splits)

lemma is_ok_schema_node:
  "is_ok (schema_head doc) \<and> is_ok (schema_required doc) \<and> is_ok (schema_enum doc) \<longleftrightarrow> schema_node doc"
proof -
  have sc: "is_scalar d \<longleftrightarrow> is_string d \<or> is_number d \<or> is_boolean d \<or> is_null d" for d
    by (cases d) (simp_all add: is_scalar_def)
  have h: "is_ok (schema_head doc) \<longleftrightarrow> is_object doc \<and> fst ` set (items doc) \<subseteq> set schema_keys
      \<and> text_where doc ''type'' (\<lambda>s. s \<in> set kTypes)
      \<and> (contains doc ''description'' \<longrightarrow> text_where doc ''description'' (\<lambda>s. length s \<le> 512))"
    by (auto simp: schema_head_def is_ok_then member_is_def member_at_def text_where_def contains_def is_string_iff
        list_all_iff split: option.splits)
  have r: "is_ok (schema_required doc) \<longleftrightarrow> (\<forall>v. member doc ''required'' = Some v \<longrightarrow> texts_ok 64 64 v)"
    by (auto simp: schema_required_def is_ok_then member_is_def texts_ok_iff kMaxSchemaProperties_def jsize_array
        list_all_iff list_ex_iff not_le split: option.splits)
  have e: "is_ok (schema_enum doc) \<longleftrightarrow>
      (\<forall>v. member doc ''enum'' = Some v \<longrightarrow> is_array v \<and> length (elems v) \<le> 64 \<and> list_all is_scalar (elems v))"
    by (auto simp: schema_enum_def is_ok_then member_is_def kMaxSchemaEnumItems_def jsize_array sc
        list_all_iff list_ex_iff split: option.splits)
  show ?thesis unfolding schema_node_def h r e by blast
qed

lemma schema_0 [simp]: "\<not> schema 0 doc"
  by (subst schema_simps) simp

lemma schema_Suc: "schema (Suc n) doc \<longleftrightarrow> schema_node doc
    \<and> (\<forall>props. member doc ''properties'' = Some props \<longrightarrow>
        is_object props \<and> length (items props) \<le> 64 \<and> (\<forall>(name, sub)\<in>set (items props). property_name_ok name \<and> schema n sub))
    \<and> (\<forall>sub. member doc ''items'' = Some sub \<longrightarrow> schema n sub)"
  by (subst schema_simps) blast

lemma valid_schema_iff:
  "is_ok (valid_schema_subset doc depth) \<longleftrightarrow> schema (9 - depth) doc"
  "is_ok (valid_properties props depth) \<longleftrightarrow> (\<forall>(name, sub)\<in>set props. property_name_ok name \<and> schema (8 - depth) sub)"
proof (induction doc depth and props depth rule: valid_schema_subset_valid_properties.induct)
  case (1 doc depth)
  show ?case
  proof (cases "kMaxSchemaDepth < depth")
    case True
    then show ?thesis by (simp add: valid_schema_subset.simps kMaxSchemaDepth_def)
  next
    case False
    then have n: "9 - depth = Suc (8 - depth)" by (simp add: kMaxSchemaDepth_def)
    have props: "is_ok (case member doc ''properties'' of None \<Rightarrow> Inr ()
          | Some props \<Rightarrow> if \<not> is_object props \<or> kMaxSchemaProperties < jsize props
              then Inl ''schema properties must be a bounded object'' else valid_properties (items props) depth)
        \<longleftrightarrow> (\<forall>props. member doc ''properties'' = Some props \<longrightarrow> is_object props \<and> length (items props) \<le> 64
              \<and> (\<forall>(name, sub)\<in>set (items props). property_name_ok name \<and> schema (8 - depth) sub))"
      using 1(1) [OF False] by (auto simp: jsize_object kMaxSchemaProperties_def split: option.splits)
    have sub: "is_ok (case member doc ''items'' of None \<Rightarrow> Inr () | Some sub \<Rightarrow> valid_schema_subset sub (depth + 1))
        \<longleftrightarrow> (\<forall>sub. member doc ''items'' = Some sub \<longrightarrow> schema (8 - depth) sub)"
      using 1(2) [OF False] by (auto split: option.splits)
    show ?thesis
      unfolding n schema_Suc is_ok_schema_node [symmetric] valid_schema_subset.simps [of doc] is_ok_then
        if_not_P [OF False] props sub by blast
  qed
next
  case (3 name sub props depth)
  then show ?case by (auto simp: is_ok_then)
qed simp

lemma is_ok_optional_schema:
  "is_ok (optional_schema doc key) \<longleftrightarrow> (\<forall>v. member doc key = Some v \<longrightarrow> v = JNull \<or> schema 9 v)"
  using valid_schema_iff(1) [of _ 0] by (auto simp: optional_schema_def is_null_iff split: option.splits)

lemma is_ok_metadata_flag: "is_ok (check_metadata_flag doc) \<longleftrightarrow> member doc ''metadata_only'' = Some (JBool True)"
proof -
  have "is_boolean v \<longleftrightarrow> (\<exists>b. v = JBool b)" for v by (cases v) simp_all
  then show ?thesis
    by (auto simp: check_metadata_flag_def is_ok_then member_is_def member_at_def split: option.splits)
qed

lemma descriptor_accepts: "is_ok (validate_endpoint_descriptor doc) \<longleftrightarrow> descriptor_ok doc"
  unfolding validate_endpoint_descriptor_def descriptor_ok_def is_ok_then is_ok_guard is_ok_required_string
    is_ok_metadata_flag is_ok_optional_text is_ok_string_list is_ok_optional_schema
  by (simp add: list_all_iff image_subset_iff) blast

definition endpoint_ok :: "endpoint \<Rightarrow> bool" where
  "endpoint_ok e \<longleftrightarrow>
     matches_pattern_length (ep_name e) 64 True \<and> matches_pattern_length (ep_ns e) 64 False
     \<and> valid_descriptor_version (ep_version e) \<and> ep_kind e \<in> {''operation'', ''stream'', ''event''}
     \<and> ep_summary e \<noteq> [] \<and> length (ep_summary e) \<le> 256 \<and> length (ep_description e) \<le> 2048
     \<and> length (ep_confidence e) \<le> 256 \<and> ep_metadata_only e
     \<and> length (ep_attribution e) \<le> 16 \<and> list_all (\<lambda>s. length s \<le> 512) (ep_attribution e)
     \<and> length (ep_privacy e) \<le> 16 \<and> list_all (\<lambda>s. length s \<le> 512) (ep_privacy e)
     \<and> (ep_request e = JNull \<or> schema 9 (ep_request e)) \<and> (ep_response e = JNull \<or> schema 9 (ep_response e))"

lemma text_at_where: "text_where doc k P \<Longrightarrow> P (text_at doc k)"
  by (auto simp: text_where_def text_at_def member_is_def member_at_def)

lemma text_at_le:
  "\<forall>v. member doc k = Some v \<longrightarrow> v = JNull \<or> (\<exists>s. v = JString s \<and> length s \<le> n) \<Longrightarrow> length (text_at doc k) \<le> n"
  by (auto simp: text_at_def member_is_def member_at_def split: option.splits)

lemma texts_at_ok:
  "\<forall>v. member doc k = Some v \<longrightarrow> texts_ok n len v \<Longrightarrow>
    length (map get_string (elems (member_at doc k))) \<le> n \<and> list_all (\<lambda>s. length s \<le> len) (map get_string (elems (member_at doc k)))"
  by (cases "member doc k") (auto simp: member_at_def texts_ok_iff list_all_iff)

lemma object_at_ok:
  "\<forall>v. member doc k = Some v \<longrightarrow> v = JNull \<or> schema 9 v \<Longrightarrow> object_at doc k = JNull \<or> schema 9 (object_at doc k)"
  by (auto simp: object_at_def member_is_def member_at_def split: option.splits)

lemma parse_descriptor_ok:
  assumes "parse_endpoint_descriptor doc = Inr e"
  shows "endpoint_ok e"
proof -
  have ok: "descriptor_ok doc"
    using assms descriptor_accepts by (auto simp: parse_endpoint_descriptor_def res_simps is_ok_Inr)
  have e: "e = \<lparr>ep_name = text_at doc ''name'', ep_ns = text_at doc ''namespace'', ep_version = text_at doc ''version'',
       ep_kind = text_at doc ''kind'', ep_summary = text_at doc ''summary'', ep_description = text_at doc ''description'',
       ep_request = object_at doc ''request'', ep_response = object_at doc ''response'', ep_metadata_only = True,
       ep_attribution = map get_string (elems (member_at doc ''attribution'')), ep_confidence = text_at doc ''confidence'',
       ep_privacy = map get_string (elems (member_at doc ''privacy''))\<rparr>"
    using assms by (auto simp: parse_endpoint_descriptor_def res_simps)
  from ok have d: "text_where doc ''name'' (\<lambda>s. matches_pattern_length s 64 True)"
      "text_where doc ''namespace'' (\<lambda>s. matches_pattern_length s 64 False)"
      "text_where doc ''version'' valid_descriptor_version"
      "text_where doc ''kind'' (\<lambda>s. s \<in> {''operation'', ''stream'', ''event''})"
      "text_where doc ''summary'' (\<lambda>s. s \<noteq> [] \<and> length s \<le> 256)"
    and t: "\<forall>v. member doc ''description'' = Some v \<longrightarrow> v = JNull \<or> (\<exists>s. v = JString s \<and> length s \<le> 2048)"
      "\<forall>v. member doc ''confidence'' = Some v \<longrightarrow> v = JNull \<or> (\<exists>s. v = JString s \<and> length s \<le> 256)"
    and l: "\<forall>v. member doc ''attribution'' = Some v \<longrightarrow> texts_ok 16 512 v"
      "\<forall>v. member doc ''privacy'' = Some v \<longrightarrow> texts_ok 16 512 v"
    and s: "\<forall>v. member doc ''request'' = Some v \<longrightarrow> v = JNull \<or> schema 9 v"
      "\<forall>v. member doc ''response'' = Some v \<longrightarrow> v = JNull \<or> schema 9 v"
    unfolding descriptor_ok_def by - (elim conjE, assumption)+
  show ?thesis
    unfolding e endpoint_ok_def endpoint.simps
    using d [THEN text_at_where] t [THEN text_at_le] l [THEN texts_at_ok] s [THEN object_at_ok] by simp
qed

section \<open>Order of the endpoints\<close>

lemma has_duplicate_iff: "has_duplicate es \<longleftrightarrow> \<not> distinct (map endpoint_key es)"
  by (induction es) (auto simp: list_ex_iff)

lemma mset_sort_endpoints [simp]: "mset (sort_endpoints es) = mset es"
  by (simp add: sort_endpoints_def)

lemma set_sort_endpoints [simp]: "set (sort_endpoints es) = set es"
  by (simp add: sort_endpoints_def)

lemma sorted_endpoints_unique:
  assumes "\<not> has_duplicate es" "mset xs = mset es" "sorted (map endpoint_key xs)"
  shows "sort_endpoints es = xs"
  using assms unfolding sort_endpoints_def has_duplicate_iff distinct_map
  by (intro sort_key_inj_key_eq) simp_all

lemma distinct_keys_sorted: "\<not> has_duplicate es \<Longrightarrow> distinct (map endpoint_key (sort_endpoints es))"
proof -
  assume "\<not> has_duplicate es"
  then have "distinct (map endpoint_key es)" by (simp add: has_duplicate_iff)
  moreover have "mset (map endpoint_key (sort_endpoints es)) = mset (map endpoint_key es)" by simp
  ultimately show ?thesis by (metis mset_eq_imp_distinct_iff)
qed

lemma generate_permuted:
  assumes "mset es = mset es'"
  shows "generate dump2 fmt es ctx = generate dump2 fmt es' ctx"
proof -
  have len: "length es = length es'" using assms by (metis size_mset)
  have "mset (map endpoint_key es) = mset (map endpoint_key es')" using assms by simp
  then have dup: "has_duplicate es = has_duplicate es'"
    by (metis has_duplicate_iff mset_eq_imp_distinct_iff)
  show ?thesis
  proof (cases "has_duplicate es")
    case False
    then have "sort_endpoints es = sort_endpoints es'"
      using assms by (intro sorted_endpoints_unique) (simp_all add: sort_endpoints_def)
    then have "spec_doc fmt es ctx = spec_doc fmt es' ctx"
      by (cases fmt) (simp_all add: openapi_doc_def asyncapi_doc_def json_schema_doc_def)
    with len dup show ?thesis by (simp add: generate_def)
  qed (use len dup in \<open>simp add: generate_def\<close>)
qed

section \<open>The OpenAPI document\<close>

fun lookup_path :: "json \<Rightarrow> string list \<Rightarrow> json option" where
  "lookup_path d [] = Some d"
| "lookup_path d (k # ks) = (case member d k of None \<Rightarrow> None | Some v \<Rightarrow> lookup_path v ks)"

definition openapi_verb :: "endpoint \<Rightarrow> string" where
  "openapi_verb e = (if ep_kind e = ''stream'' then ''get'' else ''post'')"

definition openapi_entry :: "endpoint \<Rightarrow> json" where
  "openapi_entry e = JObject [(openapi_verb e, if ep_kind e = ''stream'' then stream_marker e
     else assign_if (ep_kind e = ''event'') ''x-ezcap-kind'' (JString ''event'') (openapi_operation e))]"

lemma member_obj_of: "member (obj_of kvs) k = map_of (rev kvs) k"
proof -
  have "map_of (fold (\<lambda>(k, v). obj_set k v) kvs m) = map_of m ++ map_of (rev kvs)" for m
    by (induction kvs arbitrary: m) auto
  from this [of "[]"] show ?thesis by (simp add: obj_of_def member_def)
qed

lemma split_at_slash:
  "a @ CHR ''/'' # b = c @ CHR ''/'' # d \<Longrightarrow> CHR ''/'' \<notin> set a \<Longrightarrow> CHR ''/'' \<notin> set c \<Longrightarrow> a = c \<and> b = d"
proof (induction a arbitrary: c)
  case Nil
  then show ?case by (cases c) auto
next
  case (Cons x a)
  then show ?case by (cases c) auto
qed

lemma pattern_chars:
  assumes "matches_pattern_length s n u"
  shows "CHR ''/'' \<notin> set s" "CHR ''#'' \<notin> set s"
  using assms by (auto simp: matches_pattern_length_def list_all_iff is_alnum_def is_upper_def is_lower_def is_digit_def)

lemma set_dotted: "set (dotted ps) \<subseteq> \<Union> (set ` set ps) \<union> {CHR ''.''}"
  by (induction ps rule: dotted.induct) auto

lemma version_chars:
  assumes "valid_descriptor_version v" shows "CHR ''#'' \<notin> set v"
proof -
  obtain ps where "v = dotted ps" "list_all (\<lambda>p. p \<noteq> [] \<and> list_all is_digit p) ps"
    using assms version_loop_iff [of 2 v] unfolding valid_descriptor_version_def by blast
  moreover have "\<not> is_digit (CHR ''#'')" by (simp add: is_digit_def)
  ultimately show ?thesis using set_dotted [of ps] by (auto simp: list_all_iff)
qed

lemma path_inj:
  assumes "endpoint_ok e" "endpoint_ok e'" "openapi_path e = openapi_path e'"
  shows "endpoint_key e = endpoint_key e'"
proof -
  have n: "CHR ''/'' \<notin> set (ep_ns e)" "CHR ''/'' \<notin> set (ep_ns e')" "CHR ''/'' \<notin> set (ep_name e)" "CHR ''/'' \<notin> set (ep_name e')"
    using assms(1,2) pattern_chars unfolding endpoint_ok_def by blast+
  have "ep_ns e @ CHR ''/'' # ep_name e @ CHR ''/'' # CHR ''v'' # ep_version e
      = ep_ns e' @ CHR ''/'' # ep_name e' @ CHR ''/'' # CHR ''v'' # ep_version e'"
    using assms(3) by (simp add: openapi_path_def)
  from split_at_slash [OF this n(1,2)] have "ep_ns e = ep_ns e'"
      and "ep_name e @ CHR ''/'' # CHR ''v'' # ep_version e = ep_name e' @ CHR ''/'' # CHR ''v'' # ep_version e'" by simp_all
  with split_at_slash [OF this(2) n(3,4)] show ?thesis by (simp add: endpoint_key_def)
qed

lemma path_no_hash: "endpoint_ok e \<Longrightarrow> CHR ''#'' \<notin> set (openapi_path e)"
  using pattern_chars(2) [of "ep_ns e"] pattern_chars(2) [of "ep_name e"] version_chars [of "ep_version e"]
  by (auto simp: endpoint_ok_def openapi_path_def)

lemma is_object_step:
  "is_object (oa_paths s) \<Longrightarrow> is_object (oa_paths (openapi_step e s))"
  by (simp add: openapi_step_def Let_def)

lemma member_single [simp]: "member (JObject [(k, v)]) k' = (if k' = k then Some v else None)"
  by (simp add: member_def)

lemma step_entry:
  assumes "endpoint_ok e" "is_object (oa_paths s)" "member (oa_paths s) (openapi_path e) = None"
    "openapi_path e @ ''#stream'' \<notin> oa_seen s"
  shows "member (oa_paths (openapi_step e s)) p =
    (if p = openapi_path e then Some (openapi_entry e) else member (oa_paths s) p)"
proof -
  consider "ep_kind e = ''operation''" | "ep_kind e = ''event''" | "ep_kind e = ''stream''"
    using assms(1) by (auto simp: endpoint_ok_def)
  then show ?thesis
    using assms(2-)
    by cases (auto simp: openapi_step_def openapi_entry_def openapi_verb_def Let_def member_at_def obj_of_def
        assign_if_def member_single)
qed

lemma step_seen:
  "oa_seen (openapi_step e s) \<subseteq> insert (openapi_path e) (insert (openapi_path e @ ''#stream'') (oa_seen s))"
  by (auto simp: openapi_step_def Let_def)

lemma openapi_paths_fold:
  fixes es
  defines "s \<equiv> fold openapi_step es \<lparr>oa_paths = empty_object, oa_schemas = empty_object, oa_seen = {}\<rparr>"
  assumes "\<forall>e\<in>set es. endpoint_ok e" "distinct (map openapi_path es)"
  shows "is_object (oa_paths s)
    \<and> oa_seen s \<subseteq> openapi_path ` set es \<union> (\<lambda>e. openapi_path e @ ''#stream'') ` set es
    \<and> member (oa_paths s) = map_of (map (\<lambda>e. (openapi_path e, openapi_entry e)) es)"
  using assms(2,3) unfolding s_def
proof (induction es rule: rev_induct)
  case (snoc e es)
  let ?s = "fold openapi_step es \<lparr>oa_paths = empty_object, oa_schemas = empty_object, oa_seen = {}\<rparr>"
  have e: "endpoint_ok e" and fresh: "openapi_path e \<notin> openapi_path ` set es" using snoc.prems by auto
  have IH: "is_object (oa_paths ?s)" "member (oa_paths ?s) = map_of (map (\<lambda>e. (openapi_path e, openapi_entry e)) es)"
      "oa_seen ?s \<subseteq> openapi_path ` set es \<union> (\<lambda>e. openapi_path e @ ''#stream'') ` set es"
    using snoc by simp_all
  have none: "member (oa_paths ?s) (openapi_path e) = None"
    using fresh unfolding IH(2) by (auto simp: map_of_eq_None_iff image_image)
  have "openapi_path e @ ''#stream'' \<notin> openapi_path ` set es"
  proof
    assume "openapi_path e @ ''#stream'' \<in> openapi_path ` set es"
    then obtain a where "openapi_path e @ ''#stream'' = openapi_path a" "a \<in> set es" by (rule imageE)
    moreover from this(2) snoc.prems(1) have "CHR ''#'' \<notin> set (openapi_path a)" by (intro path_no_hash) simp
    ultimately show False by (metis UnCI list.set_intros(1) set_append)
  qed
  then have "openapi_path e @ ''#stream'' \<notin> oa_seen ?s" using IH(3) fresh by auto
  from step_entry [OF e IH(1) none this] have "member (oa_paths (openapi_step e ?s)) =
      (member (oa_paths ?s)) (openapi_path e \<mapsto> openapi_entry e)" by (auto simp: fun_eq_iff)
  also have "\<dots> = map_of (map (\<lambda>e. (openapi_path e, openapi_entry e)) (es @ [e]))"
    using none unfolding IH(2) by (auto simp: fun_eq_iff map_add_def split: option.splits)
  finally show ?case
    using is_object_step [OF IH(1), of e] step_seen [of e ?s] IH(3) by auto
qed (simp add: fun_eq_iff)

definition schema_of :: "endpoint list \<Rightarrow> string \<Rightarrow> json \<Rightarrow> bool" where
  "schema_of es n v \<longleftrightarrow> is_object v \<and> (\<exists>e\<in>set es. n = request_name e \<and> v = ep_request e \<or> n = response_name e \<and> v = ep_response e)"

lemma openapi_schemas_fold:
  fixes es
  defines "s \<equiv> fold openapi_step es \<lparr>oa_paths = empty_object, oa_schemas = empty_object, oa_seen = {}\<rparr>"
  shows "is_object (oa_schemas s) \<and> (\<forall>n v. member (oa_schemas s) n = Some v \<longrightarrow> schema_of es n v)
    \<and> (\<forall>n v. schema_of es n v \<longrightarrow> (\<exists>v'. member (oa_schemas s) n = Some v'))"
  unfolding s_def
proof (induction es rule: rev_induct)
  case (snoc e es)
  let ?s = "fold openapi_step es \<lparr>oa_paths = empty_object, oa_schemas = empty_object, oa_seen = {}\<rparr>"
  have IH: "is_object (oa_schemas ?s)" "\<And>n v. member (oa_schemas ?s) n = Some v \<Longrightarrow> schema_of es n v"
      "\<And>n v. schema_of es n v \<Longrightarrow> \<exists>v'. member (oa_schemas ?s) n = Some v'"
    using snoc by blast+
  have s: "oa_schemas (fold openapi_step (es @ [e]) \<lparr>oa_paths = empty_object, oa_schemas = empty_object, oa_seen = {}\<rparr>)
      = openapi_schemas e (oa_schemas ?s)"
    by (simp add: openapi_step_def Let_def)
  have m: "member (openapi_schemas e (oa_schemas ?s)) n =
      (if is_object (ep_response e) \<and> n = response_name e then Some (ep_response e)
       else if is_object (ep_request e) \<and> n = request_name e then Some (ep_request e) else member (oa_schemas ?s) n)" for n
    using IH(1) by (simp add: openapi_schemas_def)
  have so: "schema_of (es @ [e]) n v \<longleftrightarrow> schema_of es n v
      \<or> is_object v \<and> (n = request_name e \<and> v = ep_request e \<or> n = response_name e \<and> v = ep_response e)" for n v
    unfolding schema_of_def by auto
  show ?case
    unfolding s
  proof (intro conjI allI impI)
    show "is_object (openapi_schemas e (oa_schemas ?s))" using IH(1) by (simp add: openapi_schemas_def)
    fix n v
    show "schema_of (es @ [e]) n v" if "member (openapi_schemas e (oa_schemas ?s)) n = Some v"
      using that unfolding m so by (simp split: if_splits) (rule disjI1, rule IH(2))
    show "\<exists>v'. member (openapi_schemas e (oa_schemas ?s)) n = Some v'" if "schema_of (es @ [e]) n v"
      using that IH(3) [of n v] unfolding m so by (cases "schema_of es n v") auto
  qed
qed (simp add: schema_of_def)

lemma lookup_annotated [simp]:
  "is_object d \<Longrightarrow> member (apply_privacy_annotations e d) ''x-ezcap-metadata-only'' = Some (JBool True)"
  by (simp add: apply_privacy_annotations_def Let_def)

lemma is_object_annotated [simp]: "is_object (apply_privacy_annotations e d)"
  by (simp add: apply_privacy_annotations_def Let_def)

lemma operation_members:
  "member (openapi_operation e) ''x-ezcap-metadata-only'' = Some (JBool True)"
  "is_object (ep_request e) \<Longrightarrow>
    lookup_path (openapi_operation e) [''requestBody'', ''content'', ''application/json'', ''schema'', ''$ref''] =
      Some (JString (''#/components/schemas/'' @ request_name e))"
  "is_object (ep_response e) \<Longrightarrow>
    lookup_path (openapi_operation e) [''responses'', ''200'', ''content'', ''application/json'', ''schema'', ''$ref''] =
      Some (JString (''#/components/schemas/'' @ response_name e))"
  by (simp_all add: openapi_operation_def Let_def member_obj_of json_content_def ref_to_def)

lemma is_object_operation [simp]: "is_object (openapi_operation e)"
  by (simp add: openapi_operation_def Let_def)

lemma names_differ: "request_name e \<noteq> response_name e'"
proof
  assume "request_name e = response_name e'"
  then have "last (request_name e) = last (response_name e')" by simp
  then show False by (simp add: request_name_def response_name_def)
qed

lemma openapi_doc_members:
  fixes es ctx
  defines "s \<equiv> fold openapi_step (sort_endpoints es) \<lparr>oa_paths = empty_object, oa_schemas = empty_object, oa_seen = {}\<rparr>"
  shows "member (openapi_doc es ctx) ''paths'' = Some (oa_paths s)"
    "items (oa_schemas s) \<noteq> [] \<Longrightarrow> lookup_path (openapi_doc es ctx) [''components'', ''schemas'', n] = member (oa_schemas s) n"
  unfolding s_def
  by (simp add: openapi_doc_def Let_def member_def assign_if_def) (simp add: openapi_doc_def Let_def split: option.splits)

lemma paths_distinct:
  assumes "list_all endpoint_ok es" "\<not> has_duplicate es"
  shows "distinct (map openapi_path (sort_endpoints es))"
proof -
  have "inj_on openapi_path (set es)"
    using assms path_inj unfolding has_duplicate_iff distinct_map inj_on_def list_all_iff by metis
  moreover have "distinct (sort_endpoints es)" using distinct_keys_sorted [OF assms(2)] by (simp add: distinct_map)
  ultimately show ?thesis by (simp add: distinct_map)
qed

lemma openapi_path_lookup:
  assumes "list_all endpoint_ok es" "\<not> has_duplicate es"
  shows "member (member_at (openapi_doc es ctx) ''paths'') p =
    map_of (map (\<lambda>e. (openapi_path e, openapi_entry e)) (sort_endpoints es)) p"
  using openapi_paths_fold [OF _ paths_distinct [OF assms]] assms(1) openapi_doc_members(1) [of es ctx]
  by (simp add: member_at_def list_all_iff)

lemma openapi_entry_at:
  assumes "list_all endpoint_ok es" "\<not> has_duplicate es" "e \<in> set es"
  shows "lookup_path (openapi_doc es ctx) [''paths'', openapi_path e] = Some (openapi_entry e)"
proof -
  have "map_of (map (\<lambda>e. (openapi_path e, openapi_entry e)) (sort_endpoints es)) (openapi_path e) = Some (openapi_entry e)"
    using paths_distinct [OF assms(1,2)] assms(3) by (intro map_of_is_SomeI) (auto simp: comp_def)
  then show ?thesis
    using openapi_path_lookup [OF assms(1,2), of ctx "openapi_path e"] openapi_doc_members(1) [of es ctx]
    by (simp add: member_at_def)
qed

lemma openapi_schema_at:
  assumes "schema_of es n v"
  shows "\<exists>v'. lookup_path (openapi_doc es ctx) [''components'', ''schemas'', n] = Some v' \<and> schema_of es n v'"
proof -
  let ?s = "fold openapi_step (sort_endpoints es) \<lparr>oa_paths = empty_object, oa_schemas = empty_object, oa_seen = {}\<rparr>"
  have "schema_of (sort_endpoints es) n v" using assms by (simp add: schema_of_def)
  then obtain v' where v': "member (oa_schemas ?s) n = Some v'" "schema_of (sort_endpoints es) n v'"
    using openapi_schemas_fold [of "sort_endpoints es"] by blast
  then have "items (oa_schemas ?s) \<noteq> []" by (auto simp: member_def)
  with openapi_doc_members(2) [of es ctx n] v' show ?thesis by (simp add: schema_of_def)
qed

text \<open>Two versions of one endpoint share the schema name, and the reference of the older one leads to the newer schema.\<close>

definition versioned :: "string \<Rightarrow> string \<Rightarrow> endpoint" where
  "versioned v ty = endpoint_init\<lparr>ep_name := ''n'', ep_ns := ''a'', ep_version := v, ep_kind := ''operation'', ep_summary := ''s'',
     ep_request := JObject [(''type'', JString ty)]\<rparr>"

definition sample_context :: generation_context where
  "sample_context = \<lparr>gc_source = ''first-party'', gc_generator_version = ''0.1.0'', gc_schema_version = 1\<rparr>"

lemma sort_versioned: "sort_endpoints [versioned ''1.0'' ''string'', versioned ''2.0'' ''number''] = [versioned ''1.0'' ''string'', versioned ''2.0'' ''number'']"
  by (rule sorted_endpoints_unique) (simp_all add: endpoint_key_def versioned_def less_eq_char_def less_char_def)

lemma shared_schema:
  "let doc = openapi_doc [versioned ''1.0'' ''string'', versioned ''2.0'' ''number''] sample_context
   in lookup_path doc [''paths'', ''/a/n/v1.0'', ''post'', ''requestBody'', ''content'', ''application/json'', ''schema'', ''$ref'']
        = Some (JString ''#/components/schemas/a_n_request'')
      \<and> lookup_path doc [''components'', ''schemas'', ''a_n_request''] = Some (JObject [(''type'', JString ''number'')])"
  by code_simp

definition sample_descriptor :: "string \<Rightarrow> string \<Rightarrow> json" where
  "sample_descriptor v ty = JObject [(''kind'', JString ''operation''), (''metadata_only'', JBool True), (''name'', JString ''n''),
     (''namespace'', JString ''a''), (''request'', JObject [(''type'', JString ty)]), (''summary'', JString ''s''),
     (''version'', JString v)]"

lemma sample_parsed:
  "parse_endpoint_descriptor (sample_descriptor ''1.0'' ''string'') = Inr (versioned ''1.0'' ''string'')"
  "parse_endpoint_descriptor (sample_descriptor ''2.0'' ''number'') = Inr (versioned ''2.0'' ''number'')"
  by code_simp+

section \<open>Properties\<close>



text \<open>
  C38: generation does not depend on the order of the endpoints: the same endpoints in another order give the same
  error or byte for byte the same document, in every format.
\<close>

theorem generate_deterministic:
  assumes "mset es = mset es'"
  shows "generate dump2 fmt es ctx = generate dump2 fmt es' ctx"
  using assms by (rule generate_permuted)

theorem generate_deterministic_witness:
  "generate (\<lambda>_. Some []) AsyncApi2 [versioned ''2.0'' ''number'', versioned ''1.0'' ''string''] sample_context
    = generate (\<lambda>_. Some []) AsyncApi2 [versioned ''1.0'' ''string'', versioned ''2.0'' ''number''] sample_context"
  by (rule generate_deterministic) simp

text \<open>
  C39: an OpenAPI document of accepted, distinct endpoints has exactly one path for each endpoint, under which stands its one
  operation, marked metadata-only; each reference to a request or response schema leads to a schema that is in
  the document and belongs to an endpoint with the same schema name.
\<close>

theorem openapi_complete:
  assumes "list_all endpoint_ok es" "\<not> has_duplicate es"
  shows "fst ` set (items (member_at (openapi_doc es ctx) ''paths'')) = openapi_path ` set es
    \<and> (\<forall>e\<in>set es.
        lookup_path (openapi_doc es ctx) [''paths'', openapi_path e] = Some (openapi_entry e)
        \<and> lookup_path (openapi_entry e) [openapi_verb e, ''x-ezcap-metadata-only''] = Some (JBool True)
        \<and> (ep_kind e \<noteq> ''stream'' \<and> is_object (ep_request e) \<longrightarrow>
            lookup_path (openapi_entry e) [''post'', ''requestBody'', ''content'', ''application/json'', ''schema'', ''$ref''] =
              Some (JString (''#/components/schemas/'' @ request_name e))
            \<and> (\<exists>e'\<in>set es. request_name e' = request_name e
                \<and> lookup_path (openapi_doc es ctx) [''components'', ''schemas'', request_name e] = Some (ep_request e')))
        \<and> (ep_kind e \<noteq> ''stream'' \<and> is_object (ep_response e) \<longrightarrow>
            lookup_path (openapi_entry e) [''post'', ''responses'', ''200'', ''content'', ''application/json'', ''schema'', ''$ref''] =
              Some (JString (''#/components/schemas/'' @ response_name e))
            \<and> (\<exists>e'\<in>set es. response_name e' = response_name e
                \<and> lookup_path (openapi_doc es ctx) [''components'', ''schemas'', response_name e] = Some (ep_response e'))))"
proof (intro conjI ballI impI)
  have "dom (member (member_at (openapi_doc es ctx) ''paths'')) = openapi_path ` set es"
    unfolding openapi_path_lookup [OF assms, abs_def] by (simp add: dom_map_of_conv_image_fst image_image)
  then show "fst ` set (items (member_at (openapi_doc es ctx) ''paths'')) = openapi_path ` set es"
    by (simp add: member_def [abs_def] dom_map_of_conv_image_fst)
next
  fix e assume e: "e \<in> set es"
  show "lookup_path (openapi_doc es ctx) [''paths'', openapi_path e] = Some (openapi_entry e)"
    using assms e by (rule openapi_entry_at)
  show "lookup_path (openapi_entry e) [openapi_verb e, ''x-ezcap-metadata-only''] = Some (JBool True)"
    by (simp add: openapi_entry_def stream_marker_def operation_members(1))
  assume r: "ep_kind e \<noteq> ''stream'' \<and> is_object (ep_request e)"
  show "lookup_path (openapi_entry e) [''post'', ''requestBody'', ''content'', ''application/json'', ''schema'', ''$ref''] =
      Some (JString (''#/components/schemas/'' @ request_name e))"
    using r operation_members(2) [of e] by (simp add: openapi_entry_def openapi_verb_def)
  have "schema_of es (request_name e) (ep_request e)" using e r by (auto simp: schema_of_def)
  from openapi_schema_at [OF this, of ctx] names_differ [of e]
  show "\<exists>e'\<in>set es. request_name e' = request_name e
      \<and> lookup_path (openapi_doc es ctx) [''components'', ''schemas'', request_name e] = Some (ep_request e')"
    unfolding schema_of_def by metis
next
  fix e assume e: "e \<in> set es" and r: "ep_kind e \<noteq> ''stream'' \<and> is_object (ep_response e)"
  show "lookup_path (openapi_entry e) [''post'', ''responses'', ''200'', ''content'', ''application/json'', ''schema'', ''$ref''] =
      Some (JString (''#/components/schemas/'' @ response_name e))"
    using r operation_members(3) [of e] by (simp add: openapi_entry_def openapi_verb_def)
  have "schema_of es (response_name e) (ep_response e)" using e r by (auto simp: schema_of_def)
  from openapi_schema_at [OF this, of ctx] names_differ [of _ e]
  show "\<exists>e'\<in>set es. response_name e' = response_name e
      \<and> lookup_path (openapi_doc es ctx) [''components'', ''schemas'', response_name e] = Some (ep_response e')"
    unfolding schema_of_def by metis
qed

theorem openapi_complete_witness:
  "let es = [versioned ''1.0'' ''string'', versioned ''2.0'' ''number'']
   in fst ` set (items (member_at (openapi_doc es sample_context) ''paths'')) = openapi_path ` set es"
proof -
  have "list_all endpoint_ok [versioned ''1.0'' ''string'', versioned ''2.0'' ''number'']"
    using parse_descriptor_ok [OF sample_parsed(1)] parse_descriptor_ok [OF sample_parsed(2)] by simp
  moreover have "\<not> has_duplicate [versioned ''1.0'' ''string'', versioned ''2.0'' ''number'']" by code_simp
  ultimately show ?thesis unfolding Let_def by (rule openapi_complete [THEN conjunct1])
qed

end
