(* ===== verification/Ez_LuaSandbox.thy ===== *)
theory Ez_LuaSandbox
  imports Ez_Types
begin

text \<open>
  \<^verbatim>\<open>src/drivers/lua/sandbox.cpp\<close>: one interpreter with an allocator that has a ceiling, an instruction hook, and protected calls.

  LuaJIT is a parameter.  A script that runs is seen through what it does to the host: it lets the instruction hook fire,
  calls a function of the host, or ends.  This is a codatatype, since a script need not end, and running it is a partial function:
  \<^const>\<open>None\<close> is a run that does not come back or whose behaviour is undefined.  The stack is a list with its top at the
  end, numbers are finite doubles, and \<^verbatim>\<open>size_t\<close> is a 64-bit word.

  The lemmas show that the allocator keeps the heap below its ceiling when it gets its own context, that \<open>Sandbox::create\<close> hands it
  another object and always fails, what a protected call leaves on the stack, and that a callback comes back when the script lets the error of
  the hook through.
\<close>

section \<open>Values\<close>

datatype lua_value =
    LNil
  | LBoolean bool
  | LNumber double
  | LString string
  | LTable "(lua_value \<times> lua_value) list"
  | LOther string

fun lua_typename :: "lua_value \<Rightarrow> string" where
  "lua_typename LNil = ''nil''"
| "lua_typename (LBoolean _) = ''boolean''"
| "lua_typename (LNumber _) = ''number''"
| "lua_typename (LString _) = ''string''"
| "lua_typename (LTable _) = ''table''"
| "lua_typename (LOther n) = n"

text \<open>\<^verbatim>\<open>lua_isstring\<close> also accepts numbers.\<close>

fun lua_isstring :: "lua_value \<Rightarrow> bool" where
  "lua_isstring (LString _) = True"
| "lua_isstring (LNumber _) = True"
| "lua_isstring _ = False"

section \<open>The allocator\<close>

record alloc_context =
  ac_ceiling_bytes :: u64
  ac_used_bytes :: u64
  ac_exhausted :: bool

text \<open>
  \<open>budget_alloc given ptr osize nsize ctx\<close>: \<open>ptr\<close> tells whether the block exists, \<open>given\<close> is what \<^verbatim>\<open>malloc\<close> or \<^verbatim>\<open>realloc\<close> answer for a
  size.  The first component tells whether a block is returned.
\<close>

definition budget_alloc :: "(u64 \<Rightarrow> bool) \<Rightarrow> bool \<Rightarrow> u64 \<Rightarrow> u64 \<Rightarrow> alloc_context \<Rightarrow> bool \<times> alloc_context" where
  "budget_alloc given ptr osize nsize ctx =
     (if nsize = 0 then (False, if ptr then ctx\<lparr>ac_used_bytes := ac_used_bytes ctx - osize\<rparr> else ctx)
      else if \<not> ptr then
        if ac_ceiling_bytes ctx < ac_used_bytes ctx + nsize then (False, ctx\<lparr>ac_exhausted := True\<rparr>)
        else if given nsize then (True, ctx\<lparr>ac_used_bytes := ac_used_bytes ctx + nsize\<rparr>) else (False, ctx)
      else if osize < nsize \<and> ac_ceiling_bytes ctx < ac_used_bytes ctx + (nsize - osize)
           then (False, ctx\<lparr>ac_exhausted := True\<rparr>)
      else if given nsize
           then (True, ctx\<lparr>ac_used_bytes := (if osize < nsize then ac_used_bytes ctx + (nsize - osize)
                                               else ac_used_bytes ctx - (osize - nsize))\<rparr>)
      else (False, ctx))"

section \<open>Per-state data and the hook\<close>

text \<open>Pointers are addresses; 0 is the null pointer.\<close>

record state_data =
  sd_sandbox :: u64
  sd_alloc :: alloc_context
  sd_instructions_remaining :: int
  sd_deadline :: int
  sd_in_callback :: bool

definition state_data_init :: state_data where
  "state_data_init = \<lparr>sd_sandbox = 0, sd_alloc = \<lparr>ac_ceiling_bytes = 0, ac_used_bytes = 0, ac_exhausted = False\<rparr>,
     sd_instructions_remaining = 0, sd_deadline = 0, sd_in_callback = False\<rparr>"

text \<open>
  The bytes of a \<open>StateData\<close> read as an \<open>AllocContext\<close>: the pointer to the sandbox is at offset 0, the ceiling at offset 8 and the
  used bytes, of which the lowest is read as the flag, at offset 16.
\<close>

definition as_alloc_context :: "state_data \<Rightarrow> alloc_context" where
  "as_alloc_context d = \<lparr>ac_ceiling_bytes = sd_sandbox d, ac_used_bytes = ac_ceiling_bytes (sd_alloc d),
     ac_exhausted = (ac_used_bytes (sd_alloc d) mod 256 \<noteq> 0)\<rparr>"

record budgets =
  bu_max_memory_bytes :: u64
  bu_max_string_bytes :: nat
  bu_max_instructions :: int
  bu_wall_clock_ms :: int

definition budgets_default :: budgets where
  "budgets_default = \<lparr>bu_max_memory_bytes = 1048576, bu_max_string_bytes = 8192, bu_max_instructions = 2000000,
     bu_wall_clock_ms = 200\<rparr>"

text \<open>The hook at time \<open>now\<close>; the second component tells whether it raises an error and marks the sandbox as aborted.\<close>

definition instruction_hook :: "int \<Rightarrow> state_data \<Rightarrow> state_data \<times> bool" where
  "instruction_hook now d =
     (if \<not> sd_in_callback d then (d, False)
      else let d = d\<lparr>sd_instructions_remaining := sd_instructions_remaining d - 1\<rparr>
           in (d, sd_instructions_remaining d \<le> 0 \<or> sd_deadline d < now))"

section \<open>Running scripts\<close>

datatype run_end = Results "lua_value list" | Raised lua_value | OutOfMemory

codatatype ('l, 'c, 'r) script =
    Done run_end 'l
  | Hook int "bool \<Rightarrow> ('l, 'c, 'r) script"
  | Call 'c "'r \<Rightarrow> ('l, 'c, 'r) script"

text \<open>\<open>perform\<close> is a call of a host function on the state of the host.\<close>

partial_function (option) run_script ::
  "('c \<Rightarrow> 'h \<Rightarrow> ('r \<times> 'h) option) \<Rightarrow> ('l, 'c, 'r) script \<Rightarrow> state_data \<Rightarrow> bool \<Rightarrow> 'h \<Rightarrow>
    (run_end \<times> 'l \<times> state_data \<times> bool \<times> 'h) option" where
  "run_script perform s d aborted h =
     (case s of
        Done e l \<Rightarrow> Some (e, l, d, aborted, h)
      | Hook now k \<Rightarrow>
          run_script perform (k (snd (instruction_hook now d))) (fst (instruction_hook now d))
            (aborted \<or> snd (instruction_hook now d)) h
      | Call c k \<Rightarrow>
          (case perform c h of
             None \<Rightarrow> None
           | Some (r, h') \<Rightarrow> run_script perform (k r) d aborted h'))"

section \<open>The sandbox\<close>

datatype ('l, 'c, 'r) slot =
    Value lua_value
  | Func "lua_value list \<Rightarrow> 'l \<Rightarrow> ('l, 'c, 'r) script"
  | Handler

fun slot_value :: "('l, 'c, 'r) slot \<Rightarrow> lua_value" where
  "slot_value (Value v) = v"
| "slot_value _ = LOther ''function''"

text \<open>What the interpreter provides: compiling a chunk, global functions, tracebacks, \<^verbatim>\<open>__tostring\<close>, and the text of a memory error.\<close>

record ('l, 'c, 'r) lua_vm =
  vm_compile :: "string \<Rightarrow> string \<Rightarrow> 'l \<Rightarrow> string option + (lua_value list \<Rightarrow> 'l \<Rightarrow> ('l, 'c, 'r) script)"
  vm_global :: "'l \<Rightarrow> string \<Rightarrow> (lua_value list \<Rightarrow> 'l \<Rightarrow> ('l, 'c, 'r) script) option"
  vm_traceback :: "lua_value \<Rightarrow> string"
  vm_tostring :: "lua_value \<Rightarrow> lua_value option"
  vm_memory_error :: string

record ('l, 'c, 'r) sandbox =
  sb_lua :: 'l
  sb_stack :: "('l, 'c, 'r) slot list"
  sb_data :: state_data
  sb_budgets :: budgets
  sb_aborted :: bool

datatype outcome = Ok | RuntimeError | BudgetExceeded

record sandbox_error =
  se_outcome :: outcome
  se_code :: string
  se_message :: string

definition sandbox_error_init :: sandbox_error where
  "sandbox_error_init = \<lparr>se_outcome = Ok, se_code = [], se_message = []\<rparr>"

definition host_error_handler :: "('l, 'c, 'r) lua_vm \<Rightarrow> lua_value \<Rightarrow> string" where
  "host_error_handler vm err =
     (if \<not> lua_isstring err
      then case vm_tostring vm err of
             Some (LString s) \<Rightarrow> s
           | _ \<Rightarrow> ''(error object: '' @ lua_typename err @ '')''
      else vm_traceback vm err)"

text \<open>Indices count from 1.\<close>

definition lua_insert :: "nat \<Rightarrow> 'v list \<Rightarrow> 'v list" where
  "lua_insert i xs = take (i - 1) xs @ last xs # drop (i - 1) (butlast xs)"

definition lua_remove :: "nat \<Rightarrow> 'v list \<Rightarrow> 'v list" where
  "lua_remove i xs = take (i - 1) xs @ drop i xs"

definition adjust :: "nat \<Rightarrow> lua_value list \<Rightarrow> lua_value list" where
  "adjust n vs = take n (vs @ replicate n LNil)"

definition run_error :: "('l, 'c, 'r) lua_vm \<Rightarrow> run_end \<Rightarrow> string" where
  "run_error vm e = (case e of Raised v \<Rightarrow> host_error_handler vm v | _ \<Rightarrow> vm_memory_error vm)"

text \<open>\<^verbatim>\<open>lua_pcall\<close> takes the function and its arguments off the stack and leaves the results or the message.\<close>

definition lua_pcall ::
  "('l, 'c, 'r) lua_vm \<Rightarrow> ('c \<Rightarrow> 'h \<Rightarrow> ('r \<times> 'h) option) \<Rightarrow> nat \<Rightarrow> nat \<Rightarrow> ('l, 'c, 'r) sandbox \<Rightarrow> 'h \<Rightarrow>
    (bool \<times> ('l, 'c, 'r) sandbox \<times> 'h) option" where
  "lua_pcall vm perform nargs nresults sb h =
     (let n = length (sb_stack sb) - nargs
      in case sb_stack sb ! (n - 1) of
           Func f \<Rightarrow>
             (case run_script perform (f (map slot_value (drop n (sb_stack sb))) (sb_lua sb)) (sb_data sb) (sb_aborted sb) h of
                None \<Rightarrow> None
              | Some (e, l, d, aborted, h') \<Rightarrow>
                  Some ((case e of Results _ \<Rightarrow> True | _ \<Rightarrow> False),
                    sb\<lparr>sb_lua := l, sb_data := d, sb_aborted := aborted,
                       sb_stack := take (n - 1) (sb_stack sb) @
                         (case e of Results vs \<Rightarrow> map Value (adjust nresults vs) | _ \<Rightarrow> [Value (LString (run_error vm e))])\<rparr>, h'))
         | _ \<Rightarrow> None)"

definition sandbox_pcall ::
  "('l, 'c, 'r) lua_vm \<Rightarrow> ('c \<Rightarrow> 'h \<Rightarrow> ('r \<times> 'h) option) \<Rightarrow> nat \<Rightarrow> nat \<Rightarrow> ('l, 'c, 'r) sandbox \<Rightarrow> 'h \<Rightarrow> sandbox_error \<Rightarrow>
    (outcome \<times> sandbox_error \<times> ('l, 'c, 'r) sandbox \<times> 'h) option" where
  "sandbox_pcall vm perform nargs nresults sb h error =
     (let base = length (sb_stack sb) - nargs;
          sb = sb\<lparr>sb_stack := lua_insert base (sb_stack sb @ [Handler])\<rparr>
      in case lua_pcall vm perform nargs nresults sb h of
           None \<Rightarrow> None
         | Some (ok, sb, h) \<Rightarrow>
             let sb = sb\<lparr>sb_stack := lua_remove base (sb_stack sb)\<rparr>
             in if ok then Some (Ok, error, sb, h)
                else let error = error\<lparr>se_message := (case slot_value (last (sb_stack sb)) of LString s \<Rightarrow> s | _ \<Rightarrow> ''unknown Lua error'')\<rparr>;
                         sb = sb\<lparr>sb_stack := butlast (sb_stack sb)\<rparr>
                     in if sb_aborted sb
                        then Some (BudgetExceeded, error\<lparr>se_outcome := BudgetExceeded, se_code := ''budget.exceeded''\<rparr>, sb, h)
                        else Some (RuntimeError, error\<lparr>se_outcome := RuntimeError, se_code := ''sandbox.runtime_error''\<rparr>, sb, h))"

definition begin_callback :: "int \<Rightarrow> ('l, 'c, 'r) sandbox \<Rightarrow> ('l, 'c, 'r) sandbox" where
  "begin_callback now sb = sb\<lparr>sb_data := (sb_data sb)\<lparr>sd_instructions_remaining := bu_max_instructions (sb_budgets sb),
     sd_deadline := now + bu_wall_clock_ms (sb_budgets sb) * 1000000, sd_in_callback := True\<rparr>\<rparr>"

definition end_callback :: "('l, 'c, 'r) sandbox \<Rightarrow> ('l, 'c, 'r) sandbox" where
  "end_callback sb = sb\<lparr>sb_data := (sb_data sb)\<lparr>sd_in_callback := False\<rparr>\<rparr>"

text \<open>\<open>load_source\<close> leaves the compiled chunk on the stack.\<close>

definition load_source ::
  "('l, 'c, 'r) lua_vm \<Rightarrow> string \<Rightarrow> string \<Rightarrow> ('l, 'c, 'r) sandbox \<Rightarrow> sandbox_error + ('l, 'c, 'r) sandbox" where
  "load_source vm name source sb =
     (if source \<noteq> [] \<and> hd source = CHR 0x1B
      then Inl \<lparr>se_outcome = RuntimeError, se_code = ''sandbox.bytecode_rejected'',
             se_message = ''bytecode input rejected; only source text may be loaded''\<rparr>
      else case vm_compile vm name source (sb_lua sb) of
             Inl message \<Rightarrow> Inl \<lparr>se_outcome = RuntimeError, se_code = ''sandbox.compile_error'',
               se_message = (case message of Some m \<Rightarrow> m | None \<Rightarrow> ''compile error'')\<rparr>
           | Inr chunk \<Rightarrow> Inr (sb\<lparr>sb_stack := sb_stack sb @ [Func chunk]\<rparr>))"

definition call_global ::
  "('l, 'c, 'r) lua_vm \<Rightarrow> ('c \<Rightarrow> 'h \<Rightarrow> ('r \<times> 'h) option) \<Rightarrow> int \<Rightarrow> string \<Rightarrow> nat \<Rightarrow> ('l, 'c, 'r) sandbox \<Rightarrow> 'h \<Rightarrow> sandbox_error \<Rightarrow>
    (bool \<times> sandbox_error \<times> ('l, 'c, 'r) sandbox \<times> 'h) option" where
  "call_global vm perform now name nresults sb h error =
     (case vm_global vm (sb_lua sb) name of
        None \<Rightarrow> Some (True, error, sb, h)
      | Some f \<Rightarrow>
          (case sandbox_pcall vm perform 0 nresults (begin_callback now (sb\<lparr>sb_stack := sb_stack sb @ [Func f]\<rparr>)) h error of
             None \<Rightarrow> None
           | Some (outcome, error, sb, h) \<Rightarrow> Some (outcome = Ok, error, end_callback sb, h)))"

section \<open>Creation\<close>

definition kForbiddenGlobals :: "string list" where
  "kForbiddenGlobals = [''io'', ''os'', ''package'', ''debug'', ''require'', ''dofile'', ''loadfile'', ''ffi'', ''jit'',
     ''collectgarbage'', ''newproxy'', ''load'', ''loadstring'', ''bit'']"

text \<open>A global is a table of functions or anything else.  What the openers of the libraries register is a parameter.\<close>

datatype global = GTable "string set" | GOther

type_synonym globals = "string \<Rightarrow> global option"

record lua_libs =
  ll_open :: "string \<Rightarrow> globals \<Rightarrow> globals \<times> global"
  ll_base :: "globals \<Rightarrow> globals"

definition scrub_globals :: "string list \<Rightarrow> globals \<Rightarrow> globals" where
  "scrub_globals names g = fold (\<lambda>n g. g(n := None)) names g"

definition open_one_lib :: "lua_libs \<Rightarrow> string \<Rightarrow> globals \<Rightarrow> globals" where
  "open_one_lib libs name g = (case ll_open libs name g of (g', v) \<Rightarrow> g'(name \<mapsto> v))"

definition open_curated_libs :: "lua_libs \<Rightarrow> globals \<Rightarrow> globals" where
  "open_curated_libs libs g =
     (let g = fold (open_one_lib libs) [''string'', ''table'', ''math''] g;
          g = scrub_globals kForbiddenGlobals (ll_base libs g)
      in case g ''string'' of
           Some (GTable fs) \<Rightarrow> g(''string'' \<mapsto> GTable (fs - {''dump''}))
         | _ \<Rightarrow> g)"

text \<open>
  \<^verbatim>\<open>lua_newstate\<close> first asks the allocator for a block of \<open>ce_state_size\<close> bytes and gives up when it is refused; \<open>ce_newstate\<close> is the
  rest of it on the context the allocator sees, and \<open>ce_globals\<close> changes the global table of a state.
\<close>

record 'l create_env =
  ce_new_data :: bool
  ce_malloc :: "u64 \<Rightarrow> bool"
  ce_state_size :: u64
  ce_newstate :: "alloc_context \<Rightarrow> ('l \<times> alloc_context) option"
  ce_globals :: "(globals \<Rightarrow> globals) \<Rightarrow> 'l \<Rightarrow> 'l"
  ce_libs :: lua_libs
  ce_new_sandbox :: "u64 option"

definition sandbox_create :: "'l create_env \<Rightarrow> budgets \<Rightarrow> ('l, 'c, 'r) sandbox option" where
  "sandbox_create env b =
     (if \<not> ce_new_data env then None
      else let d = state_data_init\<lparr>sd_alloc := (sd_alloc state_data_init)\<lparr>ac_ceiling_bytes := bu_max_memory_bytes b\<rparr>\<rparr>
           in case budget_alloc (ce_malloc env) False 0 (ce_state_size env) (as_alloc_context d) of
                (False, _) \<Rightarrow> None
              | (True, ctx) \<Rightarrow>
                  (case ce_newstate env ctx of
                     None \<Rightarrow> None
                   | Some (l, ctx) \<Rightarrow>
                       (case ce_new_sandbox env of
                          None \<Rightarrow> None
                        | Some address \<Rightarrow>
                            Some \<lparr>sb_lua = ce_globals env (open_curated_libs (ce_libs env)) l, sb_stack = [],
                              sb_data = d\<lparr>sd_sandbox := address,
                                sd_alloc := (sd_alloc d)\<lparr>ac_ceiling_bytes := ac_used_bytes ctx\<rparr>\<rparr>,
                              sb_budgets = b, sb_aborted = False\<rparr>)))"

lemma scrub_globals_apply: "scrub_globals names g n = (if n \<in> set names then None else g n)"
  unfolding scrub_globals_def by (induction names arbitrary: g) auto

lemma curated_globals:
  "n \<in> set kForbiddenGlobals \<Longrightarrow> open_curated_libs libs g n = None"
  "open_curated_libs libs g ''string'' = Some (GTable fs) \<Longrightarrow> ''dump'' \<notin> fs"
proof -
  have s: "''string'' \<notin> set kForbiddenGlobals" by (simp add: kForbiddenGlobals_def)
  show "n \<in> set kForbiddenGlobals \<Longrightarrow> open_curated_libs libs g n = None"
    using s by (auto simp: open_curated_libs_def Let_def scrub_globals_apply split: option.splits global.splits)
  show "open_curated_libs libs g ''string'' = Some (GTable fs) \<Longrightarrow> ''dump'' \<notin> fs"
    by (auto simp: open_curated_libs_def Let_def split: option.splits global.splits)
qed

section \<open>The heap\<close>

text \<open>
  The blocks the interpreter holds, with the allocator.  The interpreter passes the size of a block as it received it, and
  \<^verbatim>\<open>malloc\<close> never gives \<open>2\<^sup>6\<^sup>3\<close> bytes or more.
\<close>

datatype heap_op = HNew u64 bool | HRelease nat | HResize nat u64 bool

definition malloc_gives :: "bool \<Rightarrow> u64 \<Rightarrow> bool" where
  "malloc_gives ok n \<longleftrightarrow> ok \<and> unat n < 2 ^ 63"

fun heap_step :: "heap_op \<Rightarrow> u64 list \<times> alloc_context \<Rightarrow> u64 list \<times> alloc_context" where
  "heap_step (HNew n ok) (bs, ctx) =
     (case budget_alloc (malloc_gives ok) False 0 n ctx of (got, ctx) \<Rightarrow> (if got then bs @ [n] else bs, ctx))"
| "heap_step (HRelease i) (bs, ctx) =
     (if i < length bs then (take i bs @ drop (Suc i) bs, snd (budget_alloc (malloc_gives True) True (bs ! i) 0 ctx)) else (bs, ctx))"
| "heap_step (HResize i n ok) (bs, ctx) =
     (if i < length bs \<and> n \<noteq> 0
      then case budget_alloc (malloc_gives ok) True (bs ! i) n ctx of (got, ctx) \<Rightarrow> (if got then bs[i := n] else bs, ctx)
      else (bs, ctx))"

fun heap_inv :: "u64 list \<times> alloc_context \<Rightarrow> bool" where
  "heap_inv (bs, ctx) \<longleftrightarrow>
     unat (ac_used_bytes ctx) = sum_list (map unat bs) \<and> ac_used_bytes ctx \<le> ac_ceiling_bytes ctx
     \<and> unat (ac_ceiling_bytes ctx) < 2 ^ 63"

lemma add_below:
  fixes a b :: u64
  assumes "unat a < 2 ^ 63" "unat b < 2 ^ 63"
  shows "unat (a + b) = unat a + unat b"
  using assms by (subst unat_add_lem [THEN iffD1]) auto

lemma sum_take_drop: "i < length bs \<Longrightarrow> sum_list (take i bs @ drop (Suc i) bs) + bs ! i = sum_list (bs :: nat list)"
  by (subst (3) id_take_nth_drop [of i]) simp_all

lemma heap_new: "heap_inv s \<Longrightarrow> heap_inv (heap_step (HNew n ok) s)"
proof (cases s)
  case (Pair bs ctx)
  assume "heap_inv s"
  with Pair have used: "unat (ac_used_bytes ctx) < 2 ^ 63" by (auto simp: word_le_nat_alt)
  with Pair \<open>heap_inv s\<close> show ?thesis
    by (auto simp: budget_alloc_def malloc_gives_def add_below not_less)
qed

lemma heap_release: "heap_inv s \<Longrightarrow> heap_inv (heap_step (HRelease i) s)"
proof (cases s)
  case (Pair bs ctx)
  assume i: "heap_inv s"
  show ?thesis
  proof (cases "i < length bs")
    case True
    then have sum: "sum_list (map unat (take i bs @ drop (Suc i) bs)) + unat (bs ! i) = sum_list (map unat bs)"
      using sum_take_drop [of i "map unat bs"] by (simp add: take_map drop_map)
    then have "bs ! i \<le> ac_used_bytes ctx" using i Pair by (simp add: word_le_nat_alt)
    with sum i Pair True show ?thesis
      by (auto simp: budget_alloc_def unat_sub word_le_nat_alt)
  qed (use i Pair in simp)
qed

lemma resize_sum:
  assumes "i < length bs"
  shows "unat (bs ! i) \<le> sum_list (map unat bs)
    \<and> sum_list (map unat (bs[i := n])) = sum_list (map unat bs) - unat (bs ! i) + unat (n :: u64)"
proof -
  have "unat (bs ! i) \<le> sum_list (map unat bs)"
    using assms member_le_sum_list [of "unat (bs ! i)" "map unat bs"] by simp
  then show ?thesis using assms by (simp add: map_update sum_list_update)
qed

lemma heap_resize: "heap_inv s \<Longrightarrow> heap_inv (heap_step (HResize i n ok) s)"
proof (cases s)
  case (Pair bs ctx)
  assume inv: "heap_inv s"
  let ?u = "ac_used_bytes ctx" and ?c = "ac_ceiling_bytes ctx" and ?o = "bs ! i"
  show ?thesis
  proof (cases "i < length bs \<and> n \<noteq> 0 \<and> malloc_gives ok n \<and> \<not> (?o < n \<and> ?c < ?u + (n - ?o))")
    case True
    note sum = resize_sum [of i bs n]
    from True inv Pair sum have o: "unat ?o \<le> unat ?u" and u: "unat ?u \<le> unat ?c" "unat ?c < 2 ^ 63"
      by (auto simp: word_le_nat_alt)
    show ?thesis
    proof (cases "?o < n")
      case less: True
      then have d: "unat (n - ?o) = unat n - unat ?o" by (simp add: unat_sub word_less_nat_alt word_le_nat_alt)
      then have "unat (n - ?o) < 2 ^ 63" using True by (auto simp: malloc_gives_def)
      then have "unat (?u + (n - ?o)) = unat ?u + (unat n - unat ?o)" using add_below [of ?u "n - ?o"] u d by simp
      then show ?thesis
        using True inv Pair sum less o u by (auto simp: budget_alloc_def not_less word_less_nat_alt word_le_nat_alt)
    next
      case ge: False
      then have d: "unat (?o - n) = unat ?o - unat n" by (simp add: unat_sub word_less_nat_alt word_le_nat_alt)
      then have "unat (?u - (?o - n)) = unat ?u - (unat ?o - unat n)"
        using o by (subst unat_sub) (simp_all add: word_le_nat_alt)
      then show ?thesis
        using True inv Pair sum ge o u by (auto simp: budget_alloc_def word_le_nat_alt word_less_nat_alt not_less)
    qed
  qed (use inv Pair in \<open>auto simp: budget_alloc_def\<close>)
qed

interpretation lua_heap: step_invariant heap_step heap_inv
proof
  fix s op assume "heap_inv s"
  then show "heap_inv (heap_step op s)" by (cases op) (simp_all only: heap_new heap_release heap_resize)
qed

section \<open>Protected calls\<close>

lemma lua_insert_handler: "lua_insert (Suc (length pre)) ((pre @ f # args) @ [x]) = pre @ x # f # args"
  unfolding lua_insert_def butlast_snoc last_snoc by simp

lemma lua_remove_handler: "lua_remove (Suc (length pre)) (pre @ x # ys) = pre @ ys"
  by (simp add: lua_remove_def)

text \<open>
  A protected call takes the function and its arguments off the stack; on success the results take their place, on an error the
  stack is as it was below the function.
\<close>

lemma pcall_outcome:
  assumes "sb_stack sb = pre @ Func f # map Value args"
  shows "sandbox_pcall vm perform (length args) nresults sb h error =
    map_option (\<lambda>(e, l, d, aborted, h').
      let sb = sb\<lparr>sb_lua := l, sb_data := d, sb_aborted := aborted\<rparr>
      in case e of
           Results vs \<Rightarrow> (Ok, error, sb\<lparr>sb_stack := pre @ map Value (adjust nresults vs)\<rparr>, h')
         | _ \<Rightarrow> let oc = if aborted then BudgetExceeded else RuntimeError
                 in (oc, \<lparr>se_outcome = oc, se_code = if aborted then ''budget.exceeded'' else ''sandbox.runtime_error'',
                          se_message = run_error vm e\<rparr>, sb\<lparr>sb_stack := pre\<rparr>, h'))
      (run_script perform (f args (sb_lua sb)) (sb_data sb) (sb_aborted sb) h)"
proof -
  have base: "length (sb_stack sb) - length args = Suc (length pre)" using assms by simp
  have st: "lua_insert (Suc (length pre)) (sb_stack sb @ [Handler]) = pre @ Handler # Func f # map Value args"
    unfolding assms by (rule lua_insert_handler)
  have sv: "map slot_value (map Value args) = args" by (simp add: comp_def)
  show ?thesis
    unfolding sandbox_pcall_def base Let_def st lua_pcall_def
    by (auto simp: comp_def nth_append run_error_def lua_remove_def Let_def split: option.splits run_end.splits prod.splits)
qed

text \<open>A heap that is full ends a call like any other error: only the hook marks the sandbox.\<close>

lemma memory_is_runtime_error:
  assumes "sb_stack sb = [Func f]" "run_script perform (f [] (sb_lua sb)) (sb_data sb) False h = Some (OutOfMemory, l, d, False, h')"
    "\<not> sb_aborted sb"
  shows "\<exists>e sb'. sandbox_pcall vm perform 0 0 sb h error = Some (RuntimeError, e, sb', h')"
  using assms pcall_outcome [of sb "[]" f "[]" vm perform 0 h error] by (simp add: Let_def)

section \<open>The hook ends callbacks\<close>

text \<open>
  \<open>paced m n s\<close>: the script makes at most \<open>n\<close> calls of the host before the hook fires and at most \<open>m\<close> between two firings, and an
  error that the hook raises ends it.
\<close>

coinductive paced :: "nat \<Rightarrow> nat \<Rightarrow> ('l, 'c, 'r) script \<Rightarrow> bool" for m where
  paced_done: "paced m n (Done e l)"
| paced_hook: "k True = Done e l \<Longrightarrow> paced m m (k False) \<Longrightarrow> paced m n (Hook now k)"
| paced_call: "(\<And>r. paced m n (k r)) \<Longrightarrow> paced m (Suc n) (Call c k)"

inductive_cases paced_HookE: "paced m n (Hook now k)"
inductive_cases paced_CallE: "paced m n (Call c k)"

lemma run_Done [simp]: "run_script perform (Done e l) d ab h = Some (e, l, d, ab, h)"
  by (subst run_script.simps) simp

lemma run_Hook: "instruction_hook now d = (d', raised) \<Longrightarrow>
    run_script perform (Hook now k) d ab h = run_script perform (k raised) d' (ab \<or> raised) h"
  by (subst run_script.simps) simp

lemma run_Call: "perform c h = Some (r, h') \<Longrightarrow> run_script perform (Call c k) d ab h = run_script perform (k r) d ab h'"
  by (subst run_script.simps) simp

text \<open>The measure: the firings of the hook that are left, then the calls before the next one.\<close>

lemma paced_returns:
  assumes "paced m n s" "sd_in_callback d" "\<And>c h. perform c h \<noteq> None"
  shows "run_script perform s d ab h \<noteq> None"
  using assms(1,2)
proof (induction "nat (sd_instructions_remaining d)" arbitrary: s d n ab h rule: less_induct)
  case less
  note fewer = less.hyps and in_callback = less.prems(2)
  from less.prems(1) show ?case
  proof (induction n arbitrary: s h rule: less_induct)
    case (less n)
    show ?case
    proof (cases s)
      case (Hook now k)
      then obtain e l where k: "k True = Done e l" "paced m m (k False)"
        using less.prems by (auto elim: paced_HookE)
      obtain d' raised where hook: "instruction_hook now d = (d', raised)" by (cases "instruction_hook now d")
      show ?thesis
      proof (cases raised)
        case True
        with k(1) show ?thesis unfolding Hook run_Hook [OF hook] by simp
      next
        case False
        with hook in_callback have "sd_in_callback d'"
            "nat (sd_instructions_remaining d') < nat (sd_instructions_remaining d)"
          by (auto simp: instruction_hook_def Let_def)
        with fewer [of d' m "k False"] k(2) False show ?thesis unfolding Hook run_Hook [OF hook] by simp
      qed
    next
      case (Call c k)
      then obtain n' where n: "n = Suc n'" "\<And>r. paced m n' (k r)"
        using less.prems by (auto elim: paced_CallE)
      obtain r h' where "perform c h = Some (r, h')" using assms(3) [of c h] by auto
      with less.IH [of n'] n show ?thesis unfolding Call by (simp add: run_Call)
    qed simp
  qed
qed

text \<open>
  A script that catches the error of the hook and goes on does not end, although the hook raises at every
  firing once the budget is used up.
\<close>

primcorec evader :: "('l, 'c, 'r) script" where
  "evader = Hook 0 (\<lambda>_. evader)"

lemma evader_never_returns:
  fixes perform :: "'c \<Rightarrow> 'h \<Rightarrow> ('r \<times> 'h) option"
  shows "run_script perform (evader :: ('l, 'c, 'r) script) d ab h = None"
proof -
  have "s \<noteq> evader" if "run_script perform s d ab h = Some res" for s :: "('l, 'c, 'r) script" and d ab h res
    using that
    by (rule run_script.raw_induct [where P = "\<lambda>_ s _ _ _ _. s \<noteq> evader", rotated])
      (subst evader.code, fastforce split: script.splits)
  then show ?thesis by (metis not_Some_eq)
qed

section \<open>Creation fails\<close>

text \<open>
  No sandbox can be created.  \<open>Sandbox::create\<close> passes the \<open>StateData\<close> to an allocator that takes it for an
  \<open>AllocContext\<close>, whose ceiling is then the null pointer to the sandbox: the first block that \<^verbatim>\<open>lua_newstate\<close> asks
  for is refused, whatever the budgets are.
\<close>

lemma create_refused:
  assumes "ce_state_size env \<noteq> 0" "unat (bu_max_memory_bytes b) + unat (ce_state_size env) < 2 ^ 64"
  shows "sandbox_create env b = None"
proof -
  have "unat (bu_max_memory_bytes b + ce_state_size env) = unat (bu_max_memory_bytes b) + unat (ce_state_size env)"
    using assms(2) by (subst unat_add_lem [THEN iffD1]) auto
  moreover have "unat (ce_state_size env) \<noteq> 0" using assms(1) by (simp add: unat_eq_zero)
  ultimately have "bu_max_memory_bytes b + ce_state_size env \<noteq> 0" by (metis add_is_0 unat_0)
  then show ?thesis
    using assms(1) by (simp add: sandbox_create_def budget_alloc_def as_alloc_context_def state_data_init_def word_neq_0_conv Let_def)
qed

section \<open>Properties\<close>





end
