(* ===== verification/Ez_Lezcap.thy ===== *)
theory Ez_Lezcap
  imports Ez_Specgen Ez_Time Ez_LuaSandbox "HOL-Library.AList"
begin

unbundle bit_operations_syntax

text \<open>
  \<^verbatim>\<open>src/drivers/lua/bindings/lezcap.cpp\<close>: the functions a driver script can call.

  A binding takes the arguments on its stack and the host state of its driver, and gives the values it returns with the new
  state; \<^const>\<open>None\<close> is undefined behaviour, or a C++ exception that leaves the binding.  Tables are lists in the order in which \<^verbatim>\<open>lua_next\<close>
  visits them, without metatables.  The pointer to the host state is put into the registry before a script runs, so the
  branches for a missing one are left out.

  \<open>json_from_lua\<close> is called with the index \<open>-1\<close> for every table that is not the first argument.  It pushes nil before it calls
  \<^verbatim>\<open>lua_next\<close> with that index, which then means the nil and not the table: this is the case \<^const>\<open>None\<close>.

  The lemmas show which functions a manifest gives to a script, the limits every sequence of calls keeps, and that
  base64 is decoded to what was encoded.
\<close>

section \<open>Host state\<close>

record resource_limits =
  rl_max_endpoints :: u32
  rl_max_subscriptions :: u32
  rl_max_events_per_second :: u32
  rl_max_string_bytes :: nat

record capture_filter =
  fi_event_type :: string
  fi_transport :: string
  fi_min_confidence_permille :: u32

definition capture_filter_init :: capture_filter where
  "capture_filter_init = \<lparr>fi_event_type = [], fi_transport = [], fi_min_confidence_permille = 0\<rparr>"

record host_state =
  hs_manifest :: manifest
  hs_limits :: resource_limits
  hs_endpoints :: "endpoint list"
  hs_capture_filters :: "capture_filter list"
  hs_events_emitted :: u64
  hs_events_dropped :: u64
  hs_last_event_window_start_ms :: int
  hs_events_in_window :: u32

text \<open>
  What the bindings use of the interpreter and the libraries: the text of a number, the number a text stands for, the length of a
  table, and printing documents.  The registry holds the snapshots and the event sink.
\<close>

record bind_env =
  be_number_text :: "double \<Rightarrow> string"
  be_text_number :: "string \<Rightarrow> double option"
  be_objlen :: "(lua_value \<times> lua_value) list \<Rightarrow> nat"
  be_dump :: "json \<Rightarrow> string option"
  be_dump2 :: "json \<Rightarrow> string option"
  be_registry :: "string \<Rightarrow> lua_value option"

record clocks =
  ck_system :: time_point
  ck_steady :: int

type_synonym log_line = "level \<times> string"

section \<open>Arguments\<close>

definition arg :: "lua_value list \<Rightarrow> nat \<Rightarrow> lua_value" where
  "arg args i = (if i \<le> length args then args ! (i - 1) else LNil)"

fun lua_istable :: "lua_value \<Rightarrow> bool" where
  "lua_istable (LTable _) = True"
| "lua_istable _ = False"

text \<open>\<^verbatim>\<open>lua_tostring\<close> followed by \<^verbatim>\<open>strlen\<close>: the text ends at its first NUL.\<close>

fun lua_tostring :: "bind_env \<Rightarrow> lua_value \<Rightarrow> string option" where
  "lua_tostring be (LString s) = Some (c_str s)"
| "lua_tostring be (LNumber x) = Some (be_number_text be x)"
| "lua_tostring be _ = None"

fun lua_number :: "bind_env \<Rightarrow> lua_value \<Rightarrow> double option" where
  "lua_number be (LNumber x) = Some x"
| "lua_number be (LString s) = be_text_number be s"
| "lua_number be _ = None"

fun getfield :: "lua_value \<Rightarrow> string \<Rightarrow> lua_value" where
  "getfield (LTable kvs) k = (case map_of kvs (LString k) of None \<Rightarrow> LNil | Some v \<Rightarrow> v)"
| "getfield _ k = LNil"

definition lezcap_error :: "string \<Rightarrow> string \<Rightarrow> lua_value list" where
  "lezcap_error code message = [LNil, LString (code @ '': '' @ message)]"

definition lezcap_fail :: "string \<Rightarrow> string \<Rightarrow> lua_value list" where
  "lezcap_fail code message = [LNil, LString (code @ '': '' @ c_str message)]"

definition push_ok :: "lua_value list" where
  "push_ok = [LBoolean True, LNil]"

definition check_string :: "bind_env \<Rightarrow> lua_value \<Rightarrow> nat \<Rightarrow> lua_value list + string" where
  "check_string be v max_bytes =
     (case lua_tostring be v of
        None \<Rightarrow> Inl (lezcap_error ''argument.type'' ''expected a string'')
      | Some raw \<Rightarrow>
          if max_bytes < length raw then Inl (lezcap_error ''argument.too_long'' ''string exceeds the sandbox limit'')
          else Inr raw)"

text \<open>A field that is absent leaves \<open>out\<close> as it is; the flag tells whether it was present.\<close>

definition opt_table_string :: "bind_env \<Rightarrow> lua_value \<Rightarrow> string \<Rightarrow> nat \<Rightarrow> string \<Rightarrow> lua_value list + bool \<times> string" where
  "opt_table_string be t key max_bytes out =
     (let v = getfield t key
      in if v = LNil then Inr (False, out)
         else case lua_tostring be v of
                None \<Rightarrow> Inl (lezcap_fail ''argument.type'' (key @ '' must be a string''))
              | Some raw \<Rightarrow>
                  if max_bytes < length raw then Inl (lezcap_fail ''argument.too_long'' (key @ '' exceeds the sandbox limit''))
                  else Inr (True, raw))"

section \<open>Utilities\<close>

definition util_now_ms :: "clocks \<Rightarrow> lua_value list" where
  "util_now_ms ck = [LNumber (of_int (trunc_div (ck_system ck) 1000000))]"

definition util_now_rfc3339 :: "clocks \<Rightarrow> lua_value list" where
  "util_now_rfc3339 ck = [LString (to_rfc3339 (ck_system ck))]"

definition util_sha256_hex :: "bind_env \<Rightarrow> lua_value list \<Rightarrow> host_state \<Rightarrow> lua_value list option" where
  "util_sha256_hex be args h =
     (case check_string be (arg args 1) (rl_max_string_bytes (hs_limits h)) of
        Inl e \<Rightarrow> Some e
      | Inr input \<Rightarrow> map_option (\<lambda>d. [LString d]) (hex_digest input))"

definition kAlphabet :: string where
  "kAlphabet = ''ABCDEFGHIJKLMNOPQRSTUVWXYZabcdefghijklmnopqrstuvwxyz0123456789+/''"

definition byte :: "char \<Rightarrow> u32" where
  "byte c = of_nat (of_char c)"

definition sextet :: "nat \<Rightarrow> u32 \<Rightarrow> char" where
  "sextet k w = kAlphabet ! unat (drop_bit k w AND 0x3F)"

fun base64_encode :: "string \<Rightarrow> string" where
  "base64_encode (a # b # c # rest) =
     (let triple = push_bit 16 (byte a) OR push_bit 8 (byte b) OR byte c
      in sextet 18 triple # sextet 12 triple # sextet 6 triple # sextet 0 triple # base64_encode rest)"
| "base64_encode [a, b] =
     (let pair = push_bit 16 (byte a) OR push_bit 8 (byte b)
      in [sextet 18 pair, sextet 12 pair, sextet 6 pair, CHR ''=''])"
| "base64_encode [a] =
     (let pair = push_bit 16 (byte a) in [sextet 18 pair, sextet 12 pair, CHR ''='', CHR ''=''])"
| "base64_encode [] = []"

definition util_base64_encode :: "bind_env \<Rightarrow> lua_value list \<Rightarrow> host_state \<Rightarrow> lua_value list" where
  "util_base64_encode be args h =
     (case check_string be (arg args 1) (rl_max_string_bytes (hs_limits h)) of
        Inl e \<Rightarrow> e
      | Inr input \<Rightarrow> [LString (base64_encode input)])"

text \<open>A limit that does not fit \<^verbatim>\<open>size_t\<close> makes the conversion undefined.\<close>

definition util_truncate :: "bind_env \<Rightarrow> lua_value list \<Rightarrow> lua_value list option" where
  "util_truncate be args =
     (case lua_tostring be (arg args 1) of
        None \<Rightarrow> Some (lezcap_error ''argument.type'' ''expected a string'')
      | Some raw \<Rightarrow>
          if arg args 2 = LNil then Some [LString raw]
          else case lua_number be (arg args 2) of
                 None \<Rightarrow> Some (lezcap_error ''argument.type'' ''limit must be a number'')
               | Some limit \<Rightarrow>
                   if limit < 0 then Some (lezcap_error ''argument.range'' ''limit must be >= 0'')
                   else if 2 ^ 64 \<le> limit then None
                   else Some [LString (take (nat \<lfloor>limit\<rfloor>) raw)])"

section \<open>Logging\<close>

definition log_emit :: "bind_env \<Rightarrow> level \<Rightarrow> lua_value list \<Rightarrow> host_state \<Rightarrow> lua_value list \<times> log_line list" where
  "log_emit be lv args h =
     (case check_string be (arg args 1) (rl_max_string_bytes (hs_limits h)) of
        Inl e \<Rightarrow> (e, [])
      | Inr message \<Rightarrow> (push_ok, [(lv, ''lua.driver['' @ mf_name (hs_manifest h) @ ''] '' @ message)]))"

section \<open>Documents from tables\<close>

text \<open>\<open>absolute\<close> tells whether the index of the value is positive.  Only then can a table be traversed.\<close>

fun json_scalar :: "lua_value \<Rightarrow> string + json" where
  "json_scalar LNil = Inr JNull"
| "json_scalar (LBoolean b) = Inr (JBool b)"
| "json_scalar (LNumber x) = Inr (JFloat x)"
| "json_scalar (LString s) =
     (if 8192 < length (c_str s) then Inl ''string exceeds the sandbox limit'' else Inr (JString (c_str s)))"
| "json_scalar _ = Inl ''unsupported value type in descriptor''"

text \<open>The elements of a table that is traversed are at index \<open>-1\<close>.\<close>

definition json_element :: "lua_value \<Rightarrow> nat \<Rightarrow> (string + json) option" where
  "json_element v depth =
     (if 16 < depth then Some (Inl ''value nesting exceeds the descriptor limit'')
      else if lua_istable v then None
      else Some (json_scalar v))"

fun json_elements :: "lua_value list \<Rightarrow> nat \<Rightarrow> (string + json list) option" where
  "json_elements [] depth = Some (Inr [])"
| "json_elements (v # vs) depth =
     (case json_element v depth of
        None \<Rightarrow> None
      | Some (Inl e) \<Rightarrow> Some (Inl e)
      | Some (Inr j) \<Rightarrow> map_option (\<lambda>r. res_bind r (\<lambda>js. Inr (j # js))) (json_elements vs depth))"

text \<open>A number as a key is turned into a text in place, which breaks the traversal.\<close>

fun json_members :: "(lua_value \<times> lua_value) list \<Rightarrow> nat \<Rightarrow> json \<Rightarrow> (string + json) option" where
  "json_members [] depth out = Some (Inr out)"
| "json_members ((k, v) # kvs) depth out =
     (case k of
        LString key \<Rightarrow>
          (case json_element v depth of
             None \<Rightarrow> None
           | Some (Inl e) \<Rightarrow> Some (Inl e)
           | Some (Inr j) \<Rightarrow> json_members kvs depth (assign (c_str key) j out))
      | LNumber _ \<Rightarrow> None
      | _ \<Rightarrow> Some (Inl ''table keys must be strings''))"

definition json_from_lua :: "bool \<Rightarrow> lua_value \<Rightarrow> nat \<Rightarrow> (string + json) option" where
  "json_from_lua absolute v depth =
     (if 16 < depth then Some (Inl ''value nesting exceeds the descriptor limit'')
      else case v of
             LTable kvs \<Rightarrow>
               if \<not> absolute then None
               else (case kvs of
                       [] \<Rightarrow> Some (Inr empty_object)
                     | (LNumber _, _) # _ \<Rightarrow> map_option (\<lambda>r. res_bind r (\<lambda>js. Inr (JArray js))) (json_elements (map snd kvs) (depth + 1))
                     | _ \<Rightarrow> json_members kvs (depth + 1) empty_object)
           | _ \<Rightarrow> Some (json_scalar v))"

definition probe_descriptor :: "json \<Rightarrow> json" where
  "probe_descriptor shape = obj_of [(''name'', JString ''probe''), (''namespace'', JString ''probe''), (''version'', JString ''1.0''),
     (''kind'', JString ''operation''), (''summary'', JString ''probe''), (''metadata_only'', JBool True), (''request'', shape)]"

definition schema_subset_from_lua :: "bool \<Rightarrow> lua_value \<Rightarrow> nat \<Rightarrow> (string + json) option" where
  "schema_subset_from_lua absolute v depth =
     (if \<not> lua_istable v then Some (Inl ''schema must be a table'')
      else case json_from_lua absolute v depth of
             None \<Rightarrow> None
           | Some (Inl e) \<Rightarrow> Some (Inl e)
           | Some (Inr out) \<Rightarrow>
               Some (res_bind (validate_endpoint_descriptor (probe_descriptor out)) (\<lambda>_. Inr out)))"

section \<open>Endpoints\<close>

definition kRequired :: "string list" where
  "kRequired = [''name'', ''namespace'', ''version'', ''kind'', ''summary'']"

text \<open>The loop over the required fields also leaves the last text in \<open>value\<close>.\<close>

fun required_fields :: "bind_env \<Rightarrow> lua_value \<Rightarrow> string list \<Rightarrow> json \<Rightarrow> string \<Rightarrow> lua_value list + json \<times> string" where
  "required_fields be t [] doc value = Inr (doc, value)"
| "required_fields be t (key # keys) doc value =
     res_bind (opt_table_string be t key 256 value) (\<lambda>(present, value).
       if \<not> present then Inl (lezcap_fail ''argument.missing'' (key @ '' is required''))
       else required_fields be t keys (assign key (JString value) doc) value)"

definition optional_field :: "bind_env \<Rightarrow> lua_value \<Rightarrow> string \<Rightarrow> nat \<Rightarrow> json \<times> string \<Rightarrow> lua_value list + json \<times> string" where
  "optional_field be t key max_bytes dv =
     (case dv of (doc, value) \<Rightarrow>
        res_bind (opt_table_string be t key max_bytes value) (\<lambda>(present, value).
          Inr (if value = [] then (doc, value) else (assign key (JString value) doc, []))))"

definition schema_field :: "lua_value \<Rightarrow> string \<Rightarrow> json \<Rightarrow> (lua_value list + json) option" where
  "schema_field t key doc =
     (let v = getfield t key
      in if v = LNil then Some (Inr doc)
         else map_option (\<lambda>r. case r of Inl e \<Rightarrow> Inl (lezcap_fail ''argument.schema'' e) | Inr shape \<Rightarrow> Inr (assign key shape doc))
                (schema_subset_from_lua False v 0))"

definition list_field :: "lua_value \<Rightarrow> string \<Rightarrow> json \<Rightarrow> (lua_value list + json) option" where
  "list_field t key doc =
     (let v = getfield t key
      in if v = LNil then Some (Inr doc)
         else if \<not> lua_istable v then Some (Inl (lezcap_fail ''argument.type'' (key @ '' must be an array'')))
         else map_option (\<lambda>r. case r of Inl e \<Rightarrow> Inl (lezcap_fail ''argument.type'' e) | Inr l \<Rightarrow> Inr (assign key l doc))
                (json_from_lua False v 1))"

text \<open>Sequencing of steps that may be undefined, fail with the values to return, or go on.\<close>

definition then_step :: "(lua_value list + 'a) option \<Rightarrow> ('a \<Rightarrow> (lua_value list + 'b) option) \<Rightarrow> (lua_value list + 'b) option" where
  "then_step m f = (case m of None \<Rightarrow> None | Some (Inl e) \<Rightarrow> Some (Inl e) | Some (Inr x) \<Rightarrow> f x)"

definition descriptor_of_table :: "bind_env \<Rightarrow> lua_value \<Rightarrow> (lua_value list + json) option" where
  "descriptor_of_table be t =
     then_step (Some (res_bind (required_fields be t kRequired empty_object []) (\<lambda>dv.
        res_bind (optional_field be t ''description'' 2048 dv) (optional_field be t ''confidence'' 256)))) (\<lambda>(doc, _).
     if getfield t ''metadata_only'' = LBoolean False
     then Some (Inl (lezcap_error ''policy.violation'' ''metadata_only cannot be false''))
     else
       then_step (schema_field t ''request'' (assign ''metadata_only'' (JBool True) doc)) (\<lambda>doc.
       then_step (schema_field t ''response'' doc) (\<lambda>doc.
       then_step (list_field t ''attribution'' doc) (list_field t ''privacy''))))"

definition endpoint_declare :: "bind_env \<Rightarrow> lua_value list \<Rightarrow> host_state \<Rightarrow> (lua_value list \<times> host_state) option" where
  "endpoint_declare be args h =
     (if \<not> lua_istable (arg args 1) then Some (lezcap_error ''argument.type'' ''descriptor must be a table'', h)
      else if unat (rl_max_endpoints (hs_limits h)) \<le> length (hs_endpoints h)
      then Some (lezcap_error ''limit.endpoints'' ''endpoint limit reached'', h)
      else case descriptor_of_table be (arg args 1) of
             None \<Rightarrow> None
           | Some (Inl e) \<Rightarrow> Some (e, h)
           | Some (Inr doc) \<Rightarrow>
               (case parse_endpoint_descriptor doc of
                  Inl e \<Rightarrow> Some (lezcap_fail ''argument.invalid'' e, h)
                | Inr d \<Rightarrow> Some (push_ok, h\<lparr>hs_endpoints := hs_endpoints h @ [d]\<rparr>)))"

section \<open>Specifications\<close>

definition spec_list_formats :: "lua_value list" where
  "spec_list_formats = [LTable (map (\<lambda>(i, f). (LNumber (of_nat i), LString f)) (enumerate 1 list_formats))]"

fun rawgeti :: "(lua_value \<times> lua_value) list \<Rightarrow> nat \<Rightarrow> lua_value" where
  "rawgeti kvs i = (case map_of kvs (LNumber (of_nat i)) of None \<Rightarrow> LNil | Some v \<Rightarrow> v)"

fun spec_endpoints :: "lua_value list \<Rightarrow> (lua_value list + endpoint list) option" where
  "spec_endpoints [] = Some (Inr [])"
| "spec_endpoints (v # vs) =
     (if \<not> lua_istable v then Some (Inl (lezcap_fail ''argument.invalid'' ''endpoints must be tables''))
      else case json_from_lua False v 0 of
             None \<Rightarrow> None
           | Some (Inl e) \<Rightarrow> Some (Inl (lezcap_fail ''argument.invalid'' e))
           | Some (Inr doc) \<Rightarrow>
               (case parse_endpoint_descriptor doc of
                  Inl e \<Rightarrow> Some (Inl (lezcap_fail ''argument.invalid'' e))
                | Inr d \<Rightarrow> map_option (\<lambda>r. res_bind r (\<lambda>ds. Inr (d # ds))) (spec_endpoints vs)))"

definition spec_context :: "host_state \<Rightarrow> generation_context" where
  "spec_context h = \<lparr>gc_source = ''driver:'' @ mf_name (hs_manifest h), gc_generator_version = kVersionString, gc_schema_version = 1\<rparr>"

definition spec_generate :: "bind_env \<Rightarrow> lua_value list \<Rightarrow> host_state \<Rightarrow> lua_value list option" where
  "spec_generate be args h =
     (case lua_tostring be (arg args 1) of
        None \<Rightarrow> Some (lezcap_error ''argument.type'' ''format must be a string'')
      | Some format_raw \<Rightarrow>
          (case format_from_id format_raw of
             None \<Rightarrow> Some (lezcap_error ''argument.unknown_format'' ''format is not an allowed emitter'')
           | Some fmt \<Rightarrow>
               (case arg args 2 of
                  LTable kvs \<Rightarrow>
                    if 256 < be_objlen be kvs then Some (lezcap_error ''limit.endpoints'' ''too many endpoints'')
                    else (case spec_endpoints (map (rawgeti kvs) [1..<Suc (be_objlen be kvs)]) of
                            None \<Rightarrow> None
                          | Some (Inl e) \<Rightarrow> Some e
                          | Some (Inr ds) \<Rightarrow>
                              (case generate (be_dump2 be) fmt ds (spec_context h) of
                                 None \<Rightarrow> None
                               | Some (Inl e) \<Rightarrow> Some (lezcap_fail ''specgen.error'' e)
                               | Some (Inr out) \<Rightarrow>
                                   if 524288 < length out
                                   then Some (lezcap_error ''limit.output'' ''generated spec exceeds size cap'')
                                   else Some [LString out]))
                | _ \<Rightarrow> Some (lezcap_error ''argument.type'' ''endpoints must be a table''))))"

section \<open>Capture filters\<close>

text \<open>Products below \<open>2\<^sup>6\<^sup>4\<close>, rounded to 53 significant bits.\<close>

fun scale_down :: "nat \<Rightarrow> rat \<Rightarrow> nat \<times> rat" where
  "scale_down 0 x = (0, x)"
| "scale_down (Suc n) x = (if 2 \<le> x then (case scale_down n (x / 2) of (k, y) \<Rightarrow> (Suc k, y)) else (0, x))"

definition fmul :: "double \<Rightarrow> double \<Rightarrow> double" where
  "fmul x y = (case scale_down 63 (x * y) of (k, m) \<Rightarrow> 2 ^ k * rnd m)"

definition filter_name :: "bind_env \<Rightarrow> lua_value \<Rightarrow> string \<Rightarrow> nat \<Rightarrow> (string \<Rightarrow> bool) \<Rightarrow> lua_value list + string" where
  "filter_name be t key max_bytes known =
     res_bind (opt_table_string be t key max_bytes []) (\<lambda>(present, value).
       if value \<noteq> [] \<and> \<not> known value then Inl (lezcap_fail ''argument.invalid'' (''unknown '' @ key)) else Inr value)"

definition filter_confidence :: "bind_env \<Rightarrow> lua_value \<Rightarrow> lua_value list + u32" where
  "filter_confidence be t =
     (let v = getfield t ''min_confidence''
      in if v = LNil then Inr 0
         else case lua_number be v of
                None \<Rightarrow> Inl (lezcap_error ''argument.type'' ''min_confidence must be a number in [0, 1]'')
              | Some confidence \<Rightarrow>
                  if confidence < 0 \<or> 1 < confidence
                  then Inl (lezcap_error ''argument.range'' ''min_confidence must be in [0, 1]'')
                  else Inr (word_of_int \<lfloor>fmul confidence 1000\<rfloor>))"

definition capture_register_filter :: "bind_env \<Rightarrow> lua_value list \<Rightarrow> host_state \<Rightarrow> lua_value list \<times> host_state" where
  "capture_register_filter be args h =
     (if \<not> lua_istable (arg args 1) then (lezcap_error ''argument.type'' ''filter must be a table'', h)
      else if unat (rl_max_subscriptions (hs_limits h)) \<le> length (hs_capture_filters h)
      then (lezcap_error ''limit.subscriptions'' ''filter limit reached'', h)
      else case res_bind (filter_name be (arg args 1) ''event_type'' 32 (\<lambda>s. event_type_from_name s \<noteq> None)) (\<lambda>type.
                res_bind (filter_name be (arg args 1) ''transport'' 8 (\<lambda>s. transport_from_name s \<noteq> None)) (\<lambda>transport.
                res_bind (filter_confidence be (arg args 1)) (\<lambda>permille.
                  Inr \<lparr>fi_event_type = type, fi_transport = transport, fi_min_confidence_permille = permille\<rparr>))) of
             Inl e \<Rightarrow> (e, h)
           | Inr f \<Rightarrow> (push_ok, h\<lparr>hs_capture_filters := hs_capture_filters h @ [f]\<rparr>))"

section \<open>Policy, events and status\<close>

definition registry_value :: "bind_env \<Rightarrow> string \<Rightarrow> string \<Rightarrow> string \<Rightarrow> lua_value list" where
  "registry_value be key code message =
     (case be_registry be key of Some v \<Rightarrow> [v] | None \<Rightarrow> lezcap_error code message)"

definition policy_query :: "bind_env \<Rightarrow> lua_value list" where
  "policy_query be = registry_value be ''ezcap.driver.policy_snapshot'' ''policy.unavailable'' ''no policy snapshot''"

definition status_backends :: "bind_env \<Rightarrow> lua_value list" where
  "status_backends be = registry_value be ''ezcap.driver.status_snapshot'' ''status.unavailable'' ''no status snapshot''"

definition open_window :: "int \<Rightarrow> host_state \<Rightarrow> host_state" where
  "open_window now_ms h =
     (if 1000 \<le> now_ms - hs_last_event_window_start_ms h
      then h\<lparr>hs_last_event_window_start_ms := now_ms, hs_events_in_window := 0\<rparr> else h)"

text \<open>The event sink is never put into the registry, so the printed event goes nowhere.\<close>

definition event_emit :: "bind_env \<Rightarrow> clocks \<Rightarrow> lua_value list \<Rightarrow> host_state \<Rightarrow> (lua_value list \<times> host_state) option" where
  "event_emit be ck args h =
     (if \<not> lua_istable (arg args 1) then Some (lezcap_error ''argument.type'' ''event must be a table'', h)
      else let h = open_window (trunc_div (ck_steady ck) 1000000) h;
               rate = rl_max_events_per_second (hs_limits h)
           in if 0 < rate \<and> rate \<le> hs_events_in_window h
              then Some (lezcap_error ''limit.rate'' ''event rate limit reached'', h\<lparr>hs_events_dropped := hs_events_dropped h + 1\<rparr>)
              else let h = h\<lparr>hs_events_in_window := hs_events_in_window h + 1, hs_events_emitted := hs_events_emitted h + 1\<rparr>
                   in case json_from_lua True (arg args 1) 0 of
                        None \<Rightarrow> None
                      | Some (Inl e) \<Rightarrow> Some (lezcap_fail ''argument.invalid'' e, h)
                      | Some (Inr doc) \<Rightarrow>
                          (case be_dump be doc of
                             None \<Rightarrow> None
                           | Some printed \<Rightarrow>
                               if 32768 < length printed
                               then Some (lezcap_error ''limit.size'' ''event exceeds size cap'', h\<lparr>hs_events_dropped := hs_events_dropped h + 1\<rparr>)
                               else Some (push_ok, h)))"

section \<open>Registration\<close>

datatype binding =
    Util_now_ms | Util_now_rfc3339 | Util_sha256_hex | Util_base64_encode | Util_truncate
  | Log_info | Log_warn | Log_error | Log_debug
  | Endpoint_declare | Spec_list_formats | Spec_generate | Capture_register_filter
  | Policy_query | Event_emit | Status_backends

type_synonym lezcap_table = "(string \<times> (string \<times> binding) list) list"

definition register_module :: "string \<Rightarrow> (string \<times> binding) list \<Rightarrow> lezcap_table \<Rightarrow> lezcap_table" where
  "register_module name functions tbl = AList.update name functions tbl"

definition util_functions :: "(string \<times> binding) list" where
  "util_functions = [(''now_ms'', Util_now_ms), (''now_rfc3339'', Util_now_rfc3339), (''sha256_hex'', Util_sha256_hex),
     (''base64_encode'', Util_base64_encode), (''truncate'', Util_truncate)]"

definition log_functions :: "(string \<times> binding) list" where
  "log_functions = [(''info'', Log_info), (''warn'', Log_warn), (''error'', Log_error), (''debug'', Log_debug)]"

definition modules :: "(capability \<times> string \<times> (string \<times> binding) list) list" where
  "modules = [(Util, ''util'', util_functions), (Log, ''log'', log_functions),
     (Endpoint, ''endpoint'', [(''declare'', Endpoint_declare)]),
     (Spec, ''spec'', [(''list_formats'', Spec_list_formats), (''generate'', Spec_generate)]),
     (Capture, ''capture'', [(''register_filter'', Capture_register_filter)]),
     (Policy, ''policy'', [(''query'', Policy_query)]),
     (Events, ''event'', [(''emit'', Event_emit)]),
     (Status, ''status'', [(''backends'', Status_backends)]),
     (Dns_cap, ''dns'', []), (Process, ''process'', [])]"

definition register_lezcap :: "manifest \<Rightarrow> lezcap_table" where
  "register_lezcap m = fold (\<lambda>(c, name, fs) tbl. if c \<in> mf_capabilities m then register_module name fs tbl else tbl) modules []"

text \<open>The registry a script starts with holds the policy snapshot and nothing else of the three.\<close>

definition policy_registry :: "(json \<Rightarrow> string option) \<Rightarrow> policy \<Rightarrow> (string \<Rightarrow> lua_value option) option" where
  "policy_registry dump po = map_option (\<lambda>t. [''ezcap.driver.policy_snapshot'' \<mapsto> LString t]) (dump (policy_to_json po))"

section \<open>Calls\<close>

definition keep :: "host_state \<Rightarrow> log_line list \<Rightarrow> lua_value list option \<Rightarrow> (lua_value list \<times> host_state \<times> log_line list) option" where
  "keep h logs r = map_option (\<lambda>vs. (vs, h, logs)) r"

definition update_host :: "log_line list \<Rightarrow> (lua_value list \<times> host_state) option \<Rightarrow> (lua_value list \<times> host_state \<times> log_line list) option" where
  "update_host logs r = map_option (\<lambda>(vs, h). (vs, h, logs)) r"

definition logged :: "host_state \<Rightarrow> log_line list \<Rightarrow> lua_value list \<times> log_line list \<Rightarrow> (lua_value list \<times> host_state \<times> log_line list) option" where
  "logged h logs r = Some (fst r, h, logs @ snd r)"

fun call_binding :: "bind_env \<Rightarrow> clocks \<Rightarrow> binding \<Rightarrow> lua_value list \<Rightarrow> host_state \<times> log_line list \<Rightarrow>
    (lua_value list \<times> host_state \<times> log_line list) option" where
  "call_binding be ck Util_now_ms args (h, logs) = keep h logs (Some (util_now_ms ck))"
| "call_binding be ck Util_now_rfc3339 args (h, logs) = keep h logs (Some (util_now_rfc3339 ck))"
| "call_binding be ck Util_sha256_hex args (h, logs) = keep h logs (util_sha256_hex be args h)"
| "call_binding be ck Util_base64_encode args (h, logs) = keep h logs (Some (util_base64_encode be args h))"
| "call_binding be ck Util_truncate args (h, logs) = keep h logs (util_truncate be args)"
| "call_binding be ck Log_info args (h, logs) = logged h logs (log_emit be LvInfo args h)"
| "call_binding be ck Log_warn args (h, logs) = logged h logs (log_emit be LvWarn args h)"
| "call_binding be ck Log_error args (h, logs) = logged h logs (log_emit be LvError args h)"
| "call_binding be ck Log_debug args (h, logs) = logged h logs (log_emit be LvDebug args h)"
| "call_binding be ck Endpoint_declare args (h, logs) = update_host logs (endpoint_declare be args h)"
| "call_binding be ck Spec_list_formats args (h, logs) = keep h logs (Some spec_list_formats)"
| "call_binding be ck Spec_generate args (h, logs) = keep h logs (spec_generate be args h)"
| "call_binding be ck Capture_register_filter args (h, logs) = update_host logs (Some (capture_register_filter be args h))"
| "call_binding be ck Policy_query args (h, logs) = keep h logs (Some (policy_query be))"
| "call_binding be ck Event_emit args (h, logs) = update_host logs (event_emit be ck args h)"
| "call_binding be ck Status_backends args (h, logs) = keep h logs (Some (status_backends be))"

text \<open>
  A script reaches a function through its name in the \<open>lezcap\<close> table.  A name that is not there is nil, and calling it is an error
  inside the script that the host does not see.
\<close>

record lezcap_call =
  lc_module :: string
  lc_function :: string
  lc_args :: "lua_value list"
  lc_clocks :: clocks

definition find_binding :: "lezcap_table \<Rightarrow> string \<Rightarrow> string \<Rightarrow> binding option" where
  "find_binding tbl m f = (case map_of tbl m of None \<Rightarrow> None | Some fs \<Rightarrow> map_of fs f)"

definition perform :: "bind_env \<Rightarrow> lezcap_table \<Rightarrow> lezcap_call \<Rightarrow> host_state \<times> log_line list \<Rightarrow>
    (lua_value list \<times> host_state \<times> log_line list) option" where
  "perform be tbl c s =
     (case find_binding tbl (lc_module c) (lc_function c) of
        None \<Rightarrow> Some ([], s)
      | Some b \<Rightarrow> call_binding be (lc_clocks c) b (lc_args c) s)"

fun perform_all :: "bind_env \<Rightarrow> lezcap_table \<Rightarrow> lezcap_call list \<Rightarrow> host_state \<times> log_line list \<Rightarrow> (host_state \<times> log_line list) option" where
  "perform_all be tbl [] s = Some s"
| "perform_all be tbl (c # cs) s = (case perform be tbl c s of None \<Rightarrow> None | Some (_, s') \<Rightarrow> perform_all be tbl cs s')"

section \<open>Base64\<close>

text \<open>The decoder of RFC 4648 for padded texts.\<close>

definition sextet_value :: "char \<Rightarrow> nat option" where
  "sextet_value c = first_idx ((=) c) kAlphabet"

definition decode3 :: "nat \<Rightarrow> nat \<Rightarrow> nat \<Rightarrow> nat \<Rightarrow> string" where
  "decode3 p q r s = [char_of (p * 4 + q div 16), char_of (q mod 16 * 16 + r div 4), char_of (r mod 4 * 64 + s)]"

fun base64_decode :: "string \<Rightarrow> string option" where
  "base64_decode [] = Some []"
| "base64_decode (w # x # y # z # rest) =
     (case (sextet_value w, sextet_value x, sextet_value y, sextet_value z) of
        (Some p, Some q, Some r, Some s) \<Rightarrow> map_option (\<lambda>t. decode3 p q r s @ t) (base64_decode rest)
      | (Some p, Some q, Some r, None) \<Rightarrow> if z = CHR ''='' \<and> rest = [] then Some (take 2 (decode3 p q r 0)) else None
      | (Some p, Some q, None, None) \<Rightarrow> if y = CHR ''='' \<and> z = CHR ''='' \<and> rest = [] then Some (take 1 (decode3 p q 0 0)) else None
      | _ \<Rightarrow> None)"
| "base64_decode _ = None"

lemma first_idx_distinct: "distinct xs \<Longrightarrow> i < length xs \<Longrightarrow> first_idx ((=) (xs ! i)) xs = Some i"
proof (induction xs arbitrary: i)
  case (Cons x xs)
  then show ?case by (cases i) auto
qed simp

lemma alphabet: "distinct kAlphabet" "length kAlphabet = 64" "CHR ''='' \<notin> set kAlphabet"
  by code_simp+

lemma sextet_value_nth [simp]: "i < 64 \<Longrightarrow> sextet_value (kAlphabet ! i) = Some i"
  using first_idx_distinct [OF alphabet(1)] by (simp add: sextet_value_def alphabet(2))

lemma sextet_value_pad [simp]: "sextet_value (CHR ''='') = None"
  using alphabet(3) by (auto simp: sextet_value_def first_idx_None)

lemma unat_byte: "unat (byte c) = of_char c"
proof -
  have "of_char c < (2 ^ 32 :: nat)" by (rule less_le_trans [OF nat_of_char_less_256]) simp
  then show ?thesis by (simp add: byte_def unat_of_nat)
qed

lemma byte_less: "unat (byte c) < 256"
  by (simp add: unat_byte nat_of_char_less_256)

lemma byte_bit: "bit (byte c) n \<Longrightarrow> n < 8"
proof -
  have "take_bit 8 (byte c) = byte c"
    using byte_less [of c] by (simp add: word_unat_eq_iff unsigned_take_bit_eq take_bit_nat_eq_self_iff)
  then show "bit (byte c) n \<Longrightarrow> n < 8" by (metis bit_take_bit_iff)
qed

lemma unat_push_byte: "k \<le> 16 \<Longrightarrow> unat (push_bit k (byte c)) = unat (byte c) * 2 ^ k"
proof -
  assume "k \<le> 16"
  then have "unat (byte c) * 2 ^ k < 2 ^ 8 * 2 ^ 16"
    using byte_less [of c] power_increasing [of k 16 "2 :: nat"] by (intro mult_less_le_imp_less) simp_all
  then show ?thesis unfolding unsigned_push_bit_eq by (simp add: push_bit_eq_mult take_bit_nat_eq_self_iff)
qed

lemma unat_triple:
  "unat (push_bit 16 (byte a) OR push_bit 8 (byte b) OR byte c) = unat (byte a) * 65536 + unat (byte b) * 256 + unat (byte c)"
proof -
  have "push_bit 8 (byte b) OR byte c = push_bit 8 (byte b) + byte c"
    by (rule disjunctive_add [symmetric]) (auto simp: bit_push_bit_iff dest: byte_bit)
  moreover have "push_bit 16 (byte a) OR (push_bit 8 (byte b) OR byte c) = push_bit 16 (byte a) + (push_bit 8 (byte b) OR byte c)"
    by (rule disjunctive_add [symmetric]) (auto simp: bit_push_bit_iff bit_or_iff dest: byte_bit)
  ultimately have w: "push_bit 16 (byte a) OR push_bit 8 (byte b) OR byte c = push_bit 16 (byte a) + (push_bit 8 (byte b) + byte c)"
    by (simp add: or.assoc)
  have s: "unat (push_bit 16 (byte a)) + (unat (push_bit 8 (byte b)) + unat (byte c)) < 2 ^ 32"
    using byte_less [of a] byte_less [of b] byte_less [of c] by (simp add: unat_push_byte)
  show ?thesis unfolding w
    using s by (simp add: unat_word_ariths unat_push_byte)
qed

lemma sextet_eq: "sextet k w = kAlphabet ! (unat w div 2 ^ k mod 64)"
proof -
  have "drop_bit k w AND 0x3F = take_bit 6 (drop_bit k w)" by (simp add: take_bit_eq_mask mask_numeral)
  then have "unat (drop_bit k w AND 0x3F) = unat w div 2 ^ k mod 64"
    by (simp only: unsigned_take_bit_eq unat_drop_bit_eq) (simp add: take_bit_eq_mod drop_bit_eq_div)
  then show ?thesis by (simp add: sextet_def)
qed

lemma digits64:
  fixes x y z u :: nat
  assumes "x < 64" "y < 64" "z < 64" "u < 64"
  shows "(x * 262144 + y * 4096 + z * 64 + u) div 262144 mod 64 = x"
    "(x * 262144 + y * 4096 + z * 64 + u) div 4096 mod 64 = y"
    "(x * 262144 + y * 4096 + z * 64 + u) div 64 mod 64 = z"
    "(x * 262144 + y * 4096 + z * 64 + u) mod 64 = u"
proof -
  have "(x * 262144 + y * 4096 + z * 64 + u) div 262144 = x"
      "(x * 262144 + y * 4096 + z * 64 + u) div 4096 = x * 64 + y"
      "(x * 262144 + y * 4096 + z * 64 + u) div 64 = (x * 64 + y) * 64 + z"
    using assms by (auto intro!: div_nat_eqI)
  with assms show "(x * 262144 + y * 4096 + z * 64 + u) div 262144 mod 64 = x"
    "(x * 262144 + y * 4096 + z * 64 + u) div 4096 mod 64 = y"
    "(x * 262144 + y * 4096 + z * 64 + u) div 64 mod 64 = z" by (simp_all only: mod_mult_self3 mod_less)
  have "(x * 262144 + y * 4096 + z * 64 + u) = (x * 4096 + y * 64 + z) * 64 + u" by simp
  with assms show "(x * 262144 + y * 4096 + z * 64 + u) mod 64 = u" by (metis mod_less mod_mult_self3)
qed

text \<open>The four sextets of three bytes, and back.\<close>

lemma sextets:
  fixes a b c :: nat
  assumes "a < 256" "b < 256" "c < 256"
  defines "n \<equiv> a * 65536 + b * 256 + c"
  shows "n div 2 ^ 18 mod 64 = a div 4" "n div 2 ^ 12 mod 64 = a mod 4 * 16 + b div 16"
    "n div 2 ^ 6 mod 64 = b mod 16 * 4 + c div 64" "n div 2 ^ 0 mod 64 = c mod 64"
proof -
  have split: "p * 65536 + r * 256 + t = p' * 262144 + (q * 16 + r') * 4096 + (s * 4 + t') * 64 + u"
    if "p = p' * 4 + q" "r = r' * 16 + s" "t = t' * 64 + u" for p p' q r r' s t t' u :: nat
    using that by simp
  have n: "n = a div 4 * 262144 + (a mod 4 * 16 + b div 16) * 4096 + (b mod 16 * 4 + c div 64) * 64 + c mod 64"
    unfolding n_def by (rule split) simp_all
  have "a div 4 < 64" "a mod 4 * 16 + b div 16 < 64" "b mod 16 * 4 + c div 64 < 64" "c mod 64 < 64"
    using assms(1-3) by auto
  note d = digits64 [OF this]
  have p: "(2 :: nat) ^ 18 = 262144" "(2 :: nat) ^ 12 = 4096" "(2 :: nat) ^ 6 = 64" by simp_all
  show "n div 2 ^ 18 mod 64 = a div 4" "n div 2 ^ 12 mod 64 = a mod 4 * 16 + b div 16"
    "n div 2 ^ 6 mod 64 = b mod 16 * 4 + c div 64" "n div 2 ^ 0 mod 64 = c mod 64"
    unfolding n p power_0 div_by_1 by (fact d)+
qed

lemma char_of_byte: "char_of (unat (byte c)) = c"
  by (simp add: unat_byte)

lemma unat_pair: "unat (push_bit 16 (byte a) OR push_bit 8 (byte b)) = unat (byte a) * 65536 + unat (byte b) * 256 + 0"
  using unat_triple [of a b "CHR 0x00"] by (simp add: byte_def)

lemma unat_single: "unat (push_bit 16 (byte a)) = unat (byte a) * 65536 + 0 * 256 + 0"
  using unat_push_byte [of 16 a] by simp

lemma base64_round_trip_nat:
  fixes a b c :: nat
  assumes "a < 256" "b < 256" "c < 256"
  shows "decode3 (a div 4) (a mod 4 * 16 + b div 16) (b mod 16 * 4 + c div 64) (c mod 64) = [char_of a, char_of b, char_of c]"
proof -
  have "(a mod 4 * 16 + b div 16) div 16 = a mod 4" "(a mod 4 * 16 + b div 16) mod 16 = b div 16"
    "(b mod 16 * 4 + c div 64) div 4 = b mod 16" "(b mod 16 * 4 + c div 64) mod 4 = c div 64"
    using assms by (auto intro!: div_nat_eqI)
  then show ?thesis by (simp add: decode3_def)
qed

lemma sextet_value_sextet [simp]: "sextet_value (sextet k w) = Some (unat w div 2 ^ k mod 64)"
  unfolding sextet_eq by (rule sextet_value_nth) simp

lemma base64_round_trip_text: "base64_decode (base64_encode s) = Some s"
proof (induction s rule: base64_encode.induct)
  case (1 a b c rest)
  note l = byte_less [of a] byte_less [of b] byte_less [of c]
  let ?w = "push_bit 16 (byte a) OR push_bit 8 (byte b) OR byte c"
  have "decode3 (unat ?w div 2 ^ 18 mod 64) (unat ?w div 2 ^ 12 mod 64) (unat ?w div 2 ^ 6 mod 64) (unat ?w div 2 ^ 0 mod 64) = [a, b, c]"
    unfolding unat_triple sextets [OF l] base64_round_trip_nat [OF l] char_of_byte ..
  with 1 show ?case unfolding base64_encode.simps Let_def base64_decode.simps sextet_value_sextet prod.case option.case by simp
next
  case (2 a b)
  note l = byte_less [of a] byte_less [of b]
  let ?w = "push_bit 16 (byte a) OR push_bit 8 (byte b)"
  have z: "(0 :: nat) < 256" by simp
  have "decode3 (unat ?w div 2 ^ 18 mod 64) (unat ?w div 2 ^ 12 mod 64) (unat ?w div 2 ^ 6 mod 64) (0 mod 64) = [a, b, char_of (0 :: nat)]"
    unfolding unat_pair sextets [OF l z] base64_round_trip_nat [OF l z] char_of_byte ..
  then have "take 2 (decode3 (unat ?w div 2 ^ 18 mod 64) (unat ?w div 2 ^ 12 mod 64) (unat ?w div 2 ^ 6 mod 64) 0) = [a, b]"
    by (simp only: mod_0) simp
  then show ?case unfolding base64_encode.simps Let_def base64_decode.simps sextet_value_sextet sextet_value_pad prod.case option.case by simp
next
  case (3 a)
  let ?w = "push_bit 16 (byte a)"
  have z: "(0 :: nat) < 256" by simp
  have "decode3 (unat ?w div 2 ^ 18 mod 64) (unat ?w div 2 ^ 12 mod 64) (0 mod 16 * 4 + 0 div 64) (0 mod 64) = [a, char_of (0 :: nat), char_of (0 :: nat)]"
    unfolding unat_single sextets [OF byte_less z z] base64_round_trip_nat [OF byte_less z z] char_of_byte ..
  then have "take 1 (decode3 (unat ?w div 2 ^ 18 mod 64) (unat ?w div 2 ^ 12 mod 64) 0 0) = [a]"
    by (simp only: mod_0 div_0 mult_zero_left add_0) simp
  then show ?case unfolding base64_encode.simps Let_def base64_decode.simps sextet_value_sextet sextet_value_pad prod.case option.case by simp
qed simp

section \<open>Capabilities and functions\<close>

fun capability_of :: "binding \<Rightarrow> capability" where
  "capability_of Util_now_ms = Util"
| "capability_of Util_now_rfc3339 = Util"
| "capability_of Util_sha256_hex = Util"
| "capability_of Util_base64_encode = Util"
| "capability_of Util_truncate = Util"
| "capability_of Log_info = Log"
| "capability_of Log_warn = Log"
| "capability_of Log_error = Log"
| "capability_of Log_debug = Log"
| "capability_of Endpoint_declare = Endpoint"
| "capability_of Spec_list_formats = Spec"
| "capability_of Spec_generate = Spec"
| "capability_of Capture_register_filter = Capture"
| "capability_of Policy_query = Policy"
| "capability_of Event_emit = Events"
| "capability_of Status_backends = Status"

lemma register_fold:
  "map_of (fold (\<lambda>(c, name, fs) tbl. if c \<in> caps then register_module name fs tbl else tbl) ms tbl) =
    map_of tbl ++ map_of (rev (map snd (filter (\<lambda>m. fst m \<in> caps) ms)))"
  by (induction ms arbitrary: tbl) (auto simp: register_module_def update_conv')

lemma modules_distinct: "distinct (map (fst \<circ> snd) modules)"
  by code_simp

lemma registered_iff:
  "map_of (register_lezcap m) name = Some fs \<longleftrightarrow> (\<exists>c\<in>mf_capabilities m. (c, name, fs) \<in> set modules)"
proof -
  let ?ms = "map snd (filter (\<lambda>x. fst x \<in> mf_capabilities m) modules)"
  have "distinct (map (fst \<circ> snd) (filter (\<lambda>x. fst x \<in> mf_capabilities m) modules))"
    by (rule distinct_map_filter [OF modules_distinct])
  moreover have "map fst (rev ?ms) = rev (map (fst \<circ> snd) (filter (\<lambda>x. fst x \<in> mf_capabilities m) modules))"
    by (simp add: rev_map)
  ultimately have "distinct (map fst (rev ?ms))" by (simp only: distinct_rev)
  then have "map_of (register_lezcap m) name = Some fs \<longleftrightarrow> (name, fs) \<in> set (rev ?ms)"
    unfolding register_lezcap_def register_fold by (simp del: map_of_eq_Some_iff add: map_of_eq_Some_iff)
  then show ?thesis by force
qed

lemma module_capability: "(c, name, fs) \<in> set modules \<Longrightarrow> map_of fs f = Some b \<Longrightarrow> capability_of b = c"
  by (auto simp: modules_def util_functions_def log_functions_def split: if_splits)

lemma found_capability: "find_binding (register_lezcap m) name f = Some b \<Longrightarrow> capability_of b \<in> mf_capabilities m"
  by (auto simp: find_binding_def registered_iff dest: module_capability split: option.splits)

text \<open>The name under which a script finds a function.\<close>

fun binding_path :: "binding \<Rightarrow> string \<times> string" where
  "binding_path Util_now_ms = (''util'', ''now_ms'')"
| "binding_path Util_now_rfc3339 = (''util'', ''now_rfc3339'')"
| "binding_path Util_sha256_hex = (''util'', ''sha256_hex'')"
| "binding_path Util_base64_encode = (''util'', ''base64_encode'')"
| "binding_path Util_truncate = (''util'', ''truncate'')"
| "binding_path Log_info = (''log'', ''info'')"
| "binding_path Log_warn = (''log'', ''warn'')"
| "binding_path Log_error = (''log'', ''error'')"
| "binding_path Log_debug = (''log'', ''debug'')"
| "binding_path Endpoint_declare = (''endpoint'', ''declare'')"
| "binding_path Spec_list_formats = (''spec'', ''list_formats'')"
| "binding_path Spec_generate = (''spec'', ''generate'')"
| "binding_path Capture_register_filter = (''capture'', ''register_filter'')"
| "binding_path Policy_query = (''policy'', ''query'')"
| "binding_path Event_emit = (''event'', ''emit'')"
| "binding_path Status_backends = (''status'', ''backends'')"

lemma binding_in_module:
  "\<exists>fs. (capability_of b, fst (binding_path b), fs) \<in> set modules \<and> map_of fs (snd (binding_path b)) = Some b"
  by (cases b) (simp_all add: modules_def util_functions_def log_functions_def)

lemma found_iff: "(\<exists>name f. find_binding (register_lezcap m) name f = Some b) \<longleftrightarrow> capability_of b \<in> mf_capabilities m"
proof
  assume "capability_of b \<in> mf_capabilities m"
  moreover obtain fs where "(capability_of b, fst (binding_path b), fs) \<in> set modules" "map_of fs (snd (binding_path b)) = Some b"
    using binding_in_module by blast
  ultimately have "map_of (register_lezcap m) (fst (binding_path b)) = Some fs" using registered_iff by blast
  then have "find_binding (register_lezcap m) (fst (binding_path b)) (snd (binding_path b)) = Some b"
    using \<open>map_of fs (snd (binding_path b)) = Some b\<close> by (simp add: find_binding_def)
  then show "\<exists>name f. find_binding (register_lezcap m) name f = Some b" by blast
qed (use found_capability in blast)

section \<open>Limits\<close>

definition host_inv :: "host_state \<Rightarrow> bool" where
  "host_inv h \<longleftrightarrow>
     length (hs_endpoints h) \<le> unat (rl_max_endpoints (hs_limits h)) \<and> list_all endpoint_ok (hs_endpoints h)
     \<and> length (hs_capture_filters h) \<le> unat (rl_max_subscriptions (hs_limits h))
     \<and> (0 < rl_max_events_per_second (hs_limits h) \<longrightarrow> hs_events_in_window h \<le> rl_max_events_per_second (hs_limits h))"

lemma endpoint_declare_inv: "host_inv h \<Longrightarrow> endpoint_declare be args h = Some (r, h') \<Longrightarrow> host_inv h'"
  by (auto simp: endpoint_declare_def host_inv_def dest: parse_descriptor_ok split: if_splits option.splits sum.splits)

lemma capture_filter_inv: "host_inv h \<Longrightarrow> host_inv (snd (capture_register_filter be args h))"
  by (auto simp: capture_register_filter_def host_inv_def split: sum.splits)

lemma inc_le_max: "(w :: u32) < m \<Longrightarrow> w + 1 \<le> m" "0 < (m :: u32) \<Longrightarrow> 1 \<le> m"
  using inc_le [of w m] inc_le [of 0 m] by simp_all

lemma event_emit_inv: "host_inv h \<Longrightarrow> event_emit be ck args h = Some (r, h') \<Longrightarrow> host_inv h'"
  by (auto simp: event_emit_def host_inv_def open_window_def Let_def not_le inc_le_max split: if_splits option.splits sum.splits)

text \<open>What a call can change of the host: one part for each capability, and never the manifest or the limits.\<close>

definition same_but :: "capability \<Rightarrow> host_state \<times> log_line list \<Rightarrow> host_state \<times> log_line list \<Rightarrow> bool" where
  "same_but c s s' \<longleftrightarrow>
     hs_manifest (fst s') = hs_manifest (fst s) \<and> hs_limits (fst s') = hs_limits (fst s)
     \<and> (c \<noteq> Endpoint \<longrightarrow> hs_endpoints (fst s') = hs_endpoints (fst s))
     \<and> (c \<noteq> Capture \<longrightarrow> hs_capture_filters (fst s') = hs_capture_filters (fst s))
     \<and> (c \<noteq> Events \<longrightarrow> hs_events_emitted (fst s') = hs_events_emitted (fst s) \<and> hs_events_dropped (fst s') = hs_events_dropped (fst s))
     \<and> (c \<noteq> Log \<longrightarrow> snd s' = snd s)"

lemma endpoint_declare_same: "endpoint_declare be args h = Some (r, h') \<Longrightarrow> same_but Endpoint (h, logs) (h', logs)"
  by (auto simp: endpoint_declare_def same_but_def split: if_splits option.splits sum.splits)

lemma capture_filter_same: "same_but Capture (h, logs) (snd (capture_register_filter be args h), logs)"
  by (auto simp: capture_register_filter_def same_but_def split: sum.splits)

lemma event_emit_same: "event_emit be ck args h = Some (r, h') \<Longrightarrow> same_but Events (h, logs) (h', logs)"
  by (auto simp: event_emit_def same_but_def open_window_def Let_def split: if_splits option.splits sum.splits)

lemma call_binding_same:
  assumes "call_binding be ck b args (h, logs) = Some (r, s')"
  shows "same_but (capability_of b) (h, logs) s' \<and> (host_inv h \<longrightarrow> host_inv (fst s'))"
proof (cases b)
  case Endpoint_declare
  with assms obtain h' where "endpoint_declare be args h = Some (r, h')" "s' = (h', logs)" by (auto simp: update_host_def)
  with Endpoint_declare show ?thesis by (auto intro: endpoint_declare_same endpoint_declare_inv)
next
  case Capture_register_filter
  with assms have "s' = (snd (capture_register_filter be args h), logs)" by (auto simp: update_host_def split: prod.splits)
  with Capture_register_filter show ?thesis by (auto intro: capture_filter_same capture_filter_inv)
next
  case Event_emit
  with assms obtain h' where "event_emit be ck args h = Some (r, h')" "s' = (h', logs)" by (auto simp: update_host_def)
  with Event_emit show ?thesis by (auto intro: event_emit_same event_emit_inv)
qed (use assms in \<open>auto simp: keep_def logged_def same_but_def\<close>)

lemma perform_same:
  assumes "perform be (register_lezcap m) c s = Some (r, s')"
  shows "(\<exists>cap\<in>mf_capabilities m. same_but cap s s') \<or> s' = s"
proof (cases "find_binding (register_lezcap m) (lc_module c) (lc_function c)")
  case (Some b)
  with assms have "call_binding be (lc_clocks c) b (lc_args c) (fst s, snd s) = Some (r, s')" by (simp add: perform_def)
  from call_binding_same [OF this] found_capability [OF Some] show ?thesis by auto
qed (use assms in \<open>simp add: perform_def\<close>)

text \<open>One call as a step; a call that is undefined gives no next state.\<close>

definition host_step :: "bind_env \<Rightarrow> lezcap_table \<Rightarrow> lezcap_call \<Rightarrow> host_state \<times> log_line list \<Rightarrow> host_state \<times> log_line list" where
  "host_step be tbl c s = (case perform be tbl c s of None \<Rightarrow> s | Some (_, s') \<Rightarrow> s')"

lemma perform_inv: "host_inv (fst s) \<Longrightarrow> perform be tbl c s = Some (r, s') \<Longrightarrow> host_inv (fst s')"
  by (cases s) (auto simp: perform_def dest: call_binding_same split: option.splits)

interpretation lezcap_calls: step_invariant "host_step be tbl" "\<lambda>s. host_inv (fst s)" for be tbl
  by unfold_locales (auto simp: host_step_def dest: perform_inv split: option.splits)

lemma perform_all_fold: "perform_all be tbl cs s = Some s' \<Longrightarrow> s' = fold (host_step be tbl) cs s"
  by (induction cs arbitrary: s) (auto simp: host_step_def split: option.splits)

lemma perform_all_frame:
  assumes "perform_all be (register_lezcap m) cs s = Some s'"
    and "\<And>c s s'. c \<in> mf_capabilities m \<Longrightarrow> same_but c s s' \<Longrightarrow> f s' = f s"
  shows "f s' = f s"
  using assms(1)
proof (induction cs arbitrary: s)
  case (Cons c cs)
  then obtain r s1 where s1: "perform be (register_lezcap m) c s = Some (r, s1)" "perform_all be (register_lezcap m) cs s1 = Some s'"
    by (auto split: option.splits)
  with Cons.IH have "f s' = f s1" by blast
  also have "f s1 = f s" using perform_same [OF s1(1)] assms(2) by blast
  finally show ?case .
qed simp

section \<open>Descriptors\<close>

text \<open>A request or response schema is always a table below the descriptor, so declaring one is undefined.\<close>

lemma schema_undefined: "getfield t key = LTable kvs \<Longrightarrow> schema_field t key doc = None"
  by (simp add: schema_field_def schema_subset_from_lua_def json_from_lua_def)

text \<open>\<open>value\<close> still holds the last required field, the summary, when the description is read.\<close>

lemma summary_as_description:
  assumes "required_fields be t (keys @ [''summary'']) doc [] = Inr (doc', value)" "getfield t ''description'' = LNil" "value \<noteq> []"
  shows "lua_tostring be (getfield t ''summary'') = Some value
    \<and> optional_field be t ''description'' 2048 (doc', value) = Inr (assign ''description'' (JString value) doc', [])"
proof -
  have "lua_tostring be (getfield t ''summary'') = Some value"
    if "required_fields be t (keys @ [''summary'']) doc v = Inr (doc', value)" for v
    using that
    by (induction keys arbitrary: doc v)
      (auto simp: opt_table_string_def Let_def res_simps split: if_splits option.splits sum.splits)
  with assms show ?thesis by (auto simp: optional_field_def opt_table_string_def res_simps)
qed

section \<open>Properties\<close>

text \<open>
  C7: a driver can use exactly the functions of the capabilities its manifest declares.  A function is in the table of the script if
  and only if its capability is declared, and no sequence of calls changes the part of the host that belongs to a capability
  that is not declared: the endpoints, the capture filters, the event counters and the log.
\<close>

theorem lezcap_gated:
  "((\<exists>name f. find_binding (register_lezcap m) name f = Some b) \<longleftrightarrow> capability_of b \<in> mf_capabilities m)
    \<and> (perform_all be (register_lezcap m) cs (h, logs) = Some (h', logs') \<longrightarrow>
        (Endpoint \<notin> mf_capabilities m \<longrightarrow> hs_endpoints h' = hs_endpoints h)
        \<and> (Capture \<notin> mf_capabilities m \<longrightarrow> hs_capture_filters h' = hs_capture_filters h)
        \<and> (Events \<notin> mf_capabilities m \<longrightarrow> hs_events_emitted h' = hs_events_emitted h \<and> hs_events_dropped h' = hs_events_dropped h)
        \<and> (Log \<notin> mf_capabilities m \<longrightarrow> logs' = logs))"
proof (intro conjI impI)
  show "(\<exists>name f. find_binding (register_lezcap m) name f = Some b) \<longleftrightarrow> capability_of b \<in> mf_capabilities m"
    by (rule found_iff)
  assume run: "perform_all be (register_lezcap m) cs (h, logs) = Some (h', logs')"
  show "hs_endpoints h' = hs_endpoints h" if "Endpoint \<notin> mf_capabilities m"
    using perform_all_frame [OF run, of "hs_endpoints \<circ> fst"] that by (auto simp: same_but_def)
  show "hs_capture_filters h' = hs_capture_filters h" if "Capture \<notin> mf_capabilities m"
    using perform_all_frame [OF run, of "hs_capture_filters \<circ> fst"] that by (auto simp: same_but_def)
  show "hs_events_emitted h' = hs_events_emitted h" "hs_events_dropped h' = hs_events_dropped h" if "Events \<notin> mf_capabilities m"
    using perform_all_frame [OF run, of "hs_events_emitted \<circ> fst"] perform_all_frame [OF run, of "hs_events_dropped \<circ> fst"] that
    by (auto simp: same_but_def)
  show "logs' = logs" if "Log \<notin> mf_capabilities m"
    using perform_all_frame [OF run, of snd] that by (auto simp: same_but_def)
qed

text \<open>A driver that may only log, calls of it, and an environment for them.\<close>

definition sample_bindings :: bind_env where
  "sample_bindings = \<lparr>be_number_text = \<lambda>_. ''0'', be_text_number = \<lambda>_. None, be_objlen = length, be_dump = \<lambda>_. Some [],
     be_dump2 = \<lambda>_. Some [], be_registry = \<lambda>_. None\<rparr>"

definition sample_driver_host :: "capability set \<Rightarrow> host_state" where
  "sample_driver_host caps = \<lparr>hs_manifest = manifest_init\<lparr>mf_name := ''d'', mf_capabilities := caps\<rparr>,
     hs_limits = \<lparr>rl_max_endpoints = 1, rl_max_subscriptions = 1, rl_max_events_per_second = 1, rl_max_string_bytes = 8\<rparr>,
     hs_endpoints = [], hs_capture_filters = [], hs_events_emitted = 0, hs_events_dropped = 0,
     hs_last_event_window_start_ms = 0, hs_events_in_window = 0\<rparr>"

definition sample_call :: "string \<Rightarrow> string \<Rightarrow> lua_value \<Rightarrow> lezcap_call" where
  "sample_call m f v = \<lparr>lc_module = m, lc_function = f, lc_args = [v], lc_clocks = \<lparr>ck_system = 0, ck_steady = 0\<rparr>\<rparr>"

lemmas sample_binding_simps = sample_bindings_def sample_driver_host_def sample_call_def perform_def find_binding_def register_lezcap_def
  modules_def register_module_def util_functions_def log_functions_def arg_def

theorem lezcap_gated_witness:
  "perform_all sample_bindings (register_lezcap (hs_manifest (sample_driver_host {Log})))
      [sample_call ''log'' ''info'' (LString ''hi''), sample_call ''event'' ''emit'' (LTable [])] (sample_driver_host {Log}, [])
    = Some (sample_driver_host {Log}, [(LvInfo, ''lua.driver[d] hi'')])
   \<and> hs_events_emitted (sample_driver_host {Log}) = 0
   \<and> \<not> (\<exists>name f. find_binding (register_lezcap (hs_manifest (sample_driver_host {Log}))) name f = Some Event_emit)"
proof -
  let ?m = "hs_manifest (sample_driver_host {Log})"
  let ?cs = "[sample_call ''log'' ''info'' (LString ''hi''), sample_call ''event'' ''emit'' (LTable [])]"
  have run: "perform_all sample_bindings (register_lezcap ?m) ?cs (sample_driver_host {Log}, []) = Some (sample_driver_host {Log}, [(LvInfo, ''lua.driver[d] hi'')])"
    by (simp add: sample_binding_simps logged_def log_emit_def check_string_def c_str_def)
  have m: "mf_capabilities ?m = {Log}" by (simp add: sample_driver_host_def)
  note g = lezcap_gated [of ?m Event_emit sample_bindings ?cs "sample_driver_host {Log}" "[]" "sample_driver_host {Log}" "[(LvInfo, ''lua.driver[d] hi'')]"]
  show ?thesis using run g m by (auto simp: sample_driver_host_def)
qed



end
