(* ===== verification/Ez_Driver.thy ===== *)
theory Ez_Driver
  imports Ez_Lezcap
begin

unbundle bit_operations_syntax

text \<open>
  \<^verbatim>\<open>src/drivers/driver_engine.cpp\<close>: the lifecycle of a driver script, the delivery of events to it, and finding and reading
  scripts.

  The interpreter, the environment of the bindings and the creation of sandboxes are parameters.  An operation that does not come back,
  is undefined or throws gives \<^const>\<open>None\<close>.  The log and the time a driver makes its thread sleep are part of its record, so
  that the lemmas can speak about them.  Files are a parameter: what \<^verbatim>\<open>open\<close>, \<^verbatim>\<open>fstat\<close>, \<^verbatim>\<open>readlink\<close> and \<^verbatim>\<open>read\<close> give. The warning
  that discovery logs for a manifest it cannot read is left out, and so is the branch for a sandbox without a state, since a sandbox always has one.

  The lemmas show that the operations refine an abstract lifecycle, in which quarantine and failure are final, that an event reaches a script only
  if the script subscribed to it and every filter lets it pass, and what is known of a script that was loaded.
\<close>

section \<open>Drivers\<close>

record engine_limits =
  el_max_concurrent_scripts :: u32
  el_max_endpoints_per_driver :: u32
  el_max_subscriptions_per_driver :: u32
  el_max_events_per_second_per_driver :: u32
  el_fault_threshold :: u32
  el_sandbox_budgets :: budgets

definition engine_limits_default :: engine_limits where
  "engine_limits_default = \<lparr>el_max_concurrent_scripts = 16, el_max_endpoints_per_driver = 8, el_max_subscriptions_per_driver = 16,
     el_max_events_per_second_per_driver = 64, el_fault_threshold = 3, el_sandbox_budgets = budgets_default\<rparr>"

datatype driver_state = Discovered | Loaded | Started | Quarantined | Failed

type_synonym 'l driver_sandbox = "('l, lezcap_call, lua_value list) sandbox"

record 'l driver =
  dr_state :: driver_state
  dr_faults :: u32
  dr_sandbox :: "'l driver_sandbox option"
  dr_host :: host_state
  dr_limits :: engine_limits
  dr_registry :: "string \<Rightarrow> lua_value option"
  dr_log :: "log_line list"
  dr_slept_ms :: nat

record 'l driver_env =
  de_vm :: "('l, lezcap_call, lua_value list) lua_vm"
  de_bind :: bind_env
  de_create :: "budgets \<Rightarrow> 'l driver_sandbox option"

definition driver_init :: "manifest \<Rightarrow> engine_limits \<Rightarrow> 'l driver" where
  "driver_init m limits = \<lparr>dr_state = Discovered, dr_faults = 0, dr_sandbox = None,
     dr_host = \<lparr>hs_manifest = m,
       hs_limits = \<lparr>rl_max_endpoints = min (el_max_endpoints_per_driver limits) (mf_max_endpoints m),
         rl_max_subscriptions = min (el_max_subscriptions_per_driver limits) (mf_max_subscriptions m),
         rl_max_events_per_second = el_max_events_per_second_per_driver limits,
         rl_max_string_bytes = bu_max_string_bytes (el_sandbox_budgets limits)\<rparr>,
       hs_endpoints = [], hs_capture_filters = [], hs_events_emitted = 0, hs_events_dropped = 0,
       hs_last_event_window_start_ms = 0, hs_events_in_window = 0\<rparr>,
     dr_limits = limits, dr_registry = \<lambda>_. None, dr_log = [], dr_slept_ms = 0\<rparr>"

definition write_log :: "level \<Rightarrow> string \<Rightarrow> 'l driver \<Rightarrow> 'l driver" where
  "write_log lv line d = d\<lparr>dr_log := dr_log d @ [(lv, line)]\<rparr>"

section \<open>Faults\<close>

text \<open>\<^verbatim>\<open>25u << (faults - 1)\<close> is a shift of a 32-bit word; a shift by 32 or more is undefined.\<close>

definition backoff_ms :: "u32 \<Rightarrow> u64 option" where
  "backoff_ms faults =
     (if 32 \<le> unat (faults - 1) then None else Some (min (ucast (push_bit (unat (faults - 1)) (25 :: u32))) 8000))"

definition record_fault :: "string \<Rightarrow> 'l driver \<Rightarrow> 'l driver option" where
  "record_fault code d =
     (let d = d\<lparr>dr_faults := dr_faults d + 1\<rparr>;
          name = mf_name (hs_manifest (dr_host d));
          d = write_log LvWarn (''lua.driver fault name='' @ name @ '' code='' @ code @ '' count='' @ dec (unat (dr_faults d))) d
      in if el_fault_threshold (dr_limits d) \<le> dr_faults d
         then Some (write_log LvError (''lua.driver quarantined name='' @ name @ '' faults='' @ dec (unat (dr_faults d)))
                (d\<lparr>dr_state := Quarantined\<rparr>))
         else map_option (\<lambda>ms. d\<lparr>dr_slept_ms := dr_slept_ms d + unat ms\<rparr>) (backoff_ms (dr_faults d)))"

section \<open>Callbacks\<close>

definition host_calls :: "'l driver_env \<Rightarrow> 'l driver \<Rightarrow> lezcap_call \<Rightarrow> host_state \<times> log_line list \<Rightarrow>
    (lua_value list \<times> host_state \<times> log_line list) option" where
  "host_calls env d = perform ((de_bind env)\<lparr>be_registry := dr_registry d\<rparr>) (register_lezcap (hs_manifest (dr_host d)))"

text \<open>A protected call between \<open>begin_callback\<close> and \<open>end_callback\<close>; the function and its arguments are on the stack of \<open>sb\<close>.\<close>

definition run_callback :: "'l driver_env \<Rightarrow> int \<Rightarrow> nat \<Rightarrow> 'l driver_sandbox \<Rightarrow> 'l driver \<Rightarrow> (outcome \<times> sandbox_error \<times> 'l driver) option" where
  "run_callback env now nargs sb d =
     (case sandbox_pcall (de_vm env) (host_calls env d) nargs 0 (begin_callback now sb) (dr_host d, dr_log d) sandbox_error_init of
        None \<Rightarrow> None
      | Some (oc, err, sb', (h, logs)) \<Rightarrow>
          Some (oc, err, d\<lparr>dr_sandbox := Some (end_callback sb'), dr_host := h, dr_log := logs\<rparr>))"

definition run_global :: "'l driver_env \<Rightarrow> int \<Rightarrow> string \<Rightarrow> 'l driver_sandbox \<Rightarrow> 'l driver \<Rightarrow> (bool \<times> sandbox_error \<times> 'l driver) option" where
  "run_global env now name sb d =
     (case call_global (de_vm env) (host_calls env d) now name 0 sb (dr_host d, dr_log d) sandbox_error_init of
        None \<Rightarrow> None
      | Some (ok, err, sb', (h, logs)) \<Rightarrow> Some (ok, err, d\<lparr>dr_sandbox := Some sb', dr_host := h, dr_log := logs\<rparr>))"

section \<open>Loading\<close>

definition load_failed :: "string \<Rightarrow> 'l driver \<Rightarrow> (string + unit) \<times> 'l driver" where
  "load_failed error d = (Inl error, d\<lparr>dr_state := Failed, dr_sandbox := None\<rparr>)"

text \<open>Capabilities are a set; the table has one entry for each, here in the order of \<^const>\<open>modules\<close>.\<close>

definition load_context :: "manifest \<Rightarrow> lua_value" where
  "load_context m = LTable
     ([(LString ''name'', LString (mf_name m)), (LString ''version'', LString (mf_version m)),
       (LString ''capabilities'', LTable (map (\<lambda>c. (LString (capability_name c), LBoolean True))
          (filter (\<lambda>c. c \<in> mf_capabilities m) (map fst modules))))] @
      (if mf_event_types m = [] then []
       else [(LString ''event_types'', LTable (map (\<lambda>(i, t). (LNumber (of_nat i), LString t)) (enumerate 1 (mf_event_types m))))]))"

definition call_on_load :: "'l driver_env \<Rightarrow> int \<Rightarrow> 'l driver \<Rightarrow> ((string + unit) \<times> 'l driver) option" where
  "call_on_load env now d =
     (case dr_sandbox d of
        None \<Rightarrow> None
      | Some sb \<Rightarrow>
          (case vm_global (de_vm env) (sb_lua sb) ''on_load'' of
             None \<Rightarrow> Some (load_failed ''script does not define on_load'' d)
           | Some f \<Rightarrow>
               (case run_callback env now 1
                       (sb\<lparr>sb_stack := sb_stack sb @ [Func f, Value (load_context (hs_manifest (dr_host d)))]\<rparr>) d of
                  None \<Rightarrow> None
                | Some (oc, err, d) \<Rightarrow>
                    if oc \<noteq> Ok then map_option (load_failed (se_message err)) (record_fault (se_code err) d)
                    else Some (Inr (), write_log LvInfo (''lua.driver loaded name='' @ mf_name (hs_manifest (dr_host d)))
                                (d\<lparr>dr_state := Loaded\<rparr>)))))"

text \<open>\<open>now1\<close> and \<open>now2\<close> are the times at which the chunk and \<open>on_load\<close> start.\<close>

definition driver_load :: "'l driver_env \<Rightarrow> int \<Rightarrow> int \<Rightarrow> string \<Rightarrow> policy \<Rightarrow> 'l driver \<Rightarrow> ((string + unit) \<times> 'l driver) option" where
  "driver_load env now1 now2 script_source po d =
     (if dr_state d \<noteq> Discovered then Some (Inl ''driver is not in the discovered state'', d)
      else case de_create env (el_sandbox_budgets (dr_limits d)) of
             None \<Rightarrow> Some (load_failed ''sandbox construction failed'' d)
           | Some sb \<Rightarrow>
               (case policy_registry (be_dump (de_bind env)) po of
                  None \<Rightarrow> None
                | Some registry \<Rightarrow>
                    let d = d\<lparr>dr_registry := registry, dr_sandbox := Some sb\<rparr>
                    in case load_source (de_vm env) (''=@'' @ mf_script_path (hs_manifest (dr_host d))) script_source sb of
                         Inl err \<Rightarrow> Some (load_failed (se_message err) d)
                       | Inr sb \<Rightarrow>
                           (case run_callback env now1 0 sb d of
                              None \<Rightarrow> None
                            | Some (oc, err, d) \<Rightarrow>
                                if oc \<noteq> Ok then Some (load_failed (se_message err) d) else call_on_load env now2 d)))"

section \<open>Starting and stopping\<close>

definition driver_start :: "'l driver_env \<Rightarrow> int \<Rightarrow> 'l driver \<Rightarrow> ((string + unit) \<times> 'l driver) option" where
  "driver_start env now d =
     (if dr_state d \<noteq> Loaded then Some (Inl ''driver is not in the loaded state'', d)
      else case dr_sandbox d of
             None \<Rightarrow> None
           | Some sb \<Rightarrow>
               (case run_global env now ''on_start'' sb d of
                  None \<Rightarrow> None
                | Some (ok, err, d) \<Rightarrow>
                    if \<not> ok then map_option (Pair (Inl (se_message err))) (record_fault (se_code err) d)
                    else Some (Inr (), d\<lparr>dr_state := Started\<rparr>)))"

definition call_on_stop :: "'l driver_env \<Rightarrow> int \<Rightarrow> 'l driver \<Rightarrow> 'l driver option" where
  "call_on_stop env now d =
     (case dr_sandbox d of
        Some sb \<Rightarrow>
          if dr_state d = Started
          then (case run_global env now ''on_stop'' sb d of
                  None \<Rightarrow> None
                | Some (ok, err, d) \<Rightarrow> if \<not> ok then record_fault (se_code err) d else Some d)
          else Some d
      | None \<Rightarrow> Some d)"

definition driver_stop :: "'l driver_env \<Rightarrow> int \<Rightarrow> 'l driver \<Rightarrow> 'l driver option" where
  "driver_stop env now d =
     map_option (\<lambda>d. let d = d\<lparr>dr_sandbox := None\<rparr>
                     in if dr_state d = Started \<or> dr_state d = Loaded then d\<lparr>dr_state := Discovered\<rparr> else d)
       (call_on_stop env now d)"

section \<open>Events\<close>

definition set_table_string :: "string \<Rightarrow> string \<Rightarrow> (lua_value \<times> lua_value) list" where
  "set_table_string key value = (if value \<noteq> [] then [(LString key, LString value)] else [])"

text \<open>A 64-bit number as a double.\<close>

definition to_double :: "nat \<Rightarrow> double" where
  "to_double n = fmul (of_nat n) 1"

definition process_table :: "process_info \<Rightarrow> lua_value" where
  "process_table p = LTable
     ([(LString ''pid'', LNumber (of_nat (unat (pi_pid p))))] @ set_table_string ''name'' (pi_name p) @
      (case pi_uid p of None \<Rightarrow> [] | Some u \<Rightarrow> [(LString ''uid'', LNumber (of_nat (unat u)))]))"

definition network_table :: "network_info \<Rightarrow> lua_value" where
  "network_table n = LTable
     ([(LString ''transport'', LString (transport_name (net_transport n)))] @
      (if net_direction n \<noteq> UnknownDirection then [(LString ''direction'', LString (direction_name (net_direction n)))] else []) @
      set_table_string ''local_address'' (net_local_address n) @
      (if net_local_address n \<noteq> [] then [(LString ''local_port'', LNumber (of_nat (unat (net_local_port n))))] else []) @
      set_table_string ''remote_address'' (net_remote_address n) @
      (if net_remote_address n \<noteq> [] then [(LString ''remote_port'', LNumber (of_nat (unat (net_remote_port n))))] else []) @
      set_table_string ''dns_query_name'' (net_dns_query_name n) @
      (case net_dns_response_code n of None \<Rightarrow> [] | Some r \<Rightarrow> [(LString ''dns_response_code'', LNumber (of_nat (unat r)))]) @
      set_table_string ''interface'' (net_interface n))"

definition browser_table :: "browser_info \<Rightarrow> lua_value" where
  "browser_table b = LTable
     ([(LString ''tab_id'', LNumber (to_double (unat (br_tab_id b))))] @
      set_table_string ''url'' (br_url b) @ set_table_string ''title'' (br_title b))"

definition sub_table :: "string \<Rightarrow> ('a \<Rightarrow> lua_value) \<Rightarrow> 'a option \<Rightarrow> (lua_value \<times> lua_value) list" where
  "sub_table key f v = (case v of None \<Rightarrow> [] | Some x \<Rightarrow> [(LString key, f x)])"

definition push_event_table :: "event \<Rightarrow> lua_value" where
  "push_event_table e = LTable
     ([(LString ''event_id'', LString (ev_event_id e)), (LString ''event_type'', LString (event_type_name (ev_type e))),
       (LString ''source'', LString (event_source_name (ev_source e))), (LString ''timestamp'', LString (to_rfc3339 (ev_timestamp e))),
       (LString ''confidence'', LNumber (ev_confidence e))] @
      set_table_string ''correlation_id'' (ev_correlation_id e) @
      (if pv_redacted (ev_privacy e) then [(LString ''redacted'', LBoolean True)] else []) @
      sub_table ''process'' process_table (ev_process e) @
      sub_table ''network'' network_table (ev_network e) @
      sub_table ''browser'' browser_table (ev_browser e))"

definition subscribed :: "manifest \<Rightarrow> event \<Rightarrow> bool" where
  "subscribed m e \<longleftrightarrow> mf_event_types m = [] \<or> list_ex (\<lambda>t. t = event_type_name (ev_type e)) (mf_event_types m)"

fun filters_pass :: "capture_filter list \<Rightarrow> event \<Rightarrow> bool" where
  "filters_pass [] e = True"
| "filters_pass (f # fs) e =
     (if fi_event_type f \<noteq> [] \<and> fi_event_type f \<noteq> event_type_name (ev_type e) then False
      else if fi_transport f \<noteq> [] \<and> (case ev_network e of None \<Rightarrow> False | Some n \<Rightarrow> fi_transport f \<noteq> transport_name (net_transport n))
      then False
      else if 0 < fi_min_confidence_permille f \<and> fmul (ev_confidence e) 1000 < of_nat (unat (fi_min_confidence_permille f)) then False
      else filters_pass fs e)"

definition on_event :: "'l driver_env \<Rightarrow> int \<Rightarrow> event \<Rightarrow> 'l driver \<Rightarrow> 'l driver option" where
  "on_event env now e d =
     (case dr_sandbox d of
        None \<Rightarrow> Some d
      | Some sb \<Rightarrow>
          if dr_state d \<noteq> Started then Some d
          else if \<not> subscribed (hs_manifest (dr_host d)) e then Some d
          else if \<not> filters_pass (hs_capture_filters (dr_host d)) e then Some d
          else case vm_global (de_vm env) (sb_lua sb) ''on_event'' of
                 None \<Rightarrow> Some d
               | Some f \<Rightarrow>
                   (case run_callback env now 1 (sb\<lparr>sb_stack := sb_stack sb @ [Func f, Value (push_event_table e)]\<rparr>) d of
                      None \<Rightarrow> None
                    | Some (oc, err, d) \<Rightarrow> if oc \<noteq> Ok then record_fault (se_code err) d else Some d))"

section \<open>Files\<close>

record 'f file_api =
  fa_open :: "string \<Rightarrow> 'f option"
  fa_fstat :: "'f \<Rightarrow> (bool \<times> int) option"
  fa_readlink :: "'f \<Rightarrow> string option"
  fa_read :: "'f \<Rightarrow> nat \<Rightarrow> nat \<Rightarrow> string option"
  fa_list :: "string \<Rightarrow> string list option"

definition kMaxScriptBytes :: nat where "kMaxScriptBytes = 256 * 1024"

text \<open>A \<^verbatim>\<open>read\<close> gives at least one byte, or the file ended or an error occurred.\<close>

function read_fully :: "'f file_api \<Rightarrow> 'f \<Rightarrow> nat \<Rightarrow> string \<Rightarrow> string + string" where
  "read_fully fs fd bytes source =
     (if length source < bytes
      then case fa_read fs fd (length source) (bytes - length source) of
             None \<Rightarrow> Inl ''short read''
           | Some chunk \<Rightarrow> if chunk = [] then Inl ''short read'' else read_fully fs fd bytes (source @ chunk)
      else Inr source)"
  by pat_completeness auto
termination by (relation "measure (\<lambda>(fs, fd, bytes, source). bytes - length source)") (auto intro: diff_less_mono2)

declare read_fully.simps [simp del]

text \<open>\<^verbatim>\<open>st_size\<close> is signed and converted to \<^verbatim>\<open>size_t\<close>; the link is cut at \<^verbatim>\<open>PATH_MAX - 1\<close> bytes.\<close>

definition read_script_safely :: "'f file_api \<Rightarrow> string \<Rightarrow> string + string" where
  "read_script_safely fs path =
     (case fa_open fs (c_str path) of
        None \<Rightarrow> Inl ''cannot open file (symlinks are refused)''
      | Some fd \<Rightarrow>
          (case fa_fstat fs fd of
             None \<Rightarrow> Inl ''cannot stat file''
           | Some (regular, st_size) \<Rightarrow>
               if \<not> regular then Inl ''not a regular file''
               else let bytes = nat (st_size mod 2 ^ 64)
                    in if kMaxScriptBytes < bytes then Inl ''file exceeds the size cap''
                       else case fa_readlink fs fd of
                              None \<Rightarrow> Inl ''cannot resolve canonical path''
                            | Some resolved \<Rightarrow>
                                if resolved = [] then Inl ''cannot resolve canonical path''
                                else if take 4095 resolved \<noteq> path then Inl ''path is not canonical''
                                else read_fully fs fd bytes []))"

section \<open>The engine\<close>

record driver_engine =
  en_limits :: engine_limits
  en_allowdirs :: "string list"

definition set_allowdirs :: "string list \<Rightarrow> driver_engine \<Rightarrow> driver_engine" where
  "set_allowdirs dirs en = en\<lparr>en_allowdirs := dirs\<rparr>"

definition manifest_name :: "string \<Rightarrow> bool" where
  "manifest_name name \<longleftrightarrow> 14 \<le> length name \<and> drop (length name - 14) name = ''.manifest.json''"

definition entry_path :: "string \<Rightarrow> string \<Rightarrow> string" where
  "entry_path dir name = dir @ (if last dir = CHR ''/'' then [] else ''/'') @ name"

definition read_manifests :: "'f file_api \<Rightarrow> string list \<Rightarrow> (string \<times> string) list" where
  "read_manifests fs paths =
     concat (map (\<lambda>path. case read_script_safely fs path of Inl _ \<Rightarrow> [] | Inr source \<Rightarrow> [(path, source)]) paths)"

fun discover_manifests :: "'f file_api \<Rightarrow> string list \<Rightarrow> (string \<times> string) list" where
  "discover_manifests fs [] = []"
| "discover_manifests fs (dir # dirs) =
     (if dir = [] then discover_manifests fs dirs
      else case fa_list fs (c_str dir) of
             None \<Rightarrow> discover_manifests fs dirs
           | Some names \<Rightarrow>
               read_manifests fs (map (entry_path dir) (filter manifest_name names)) @ discover_manifests fs dirs)"

definition load_from_manifest_text ::
  "'l driver_env \<Rightarrow> 'f file_api \<Rightarrow> (string \<Rightarrow> json option) \<Rightarrow> int \<Rightarrow> int \<Rightarrow> driver_engine \<Rightarrow> string \<Rightarrow> policy \<Rightarrow> (string + 'l driver) option" where
  "load_from_manifest_text env fs parse now1 now2 en manifest_text po =
     (case manifest_parse parse manifest_text of
        Inl e \<Rightarrow> Some (Inl e)
      | Inr m \<Rightarrow>
          if en_allowdirs en \<noteq> [] \<and> \<not> path_within_allowlist (mf_script_path m) (en_allowdirs en)
          then Some (Inl ''script path is outside the allowlisted directories'')
          else case read_script_safely fs (mf_script_path m) of
                 Inl e \<Rightarrow> Some (Inl e)
               | Inr source \<Rightarrow>
                   (case verify_script_hash m source of
                      None \<Rightarrow> None
                    | Some (Inl e) \<Rightarrow> Some (Inl e)
                    | Some (Inr _) \<Rightarrow>
                        map_option (\<lambda>(r, d). case r of Inl e \<Rightarrow> Inl e | Inr _ \<Rightarrow> Inr d)
                          (driver_load env now1 now2 source po (driver_init m (en_limits en)))))"

section \<open>Sequences of operations\<close>

datatype driver_op =
    Load_op int int string policy
  | Start_op int
  | Event_op int event
  | Stop_op int

fun driver_step :: "'l driver_env \<Rightarrow> driver_op \<Rightarrow> 'l driver \<Rightarrow> 'l driver option" where
  "driver_step env (Load_op now1 now2 source po) d = map_option snd (driver_load env now1 now2 source po d)"
| "driver_step env (Start_op now) d = map_option snd (driver_start env now d)"
| "driver_step env (Event_op now e) d = on_event env now e d"
| "driver_step env (Stop_op now) d = driver_stop env now d"

fun run_ops :: "('o \<Rightarrow> 's \<Rightarrow> 's option) \<Rightarrow> 'o list \<Rightarrow> 's \<Rightarrow> 's option" where
  "run_ops step [] s = Some s"
| "run_ops step (x # xs) s = (case step x s of None \<Rightarrow> None | Some s' \<Rightarrow> run_ops step xs s')"

section \<open>The abstract lifecycle\<close>

text \<open>
  What the engine promises of a driver, without scripts, sandboxes and hosts: its state and the number of its faults.  A
  fault that reaches the threshold quarantines the driver, except while it is loaded, where it fails anyway.
\<close>

datatype lifecycle_op = Do_load | Do_start | Do_event | Do_stop

definition after_fault :: "nat \<Rightarrow> driver_state \<Rightarrow> nat \<Rightarrow> driver_state \<times> nat" where
  "after_fault threshold s n = (if threshold \<le> Suc n then Quarantined else s, Suc n)"

inductive lifecycle :: "nat \<Rightarrow> lifecycle_op \<Rightarrow> driver_state \<times> nat \<Rightarrow> driver_state \<times> nat \<Rightarrow> bool" for threshold where
  load_refused: "s \<noteq> Discovered \<Longrightarrow> lifecycle threshold Do_load (s, n) (s, n)"
| load_ok: "lifecycle threshold Do_load (Discovered, n) (Loaded, n)"
| load_fails: "lifecycle threshold Do_load (Discovered, n) (Failed, n)"
| load_fault: "lifecycle threshold Do_load (Discovered, n) (Failed, Suc n)"
| start_refused: "s \<noteq> Loaded \<Longrightarrow> lifecycle threshold Do_start (s, n) (s, n)"
| start_ok: "lifecycle threshold Do_start (Loaded, n) (Started, n)"
| start_fault: "lifecycle threshold Do_start (Loaded, n) (after_fault threshold Loaded n)"
| event_done: "lifecycle threshold Do_event (s, n) (s, n)"
| event_fault: "lifecycle threshold Do_event (Started, n) (after_fault threshold Started n)"
| stop_idle: "s \<noteq> Loaded \<Longrightarrow> s \<noteq> Started \<Longrightarrow> lifecycle threshold Do_stop (s, n) (s, n)"
| stop_loaded: "lifecycle threshold Do_stop (Loaded, n) (Discovered, n)"
| stop_started: "lifecycle threshold Do_stop (Started, n) (Discovered, n)"
| stop_fault: "lifecycle threshold Do_stop (Started, n) (after_fault threshold Discovered n)"

inductive_cases lifecycle_QuarantinedE: "lifecycle threshold x (Quarantined, n) s"
inductive_cases lifecycle_FailedE: "lifecycle threshold x (Failed, n) s"

inductive trace :: "('l \<Rightarrow> 'a \<Rightarrow> 'a \<Rightarrow> bool) \<Rightarrow> 'l list \<Rightarrow> 'a \<Rightarrow> 'a \<Rightarrow> bool" for step where
  trace_Nil: "trace step [] a a"
| trace_Cons: "step x a b \<Longrightarrow> trace step xs b c \<Longrightarrow> trace step (x # xs) a c"

inductive_cases trace_NilE: "trace step [] a c"
inductive_cases trace_ConsE: "trace step (x # xs) a c"

fun label :: "driver_op \<Rightarrow> lifecycle_op" where
  "label (Load_op _ _ _ _) = Do_load"
| "label (Start_op _) = Do_start"
| "label (Event_op _ _) = Do_event"
| "label (Stop_op _) = Do_stop"

definition abs_driver :: "'l driver \<Rightarrow> driver_state \<times> nat" where
  "abs_driver d = (dr_state d, unat (dr_faults d))"

text \<open>A deterministic machine whose steps are steps of an abstract one, as long as its invariant holds.\<close>

locale simulation =
  fixes cstep :: "'o \<Rightarrow> 'c \<Rightarrow> 'c option" and astep :: "'l \<Rightarrow> 'a \<Rightarrow> 'a \<Rightarrow> bool"
    and lab :: "'o \<Rightarrow> 'l" and absf :: "'c \<Rightarrow> 'a" and ok :: "'c \<Rightarrow> bool"
  assumes simulates: "ok c \<Longrightarrow> cstep x c = Some c' \<Longrightarrow> ok c' \<and> astep (lab x) (absf c) (absf c')"
begin

lemma run_simulates: "ok c \<Longrightarrow> run_ops cstep xs c = Some c' \<Longrightarrow> ok c' \<and> trace astep (map lab xs) (absf c) (absf c')"
proof (induction xs arbitrary: c)
  case (Cons x xs)
  then obtain c1 where c1: "cstep x c = Some c1" "run_ops cstep xs c1 = Some c'" by (auto split: option.splits)
  from simulates [OF Cons.prems(1) c1(1)] have "ok c1" and first: "astep (lab x) (absf c) (absf c1)" by simp_all
  with Cons.IH c1(2) have "ok c'" and rest: "trace astep (map lab xs) (absf c1) (absf c')" by blast+
  moreover from first rest have "trace astep (map lab (x # xs)) (absf c) (absf c')" by (simp add: trace_Cons)
  ultimately show ?case by blast
qed (simp add: trace_Nil)

end

section \<open>What scripts can change\<close>

lemma run_script_keeps:
  assumes "run_script perf s sd ab h = Some (e, l, sd', ab', h')" "P h"
    and keeps: "\<And>c h r h'. P h \<Longrightarrow> perf c h = Some (r, h') \<Longrightarrow> P h'"
  shows "P h'"
proof -
  have "perf = perf \<longrightarrow> P h \<longrightarrow> (case res of (_, _, _, _, h') \<Rightarrow> P h')" if "run_script perf s sd ab h = Some res" for s sd ab h res
    using that
    by (rule run_script.raw_induct [where P = "\<lambda>pf s sd ab h res. pf = perf \<longrightarrow> P h \<longrightarrow> (case res of (_, _, _, _, h') \<Rightarrow> P h')", rotated])
      (auto split: script.splits option.splits dest: keeps)
  from this [OF assms(1)] assms(2) show ?thesis by simp
qed

lemma lua_pcall_keeps:
  assumes "lua_pcall vm perf nargs nres sb h = Some (ok, sb', h')" "P h"
    and keeps: "\<And>c h r h'. P h \<Longrightarrow> perf c h = Some (r, h') \<Longrightarrow> P h'"
  shows "P h'"
  using assms(1) by (auto simp: lua_pcall_def Let_def split: slot.splits option.splits
      dest!: run_script_keeps [where P = P, OF _ assms(2) keeps])

lemma sandbox_pcall_keeps:
  assumes "sandbox_pcall vm perf nargs nres sb h error = Some (oc, err, sb', h')" "P h"
    and keeps: "\<And>c h r h'. P h \<Longrightarrow> perf c h = Some (r, h') \<Longrightarrow> P h'"
  shows "P h'"
  using assms(1) by (auto simp: sandbox_pcall_def Let_def split: option.splits if_splits
      dest!: lua_pcall_keeps [where P = P, OF _ assms(2) keeps])

lemma call_global_keeps:
  assumes "call_global vm perf now name nres sb h error = Some (ok, err, sb', h')" "P h"
    and keeps: "\<And>c h r h'. P h \<Longrightarrow> perf c h = Some (r, h') \<Longrightarrow> P h'"
  shows "P h'"
proof (cases "vm_global vm (sb_lua sb) name")
  case (Some f)
  then obtain oc err2 sb2 where "sandbox_pcall vm perf 0 nres (begin_callback now (sb\<lparr>sb_stack := sb_stack sb @ [Func f]\<rparr>)) h error =
      Some (oc, err2, sb2, h')"
    using assms(1) by (auto simp: call_global_def split: option.splits)
  then show ?thesis using assms(2) keeps by (rule sandbox_pcall_keeps)
qed (use assms in \<open>simp add: call_global_def\<close>)

text \<open>The host of a driver: its invariant, and limits that are still those of its construction.\<close>

definition host_of :: "manifest \<Rightarrow> engine_limits \<Rightarrow> host_state \<Rightarrow> bool" where
  "host_of m limits h \<longleftrightarrow> host_inv h \<and> hs_manifest h = m
     \<and> rl_max_endpoints (hs_limits h) = min (el_max_endpoints_per_driver limits) (mf_max_endpoints m)
     \<and> rl_max_subscriptions (hs_limits h) = min (el_max_subscriptions_per_driver limits) (mf_max_subscriptions m)
     \<and> rl_max_events_per_second (hs_limits h) = el_max_events_per_second_per_driver limits"

definition driver_host_ok :: "manifest \<Rightarrow> engine_limits \<Rightarrow> 'l driver \<Rightarrow> bool" where
  "driver_host_ok m limits d \<longleftrightarrow> dr_limits d = limits \<and> host_of m limits (dr_host d)"

lemma host_of_init: "driver_host_ok m limits (driver_init m limits)"
  by (simp add: driver_host_ok_def host_of_def driver_init_def host_inv_def)

lemma perform_keeps_host:
  assumes "host_of m limits (fst s)" "perform be (register_lezcap m) c s = Some (r, s')"
  shows "host_of m limits (fst s')"
proof -
  from assms(1) have "host_inv (fst s)" by (simp add: host_of_def)
  then have "host_inv (fst s')" using assms(2) by (rule perform_inv)
  moreover have "hs_manifest (fst s') = hs_manifest (fst s) \<and> hs_limits (fst s') = hs_limits (fst s)"
    using perform_same [OF assms(2)] unfolding same_but_def by blast
  ultimately show ?thesis using assms(1) unfolding host_of_def by simp
qed

lemma host_calls_keep:
  assumes "driver_host_ok m limits d" "host_of m limits (fst s)" "host_calls env d c s = Some (r, s')"
  shows "host_of m limits (fst s')"
proof -
  have "hs_manifest (dr_host d) = m" using assms(1) by (simp add: driver_host_ok_def host_of_def)
  with assms(2,3) show ?thesis unfolding host_calls_def by (simp add: perform_keeps_host)
qed

text \<open>A script that ran changed the sandbox, the host and the log of its driver, and nothing else.\<close>

definition ran :: "manifest \<Rightarrow> engine_limits \<Rightarrow> 'l driver \<Rightarrow> 'l driver \<Rightarrow> bool" where
  "ran m limits d d' \<longleftrightarrow> (\<exists>sb h logs. d' = d\<lparr>dr_sandbox := Some sb, dr_host := h, dr_log := logs\<rparr>) \<and> driver_host_ok m limits d'"

lemma run_callback_ran:
  assumes "driver_host_ok m limits d" "run_callback env now nargs sb d = Some (oc, err, d')"
  shows "ran m limits d d'"
proof -
  obtain sb' h logs where call: "sandbox_pcall (de_vm env) (host_calls env d) nargs 0 (begin_callback now sb) (dr_host d, dr_log d)
        sandbox_error_init = Some (oc, err, sb', h, logs)"
      and d': "d' = d\<lparr>dr_sandbox := Some (end_callback sb'), dr_host := h, dr_log := logs\<rparr>"
    using assms(2) by (auto simp: run_callback_def split: option.splits)
  have "host_of m limits (fst (dr_host d, dr_log d))" using assms(1) by (simp add: driver_host_ok_def)
  then have "host_of m limits (fst (h, logs))"
    by (rule sandbox_pcall_keeps [where P = "\<lambda>s. host_of m limits (fst s)", OF call]) (rule host_calls_keep [OF assms(1)])
  with d' assms(1) show ?thesis unfolding ran_def driver_host_ok_def by auto
qed

lemma run_global_ran:
  assumes "driver_host_ok m limits d" "run_global env now name sb d = Some (ok, err, d')"
  shows "ran m limits d d'"
proof -
  obtain sb' h logs where call: "call_global (de_vm env) (host_calls env d) now name 0 sb (dr_host d, dr_log d)
        sandbox_error_init = Some (ok, err, sb', h, logs)"
      and d': "d' = d\<lparr>dr_sandbox := Some sb', dr_host := h, dr_log := logs\<rparr>"
    using assms(2) by (auto simp: run_global_def split: option.splits)
  have "host_of m limits (fst (dr_host d, dr_log d))" using assms(1) by (simp add: driver_host_ok_def)
  then have "host_of m limits (fst (h, logs))"
    by (rule call_global_keeps [where P = "\<lambda>s. host_of m limits (fst s)", OF call]) (rule host_calls_keep [OF assms(1)])
  with d' assms(1) show ?thesis unfolding ran_def driver_host_ok_def by auto
qed

section \<open>Faults\<close>

lemma backoff_le: "backoff_ms f = Some ms \<Longrightarrow> unat ms \<le> 8000"
  by (auto simp: backoff_ms_def min_def word_le_nat_alt split: if_splits)

lemma unat_min: "unat (min a b) = min (unat a) (unat b)"
  by (simp add: min_def word_le_nat_alt)

lemma unat_widen: "unat (ucast w :: u64) = unat (w :: u32)"
proof -
  have "unat w < 2 ^ 64" by (rule less_le_trans [OF unsigned_less]) simp
  then show ?thesis unfolding unsigned_ucast_eq by (simp add: take_bit_nat_eq_self_iff)
qed

text \<open>The shift never loses the value: below the cap it is exact, and above it the cap applies.\<close>

lemma backoff_exact:
  assumes "k < 32"
  shows "map_option unat (backoff_ms (of_nat (Suc k))) = Some (min (25 * 2 ^ k) 8000)"
proof -
  have u: "unat (of_nat k :: u32) = k" using assms by (simp add: unat_of_nat)
  have s: "of_nat (Suc k) - 1 = (of_nat k :: u32)" by simp
  have "map_option unat (backoff_ms (of_nat (Suc k))) = Some (unat (min (ucast (push_bit k (25 :: u32)) :: u64) 8000))"
    unfolding backoff_ms_def s u using assms by simp
  also have "unat (min (ucast (push_bit k (25 :: u32)) :: u64) 8000) = min (unat (push_bit k (25 :: u32))) 8000"
    unfolding unat_min unat_widen by simp
  also have "unat (push_bit k (25 :: u32)) = 25 * 2 ^ k mod 2 ^ 32"
    unfolding unsigned_push_bit_eq by (simp add: push_bit_eq_mult take_bit_eq_mod)
  also have "min (25 * 2 ^ k mod 2 ^ 32) 8000 = min (25 * 2 ^ k) (8000 :: nat)"
  proof (cases "k \<le> 27")
    case True
    then have "(2 :: nat) ^ k \<le> 2 ^ 27" by (rule power_increasing) simp
    then have "25 * 2 ^ k < (2 ^ 32 :: nat)" by simp
    then show ?thesis by (simp only: mod_less)
  next
    case False
    with assms have "k = 28 \<or> k = 29 \<or> k = 30 \<or> k = 31" by arith
    then show ?thesis by (elim disjE) simp_all
  qed
  finally show ?thesis .
qed

definition faulted :: "'l driver \<Rightarrow> 'l driver \<Rightarrow> bool" where
  "faulted d d' \<longleftrightarrow>
     (dr_state d', unat (dr_faults d')) = after_fault (unat (el_fault_threshold (dr_limits d))) (dr_state d) (unat (dr_faults d))
     \<and> dr_sandbox d' = dr_sandbox d \<and> dr_host d' = dr_host d \<and> dr_limits d' = dr_limits d
     \<and> dr_slept_ms d' \<le> dr_slept_ms d + 8000"

definition fault_room :: "'l driver \<Rightarrow> bool" where
  "fault_room d \<longleftrightarrow> unat (dr_faults d) < max 1 (unat (el_fault_threshold (dr_limits d)))"

lemma unat_inc: "unat w < max 1 (unat (v :: u32)) \<Longrightarrow> unat (w + 1 :: u32) = Suc (unat w)"
proof -
  assume "unat w < max 1 (unat v)"
  moreover have "unat v < 2 ^ 32" by (rule less_le_trans [OF unsigned_less]) simp
  ultimately have "unat w + 1 < 2 ^ 32" by simp
  then show ?thesis by (simp add: unat_word_ariths)
qed

lemma record_fault_faulted:
  assumes "record_fault code d = Some d'" "fault_room d"
  shows "faulted d d'"
proof -
  have n: "unat (dr_faults d + 1) = Suc (unat (dr_faults d))" using assms(2) unfolding fault_room_def by (rule unat_inc)
  have t: "el_fault_threshold (dr_limits d) \<le> dr_faults d + 1 \<longleftrightarrow> unat (el_fault_threshold (dr_limits d)) \<le> Suc (unat (dr_faults d))"
    unfolding word_le_nat_alt n ..
  show ?thesis
    using assms(1) n t by (auto simp: record_fault_def write_log_def Let_def faulted_def after_fault_def dest: backoff_le split: if_splits)
qed

text \<open>With a threshold of at most 33 the shift is always defined.\<close>

lemma record_fault_defined:
  assumes "fault_room d" "unat (el_fault_threshold (dr_limits d)) \<le> 33"
  shows "record_fault code d \<noteq> None"
proof (cases "el_fault_threshold (dr_limits d) \<le> dr_faults d + 1")
  case False
  then have "unat (dr_faults d) < 32"
    using assms unat_inc [of "dr_faults d" "el_fault_threshold (dr_limits d)"] by (simp add: fault_room_def word_le_nat_alt)
  with False show ?thesis by (simp add: record_fault_def write_log_def Let_def backoff_ms_def)
qed (simp add: record_fault_def Let_def write_log_def)

section \<open>The operations refine the lifecycle\<close>

definition driver_inv :: "manifest \<Rightarrow> engine_limits \<Rightarrow> 'l driver \<Rightarrow> bool" where
  "driver_inv m limits d \<longleftrightarrow>
     driver_host_ok m limits d
     \<and> (dr_state d \<in> {Loaded, Started} \<longrightarrow> dr_sandbox d \<noteq> None)
     \<and> (dr_state d \<in> {Discovered, Failed} \<longrightarrow> dr_sandbox d = None)
     \<and> (dr_state d \<in> {Discovered, Loaded, Started} \<longrightarrow> fault_room d)
     \<and> unat (dr_faults d) \<le> max 1 (unat (el_fault_threshold limits))
     \<and> dr_slept_ms d \<le> 8000 * unat (dr_faults d)"

lemma driver_inv_init: "driver_inv m limits (driver_init m limits)"
  unfolding driver_inv_def by (intro conjI host_of_init) (simp_all add: fault_room_def driver_init_def less_max_iff_disj)

text \<open>Running a script keeps everything but the sandbox, the host and the log.\<close>

lemma ran_facts:
  assumes "ran m limits d d'"
  shows "driver_host_ok m limits d'" "dr_state d' = dr_state d" "dr_faults d' = dr_faults d" "dr_limits d' = dr_limits d"
    "dr_slept_ms d' = dr_slept_ms d" "dr_sandbox d' \<noteq> None"
  using assms by (auto simp: ran_def)

text \<open>A fault after a script ran, in an active state.\<close>

lemma faulted_inv:
  assumes "driver_inv m limits d" "ran m limits d d1" "faulted d1 d2" "dr_state d \<in> {Loaded, Started}"
  shows "driver_inv m limits d2 \<and> abs_driver d2 = after_fault (unat (el_fault_threshold limits)) (dr_state d) (unat (dr_faults d))"
  using assms ran_facts [OF assms(2)]
  by (auto simp: driver_inv_def faulted_def abs_driver_def after_fault_def fault_room_def driver_host_ok_def split: if_splits)

lemma ran_inv:
  assumes "driver_inv m limits d" "ran m limits d d1" "dr_state d \<in> {Loaded, Started}"
  shows "driver_inv m limits d1 \<and> fault_room d1"
  using assms ran_facts [OF assms(2)] by (auto simp: driver_inv_def fault_room_def)

text \<open>A driver while it is loaded, which already has its sandbox.\<close>

definition loading :: "manifest \<Rightarrow> engine_limits \<Rightarrow> 'l driver \<Rightarrow> bool" where
  "loading m limits d \<longleftrightarrow> driver_host_ok m limits d \<and> fault_room d \<and> dr_slept_ms d \<le> 8000 * unat (dr_faults d)"

lemma loading_ran: "loading m limits d \<Longrightarrow> ran m limits d d' \<Longrightarrow> loading m limits d'"
  using ran_facts [of m limits d d'] by (simp add: loading_def fault_room_def)

lemma load_failed_simulates:
  assumes "loading m limits d" "load_failed e d = (r, d')"
  shows "driver_inv m limits d' \<and> lifecycle T Do_load (Discovered, unat (dr_faults d)) (abs_driver d')"
  using assms by (auto simp: load_failed_def loading_def driver_inv_def driver_host_ok_def fault_room_def abs_driver_def intro: load_fails)

lemma load_fault_simulates:
  assumes "loading m limits d" "record_fault code d = Some d1" "load_failed e d1 = (r, d')"
  shows "driver_inv m limits d' \<and> lifecycle T Do_load (Discovered, unat (dr_faults d)) (abs_driver d')"
proof -
  have "faulted d d1" using assms(1,2) by (intro record_fault_faulted) (simp_all add: loading_def)
  moreover from this have "unat (dr_faults d1) = Suc (unat (dr_faults d))" by (simp add: faulted_def after_fault_def)
  ultimately show ?thesis
    using assms(1,3) load_fault [of T "unat (dr_faults d)"]
    by (auto simp: load_failed_def loading_def driver_inv_def driver_host_ok_def fault_room_def abs_driver_def faulted_def)
qed

lemma call_on_load_simulates:
  assumes l: "loading m limits d" and c: "call_on_load env now d = Some (r, d')"
  shows "driver_inv m limits d' \<and> lifecycle T Do_load (Discovered, unat (dr_faults d)) (abs_driver d')"
proof -
  obtain sb where sb: "dr_sandbox d = Some sb" using c by (auto simp: call_on_load_def split: option.splits)
  show ?thesis
  proof (cases "vm_global (de_vm env) (sb_lua sb) ''on_load''")
    case None
    with c sb have "load_failed ''script does not define on_load'' d = (r, d')" by (simp add: call_on_load_def)
    with l show ?thesis by (rule load_failed_simulates)
  next
    case (Some f)
    then obtain oc err d1 where run: "run_callback env now 1
        (sb\<lparr>sb_stack := sb_stack sb @ [Func f, Value (load_context (hs_manifest (dr_host d)))]\<rparr>) d = Some (oc, err, d1)"
      using c sb by (auto simp: call_on_load_def split: option.splits)
    have "driver_host_ok m limits d" using l by (simp add: loading_def)
    note ran = run_callback_ran [OF this run]
    have l1: "loading m limits d1" using l ran by (rule loading_ran)
    note f = ran_facts [OF ran]
    show ?thesis
    proof (cases "oc = Ok")
      case True
      with c sb Some run have "d' = write_log LvInfo (''lua.driver loaded name='' @ mf_name (hs_manifest (dr_host d1))) (d1\<lparr>dr_state := Loaded\<rparr>)"
        by (simp add: call_on_load_def)
      with f l1 load_ok [of T "unat (dr_faults d)"] show ?thesis
        by (auto simp: write_log_def loading_def driver_inv_def driver_host_ok_def fault_room_def abs_driver_def)
    next
      case False
      with c sb Some run obtain d2 where "record_fault (se_code err) d1 = Some d2" "load_failed (se_message err) d2 = (r, d')"
        by (auto simp: call_on_load_def)
      with load_fault_simulates [OF l1 this] f(3) show ?thesis by simp
    qed
  qed
qed

lemma load_simulates:
  assumes i: "driver_inv m limits d" and s: "driver_load env now1 now2 source po d = Some (r, d')"
  shows "driver_inv m limits d' \<and> lifecycle (unat (el_fault_threshold limits)) Do_load (abs_driver d) (abs_driver d')"
proof (cases "dr_state d = Discovered")
  case disc: True
  have l: "loading m limits d" using i disc by (simp add: driver_inv_def loading_def)
  have a: "abs_driver d = (Discovered, unat (dr_faults d))" using disc by (simp add: abs_driver_def)
  show ?thesis
  proof (cases "de_create env (el_sandbox_budgets (dr_limits d))")
    case None
    with s disc have "load_failed ''sandbox construction failed'' d = (r, d')" by (simp add: driver_load_def)
    with l show ?thesis unfolding a by (rule load_failed_simulates)
  next
    case (Some sb)
    then obtain registry where reg: "policy_registry (be_dump (de_bind env)) po = Some registry"
      using s disc by (auto simp: driver_load_def split: option.splits)
    let ?d = "d\<lparr>dr_registry := registry, dr_sandbox := Some sb\<rparr>"
    have l0: "loading m limits ?d" using l by (auto simp: loading_def driver_host_ok_def fault_room_def)
    show ?thesis
    proof (cases "load_source (de_vm env) (''=@'' @ mf_script_path (hs_manifest (dr_host d))) source sb")
      case (Inl err)
      with s disc Some reg have "load_failed (se_message err) ?d = (r, d')" by (simp add: driver_load_def Let_def)
      from load_failed_simulates [OF l0 this] show ?thesis unfolding a by simp
    next
      case (Inr sb1)
      then obtain oc err d1 where run: "run_callback env now1 0 sb1 ?d = Some (oc, err, d1)"
          and k: "(if oc \<noteq> Ok then Some (load_failed (se_message err) d1) else call_on_load env now2 d1) = Some (r, d')"
        using s disc Some reg by (auto simp: driver_load_def Let_def split: option.splits)
      have "driver_host_ok m limits ?d" using l0 by (simp add: loading_def)
      note ran = run_callback_ran [OF this run]
      have l1: "loading m limits d1" using l0 ran by (rule loading_ran)
      from ran_facts [OF ran] have "dr_faults d1 = dr_faults d" by simp
      with k load_failed_simulates [OF l1] call_on_load_simulates [OF l1] show ?thesis
        unfolding a by (simp split: if_splits)
    qed
  qed
next
  case False
  with i s show ?thesis by (auto simp: driver_load_def abs_driver_def intro: load_refused)
qed

lemma start_simulates:
  assumes i: "driver_inv m limits d" and s: "driver_start env now d = Some (r, d')"
  shows "driver_inv m limits d' \<and> lifecycle (unat (el_fault_threshold limits)) Do_start (abs_driver d) (abs_driver d')"
proof (cases "dr_state d = Loaded")
  case True
  then obtain sb ok err d1 where run: "run_global env now ''on_start'' sb d = Some (ok, err, d1)"
      and k: "(if \<not> ok then map_option (Pair (Inl (se_message err))) (record_fault (se_code err) d1)
        else Some (Inr (), d1\<lparr>dr_state := Started\<rparr>)) = Some (r, d')"
    using s by (auto simp: driver_start_def split: option.splits)
  have "driver_host_ok m limits d" using i by (simp add: driver_inv_def)
  note ran = run_global_ran [OF this run]
  have i1: "driver_inv m limits d1" "fault_room d1" using ran_inv [OF i ran] True by simp_all
  show ?thesis
  proof (cases ok)
    case ok: True
    with k i1 ran_facts [OF ran] True start_ok [of "unat (el_fault_threshold limits)" "unat (dr_faults d)"] show ?thesis
      by (auto simp: driver_inv_def driver_host_ok_def fault_room_def abs_driver_def)
  next
    case False
    with k obtain d2 where "record_fault (se_code err) d1 = Some d2" "d' = d2" by auto
    with i1(2) have "faulted d1 d'" by (auto intro: record_fault_faulted)
    with faulted_inv [OF i ran this] True show ?thesis by (simp add: start_fault abs_driver_def)
  qed
next
  case False
  with i s show ?thesis by (auto simp: driver_start_def abs_driver_def intro: start_refused)
qed

lemma on_event_cases:
  assumes "on_event env now e d = Some d'"
  obtains "d' = d"
  | sb f oc err d1 where "dr_state d = Started" "dr_sandbox d = Some sb" "subscribed (hs_manifest (dr_host d)) e"
      "filters_pass (hs_capture_filters (dr_host d)) e" "vm_global (de_vm env) (sb_lua sb) ''on_event'' = Some f"
      "run_callback env now 1 (sb\<lparr>sb_stack := sb_stack sb @ [Func f, Value (push_event_table e)]\<rparr>) d = Some (oc, err, d1)"
      "(if oc \<noteq> Ok then record_fault (se_code err) d1 else Some d1) = Some d'"
  using assms by (auto simp: on_event_def split: option.splits if_splits)

lemma on_event_simulates:
  assumes i: "driver_inv m limits d" and s: "on_event env now e d = Some d'"
  shows "driver_inv m limits d' \<and> lifecycle (unat (el_fault_threshold limits)) Do_event (abs_driver d) (abs_driver d')"
  using s
proof (cases rule: on_event_cases)
  case 1
  with i show ?thesis by (simp add: abs_driver_def event_done)
next
  case (2 sb f oc err d1)
  have "driver_host_ok m limits d" using i by (simp add: driver_inv_def)
  note ran = run_callback_ran [OF this 2(6)]
  have i1: "driver_inv m limits d1" "fault_room d1" using ran_inv [OF i ran] 2(1) by simp_all
  show ?thesis
  proof (cases "oc = Ok")
    case True
    with 2(7) i1 ran_facts [OF ran] show ?thesis by (simp add: abs_driver_def event_done)
  next
    case False
    with 2(7) i1(2) have "faulted d1 d'" by (auto intro: record_fault_faulted)
    with faulted_inv [OF i ran this] 2(1) show ?thesis by (simp add: event_fault abs_driver_def)
  qed
qed

text \<open>What remains of \<open>stop\<close> once \<open>on_stop\<close> was called.\<close>

definition torn_down :: "'l driver \<Rightarrow> 'l driver" where
  "torn_down d = (let d = d\<lparr>dr_sandbox := None\<rparr>
     in if dr_state d = Started \<or> dr_state d = Loaded then d\<lparr>dr_state := Discovered\<rparr> else d)"

lemma torn_down_inv:
  "driver_inv m limits d \<Longrightarrow> driver_inv m limits (torn_down d)
    \<and> abs_driver (torn_down d) = (if dr_state d \<in> {Loaded, Started} then Discovered else dr_state d, unat (dr_faults d))"
  by (auto simp: torn_down_def driver_inv_def driver_host_ok_def fault_room_def abs_driver_def Let_def)

lemma stop_simulates:
  assumes i: "driver_inv m limits d" and s: "driver_stop env now d = Some d'"
  shows "driver_inv m limits d' \<and> lifecycle (unat (el_fault_threshold limits)) Do_stop (abs_driver d) (abs_driver d')"
proof -
  obtain d1 where c: "call_on_stop env now d = Some d1" and d': "d' = torn_down d1"
    using s by (auto simp: driver_stop_def torn_down_def)
  show ?thesis
  proof (cases "dr_state d = Started")
    case True
    then obtain sb where sb: "dr_sandbox d = Some sb" using i by (auto simp: driver_inv_def)
    then obtain ok err d2 where run: "run_global env now ''on_stop'' sb d = Some (ok, err, d2)"
        and k: "(if \<not> ok then record_fault (se_code err) d2 else Some d2) = Some d1"
      using c True by (auto simp: call_on_stop_def split: option.splits)
    have "driver_host_ok m limits d" using i by (simp add: driver_inv_def)
    note ran = run_global_ran [OF this run]
    have i2: "driver_inv m limits d2" "fault_room d2" using ran_inv [OF i ran] True by simp_all
    show ?thesis
    proof (cases ok)
      case ok: True
      with k torn_down_inv [OF i2(1)] ran_facts [OF ran] True show ?thesis
        unfolding d' by (auto simp: abs_driver_def intro: stop_started)
    next
      case False
      with k i2(2) have "faulted d2 d1" by (auto intro: record_fault_faulted)
      with faulted_inv [OF i ran this] True
      have f: "driver_inv m limits d1" "abs_driver d1 = after_fault (unat (el_fault_threshold limits)) Started (unat (dr_faults d))"
        by simp_all
      then have "abs_driver (torn_down d1) = after_fault (unat (el_fault_threshold limits)) Discovered (unat (dr_faults d))"
        using torn_down_inv [OF f(1)] by (auto simp: abs_driver_def after_fault_def split: if_splits)
      with torn_down_inv [OF f(1)] True show ?thesis unfolding d' by (simp add: abs_driver_def stop_fault)
    qed
  next
    case False
    with c have "d1 = d" by (auto simp: call_on_stop_def split: option.splits)
    with torn_down_inv [OF i] False show ?thesis
      unfolding d' by (auto simp: abs_driver_def intro: stop_idle stop_loaded)
  qed
qed

interpretation driver_lifecycle:
  simulation "driver_step env" "lifecycle (unat (el_fault_threshold limits))" label abs_driver "driver_inv m limits" for env m limits
proof
  fix d d' :: "'a driver" and x
  assume i: "driver_inv m limits d" and s: "driver_step env x d = Some d'"
  show "driver_inv m limits d' \<and> lifecycle (unat (el_fault_threshold limits)) (label x) (abs_driver d) (abs_driver d')"
  proof (cases x)
    case (Load_op now1 now2 source po)
    with s obtain r where "driver_load env now1 now2 source po d = Some (r, d')" by auto
    from load_simulates [OF i this] Load_op show ?thesis by simp
  next
    case (Start_op now)
    with s obtain r where "driver_start env now d = Some (r, d')" by auto
    from start_simulates [OF i this] Start_op show ?thesis by simp
  next
    case (Event_op now e)
    with s on_event_simulates [OF i] show ?thesis by simp
  next
    case (Stop_op now)
    with s stop_simulates [OF i] show ?thesis by simp
  qed
qed

section \<open>Quarantine\<close>

text \<open>A driver that is quarantined or failed refuses everything; stopping it only releases its sandbox.\<close>

lemma inactive_step:
  assumes "dr_state d \<in> {Quarantined, Failed}"
  shows "\<exists>d'. driver_step env x d = Some d' \<and> dr_state d' = dr_state d \<and> dr_faults d' = dr_faults d
    \<and> dr_host d' = dr_host d \<and> dr_log d' = dr_log d"
proof -
  have "call_on_stop env now d = Some d" for now using assms by (auto simp: call_on_stop_def split: option.splits)
  with assms show ?thesis
    by (cases x) (auto simp: driver_load_def driver_start_def on_event_def driver_stop_def Let_def split: option.split)
qed

lemma inactive_run:
  "dr_state d \<in> {Quarantined, Failed} \<Longrightarrow> \<exists>d'. run_ops (driver_step env) xs d = Some d' \<and> dr_state d' = dr_state d
    \<and> dr_faults d' = dr_faults d \<and> dr_host d' = dr_host d \<and> dr_log d' = dr_log d"
proof (induction xs arbitrary: d)
  case (Cons x xs)
  from inactive_step [OF Cons.prems] obtain d1 where d1: "driver_step env x d = Some d1" "dr_state d1 = dr_state d"
      "dr_faults d1 = dr_faults d" "dr_host d1 = dr_host d" "dr_log d1 = dr_log d" by blast
  with Cons.IH [of d1] Cons.prems show ?case by auto
qed simp

section \<open>Filters\<close>

definition filter_accepts :: "event \<Rightarrow> capture_filter \<Rightarrow> bool" where
  "filter_accepts e f \<longleftrightarrow>
     (fi_event_type f = [] \<or> fi_event_type f = event_type_name (ev_type e))
     \<and> (fi_transport f = [] \<or> (\<forall>n. ev_network e = Some n \<longrightarrow> fi_transport f = transport_name (net_transport n)))
     \<and> (fi_min_confidence_permille f = 0 \<or> of_nat (unat (fi_min_confidence_permille f)) \<le> fmul (ev_confidence e) 1000)"

lemma filters_pass_iff: "filters_pass fs e \<longleftrightarrow> list_all (filter_accepts e) fs"
  by (induction fs) (auto simp: filter_accepts_def not_less word_neq_0_conv split: option.splits)

text \<open>A filter may be registered under a name in any case, but then no event passes it.\<close>

lemma folded_filter_blocks:
  "event_type_from_name ''DNS'' = Some Dns \<and> (f \<in> set fs \<longrightarrow> fi_event_type f = ''DNS'' \<longrightarrow> \<not> filters_pass fs e)"
proof
  show "event_type_from_name ''DNS'' = Some Dns" by code_simp
  have name: "''DNS'' \<noteq> event_type_name (ev_type e)" by (cases "ev_type e") simp_all
  show "f \<in> set fs \<longrightarrow> fi_event_type f = ''DNS'' \<longrightarrow> \<not> filters_pass fs e"
  proof (intro impI notI)
    assume "f \<in> set fs" "fi_event_type f = ''DNS''" "filters_pass fs e"
    then have "filter_accepts e f" by (simp add: filters_pass_iff list_all_iff)
    with name \<open>fi_event_type f = ''DNS''\<close> show False by (simp add: filter_accepts_def)
  qed
qed

text \<open>The part of an event that reaches scripts.\<close>

definition script_view :: "event \<Rightarrow> event" where
  "script_view e = e\<lparr>ev_schema_version := 0, ev_backend_statuses := [], ev_error_code := [], ev_error_message := [],
     ev_browser := map_option (\<lambda>b. b\<lparr>br_window_id := 0, br_navigation_id := [], br_frame_id := 0\<rparr>) (ev_browser e)\<rparr>"

lemma script_view_accepts: "filter_accepts (script_view e) = filter_accepts e"
  by (rule ext) (simp add: filter_accepts_def script_view_def)

lemma script_view_same:
  "push_event_table (script_view e) = push_event_table e" "subscribed m (script_view e) = subscribed m e"
  "filters_pass fs (script_view e) = filters_pass fs e"
proof -
  show "push_event_table (script_view e) = push_event_table e"
    by (auto simp: push_event_table_def script_view_def sub_table_def browser_table_def split: option.splits)
  show "subscribed m (script_view e) = subscribed m e" by (simp add: subscribed_def script_view_def)
  show "filters_pass fs (script_view e) = filters_pass fs e" by (simp add: filters_pass_iff script_view_accepts)
qed

section \<open>Scripts\<close>

text \<open>What \<^verbatim>\<open>read\<close> does: it gives at most as many bytes as were asked for, and they are those of the file at the offset.\<close>

definition reads_file :: "'f file_api \<Rightarrow> ('f \<Rightarrow> string) \<Rightarrow> bool" where
  "reads_file fs content \<longleftrightarrow> (\<forall>fd off n c. fa_read fs fd off n = Some c \<longrightarrow> length c \<le> n \<and> prefix c (drop off (content fd)))"

lemma read_fully_content:
  "reads_file fs content \<Longrightarrow> read_fully fs fd bytes source = Inr r \<Longrightarrow> length source \<le> bytes \<Longrightarrow> prefix source (content fd) \<Longrightarrow>
    r = take bytes (content fd) \<and> bytes \<le> length (content fd)"
proof (induction fs fd bytes source rule: read_fully.induct)
  case (1 fs fd bytes source)
  show ?case
  proof (cases "length source < bytes")
    case True
    with 1(3) obtain chunk where chunk: "fa_read fs fd (length source) (bytes - length source) = Some chunk" "chunk \<noteq> []"
        and rest: "read_fully fs fd bytes (source @ chunk) = Inr r"
      by (subst (asm) read_fully.simps) (auto split: option.splits if_splits)
    from 1(2) chunk(1) have c: "length chunk \<le> bytes - length source" "prefix chunk (drop (length source) (content fd))"
      unfolding reads_file_def by blast+
    have "prefix (source @ chunk) (content fd)" using 1(5) c(2) by (auto simp: prefix_def)
    moreover have "length (source @ chunk) \<le> bytes" using c(1) True by simp
    ultimately show ?thesis using 1(1) [OF True chunk 1(2) rest] by blast
  next
    case False
    with 1(3) have "r = source" by (subst (asm) read_fully.simps) simp
    with False 1(4,5) show ?thesis by (auto simp: prefix_def)
  qed
qed

lemma read_script_Inr:
  assumes "read_script_safely fs path = Inr source" "reads_file fs content"
  obtains fd st_size resolved where "fa_open fs (c_str path) = Some fd" "fa_fstat fs fd = Some (True, st_size)"
    "nat (st_size mod 2 ^ 64) \<le> kMaxScriptBytes" "fa_readlink fs fd = Some resolved" "take 4095 resolved = path"
    "source = take (nat (st_size mod 2 ^ 64)) (content fd)" "length source = nat (st_size mod 2 ^ 64)"
proof -
  obtain fd st_size resolved where f: "fa_open fs (c_str path) = Some fd" "fa_fstat fs fd = Some (True, st_size)"
    "nat (st_size mod 2 ^ 64) \<le> kMaxScriptBytes" "fa_readlink fs fd = Some resolved" "take 4095 resolved = path"
    "read_fully fs fd (nat (st_size mod 2 ^ 64)) [] = Inr source"
    using assms(1) unfolding read_script_safely_def Let_def by (auto split: option.splits if_splits)
  from read_fully_content [OF assms(2) f(6)]
  have "source = take (nat (st_size mod 2 ^ 64)) (content fd)" "nat (st_size mod 2 ^ 64) \<le> length (content fd)" by simp_all
  with f that show thesis by simp
qed

lemma read_manifests_elem: "x \<in> set (read_manifests fs paths) \<longleftrightarrow> fst x \<in> set paths \<and> read_script_safely fs (fst x) = Inr (snd x)"
  by (cases x) (auto simp: read_manifests_def split: sum.splits)

text \<open>A manifest that was found is a file of that name in an allowlisted directory, read with the same care as a script.\<close>

lemma discovered_manifest:
  "(path, text) \<in> set (discover_manifests fs dirs) \<Longrightarrow>
    \<exists>dir\<in>set dirs. \<exists>name. dir \<noteq> [] \<and> path = entry_path dir name \<and> manifest_name name \<and> read_script_safely fs path = Inr text"
  by (induction dirs) (auto simp: read_manifests_elem split: if_splits option.splits)

text \<open>When \<open>load_from_manifest_text\<close> returns a driver.\<close>

lemma loaded_result_iff:
  "map_option (\<lambda>(r, d). case r of Inl e \<Rightarrow> Inl e | Inr (_ :: unit) \<Rightarrow> Inr d) x = Some (Inr d) \<longleftrightarrow> x = Some (Inr (), d)"
  by (cases x) (auto split: sum.splits)

lemma load_from_manifest_Inr:
  assumes "load_from_manifest_text env fs parse now1 now2 en manifest_text po = Some (Inr d)"
  obtains m source where "manifest_parse parse manifest_text = Inr m"
    "en_allowdirs en \<noteq> [] \<longrightarrow> path_within_allowlist (mf_script_path m) (en_allowdirs en)"
    "read_script_safely fs (mf_script_path m) = Inr source" "verify_script_hash m source = Some (Inr ())"
    "driver_load env now1 now2 source po (driver_init m (en_limits en)) = Some (Inr (), d)"
  using assms unfolding load_from_manifest_text_def
  by (auto simp: loaded_result_iff simp del: map_option_eq_Some split: sum.splits if_splits option.splits)

section \<open>A sample driver\<close>

text \<open>A script whose \<open>on_event\<close> always raises an error, and an empty file it is read from.\<close>

definition sample_vm :: "(unit, lezcap_call, lua_value list) lua_vm" where
  "sample_vm = \<lparr>vm_compile = \<lambda>_ _ _. Inr (\<lambda>_ l. Done (Results []) l),
     vm_global = (\<lambda>_. [''on_load'' \<mapsto> \<lambda>_ l. Done (Results []) l, ''on_event'' \<mapsto> \<lambda>_ l. Done (Raised LNil) l]),
     vm_traceback = \<lambda>_. [], vm_tostring = \<lambda>_. None, vm_memory_error = []\<rparr>"

definition sample_sandbox :: "budgets \<Rightarrow> unit driver_sandbox" where
  "sample_sandbox b = \<lparr>sb_lua = (), sb_stack = [], sb_data = state_data_init, sb_budgets = b, sb_aborted = False\<rparr>"

definition sample_driver_env :: "unit driver_env" where
  "sample_driver_env = \<lparr>de_vm = sample_vm, de_bind = sample_bindings, de_create = \<lambda>b. Some (sample_sandbox b)\<rparr>"

lemmas sample_run_simps = sample_driver_env_def sample_vm_def sample_sandbox_def sample_bindings_def policy_registry_def load_source_def
  run_callback_def run_global_def call_global_def sandbox_pcall_def lua_pcall_def lua_insert_def lua_remove_def adjust_def
  begin_callback_def end_callback_def sandbox_error_init_def write_log_def

lemma sample_loads:
  "\<exists>d. driver_load sample_driver_env 0 0 [] policy_init (driver_init m limits) = Some (Inr (), d) \<and> dr_state d = Loaded \<and> dr_faults d = 0"
  by (simp add: driver_load_def call_on_load_def sample_run_simps driver_init_def Let_def)

definition sample_ops :: "driver_op list" where
  "sample_ops = [Load_op 0 0 [] policy_init, Start_op 0, Event_op 0 event_init, Event_op 0 event_init, Event_op 0 event_init]"

lemma sample_quarantined:
  "\<exists>d. run_ops (driver_step sample_driver_env) sample_ops (driver_init manifest_init engine_limits_default) = Some d
    \<and> dr_state d = Quarantined \<and> dr_faults d = 3 \<and> dr_slept_ms d = 75"
  by (simp add: sample_ops_def driver_load_def call_on_load_def driver_start_def on_event_def sample_run_simps driver_init_def Let_def subscribed_def
      record_fault_def backoff_ms_def engine_limits_default_def manifest_init_def state_data_init_def)
    (simp add: word_le_nat_alt)

definition sample_started :: "string list \<Rightarrow> unit driver" where
  "sample_started types = (driver_init (manifest_init\<lparr>mf_event_types := types\<rparr>) engine_limits_default)
     \<lparr>dr_state := Started, dr_sandbox := Some (sample_sandbox budgets_default)\<rparr>"

definition sample_files :: "unit file_api" where
  "sample_files = \<lparr>fa_open = \<lambda>p. if p = ''/d/a.lua'' then Some () else None, fa_fstat = \<lambda>_. Some (True, 0),
     fa_readlink = \<lambda>_. Some ''/d/a.lua'', fa_read = \<lambda>_ _ _. None, fa_list = \<lambda>_. None\<rparr>"

definition sample_engine :: driver_engine where
  "sample_engine = \<lparr>en_limits = engine_limits_default, en_allowdirs = [''/d'']\<rparr>"

definition sample_manifest :: json where
  "sample_manifest = JObject [(''name'', JString ''a-1''), (''script'', JString ''/d/a.lua''), (''version'', JString ''1.2'')]"

lemma sample_manifest_parsed:
  "manifest_parse (\<lambda>_. Some sample_manifest) [] =
    Inr (manifest_init\<lparr>mf_name := ''a-1'', mf_version := ''1.2'', mf_script_path := ''/d/a.lua''\<rparr>)"
  by (simp add: sample_manifest_def manifest_parse_def manifest_document_def required_string_def manifest_string_def check_pin_def
      when_member_def member_def valid_name_def valid_manifest_version_def manifest_init_def is_digit_def is_alnum_def is_upper_def is_lower_def)

lemma sample_script_loads:
  "\<exists>d. load_from_manifest_text sample_driver_env sample_files (\<lambda>_. Some sample_manifest) 0 0 sample_engine [] policy_init = Some (Inr d)"
proof -
  obtain d where "driver_load sample_driver_env 0 0 [] policy_init
      (driver_init (manifest_init\<lparr>mf_name := ''a-1'', mf_version := ''1.2'', mf_script_path := ''/d/a.lua''\<rparr>) engine_limits_default) = Some (Inr (), d)"
    using sample_loads by blast
  then show ?thesis
    by (simp add: load_from_manifest_text_def sample_manifest_parsed sample_engine_def read_script_safely_def sample_files_def
        read_fully.simps [of _ _ 0] kMaxScriptBytes_def verify_script_hash_def c_str_def manifest_init_def)
qed

definition sample_create :: "unit create_env" where
  "sample_create = \<lparr>ce_new_data = True, ce_malloc = \<lambda>_. True, ce_state_size = 4096, ce_newstate = \<lambda>ctx. Some ((), ctx),
     ce_globals = \<lambda>_ l. l, ce_libs = \<lparr>ll_open = \<lambda>_ g. (g, GOther), ll_base = \<lambda>g. g\<rparr>, ce_new_sandbox = Some 1\<rparr>"

section \<open>Properties\<close>



text \<open>
  C18: quarantine ends a driver.  A driver never has more faults than the threshold, or one when that is zero, and never makes the
  engine wait more than eight seconds for each of them.  Once it is quarantined or failed, every further operation returns, and none of
  them runs the script, changes the host or writes to the log.
\<close>

theorem quarantine_final:
  assumes "run_ops (driver_step env) xs (driver_init m limits) = Some d"
  shows "unat (dr_faults d) \<le> max 1 (unat (el_fault_threshold limits)) \<and> dr_slept_ms d \<le> 8000 * unat (dr_faults d)
    \<and> (dr_state d \<in> {Quarantined, Failed} \<longrightarrow>
        (\<exists>d'. run_ops (driver_step env) ys d = Some d' \<and> dr_state d' = dr_state d \<and> dr_faults d' = dr_faults d
           \<and> dr_host d' = dr_host d \<and> dr_log d' = dr_log d))"
proof -
  have "driver_inv m limits d" using driver_lifecycle.run_simulates [OF driver_inv_init assms] by blast
  then show ?thesis using inactive_run [of d env ys] by (auto simp: driver_inv_def)
qed

theorem quarantine_final_witness:
  "\<exists>d d'. run_ops (driver_step sample_driver_env) sample_ops (driver_init manifest_init engine_limits_default) = Some d
    \<and> run_ops (driver_step sample_driver_env) sample_ops d = Some d' \<and> dr_faults d' = 3 \<and> dr_log d' = dr_log d"
proof -
  obtain d where d: "run_ops (driver_step sample_driver_env) sample_ops (driver_init manifest_init engine_limits_default) = Some d"
      "dr_state d = Quarantined" "dr_faults d = 3" "dr_slept_ms d = 75" using sample_quarantined by blast
  with quarantine_final [OF d(1), of sample_ops] show ?thesis by auto
qed

text \<open>
  C22: an event changes a driver only if the driver is started, subscribed to events of that type, and every capture filter lets the
  event pass.  The error texts, the status of the backends and the ids of windows, frames and navigations never
  influence a driver.
\<close>

theorem event_delivery:
  "(on_event env now e d = Some d' \<and> d' \<noteq> d \<longrightarrow>
      dr_state d = Started
      \<and> (mf_event_types (hs_manifest (dr_host d)) = [] \<or> event_type_name (ev_type e) \<in> set (mf_event_types (hs_manifest (dr_host d))))
      \<and> list_all (filter_accepts e) (hs_capture_filters (dr_host d)))
    \<and> on_event env now (script_view e) d = on_event env now e d"
proof
  show "on_event env now e d = Some d' \<and> d' \<noteq> d \<longrightarrow>
      dr_state d = Started
      \<and> (mf_event_types (hs_manifest (dr_host d)) = [] \<or> event_type_name (ev_type e) \<in> set (mf_event_types (hs_manifest (dr_host d))))
      \<and> list_all (filter_accepts e) (hs_capture_filters (dr_host d))"
    by (auto simp: subscribed_def list_ex_iff filters_pass_iff elim!: on_event_cases)
  show "on_event env now (script_view e) d = on_event env now e d"
    unfolding on_event_def script_view_same ..
qed

theorem event_delivery_witness:
  "\<exists>d'. on_event sample_driver_env 0 event_init (sample_started [''connection'']) = Some d'
    \<and> d' \<noteq> sample_started [''connection''] \<and> event_type_name (ev_type event_init) \<in> set [''connection'']"
proof -
  let ?d = "sample_started [''connection'']"
  have "\<exists>d'. on_event sample_driver_env 0 event_init ?d = Some d' \<and> dr_faults d' = 1"
    by (simp add: sample_started_def on_event_def sample_run_simps driver_init_def Let_def subscribed_def event_init_def
      record_fault_def backoff_ms_def engine_limits_default_def manifest_init_def state_data_init_def)
  then obtain d' where d': "on_event sample_driver_env 0 event_init ?d = Some d'" "dr_faults d' = 1" by blast
  have "dr_faults ?d = 0" by (simp add: sample_started_def driver_init_def)
  with d' have "d' \<noteq> ?d" by auto
  with d' event_delivery [of sample_driver_env 0 event_init ?d d'] show ?thesis
    by (auto simp: sample_started_def driver_init_def)
qed



text \<open>
  C40: with the sandbox as it is written no driver can be loaded.  Whatever the manifest, the script, the files and the interpreter are,
  \<open>load_from_manifest_text\<close> does not return a driver, since \<open>Sandbox::create\<close> always fails.
\<close>

theorem no_driver_loads:
  assumes "de_create env = sandbox_create ce" "ce_state_size ce \<noteq> 0"
    "unat (bu_max_memory_bytes (el_sandbox_budgets (en_limits en))) + unat (ce_state_size ce) < 2 ^ 64"
  shows "load_from_manifest_text env fs parse now1 now2 en manifest_text po \<noteq> Some (Inr d)"
proof -
  have "de_create env (el_sandbox_budgets (en_limits en)) = None" unfolding assms(1) by (rule create_refused) (fact assms)+
  then have "driver_load env now1 now2 source po (driver_init m (en_limits en)) =
      Some (load_failed ''sandbox construction failed'' (driver_init m (en_limits en)))" for source m
    by (simp add: driver_load_def driver_init_def)
  then show ?thesis by (auto simp: load_failed_def elim!: load_from_manifest_Inr)
qed

theorem no_driver_loads_witness:
  "\<forall>d. load_from_manifest_text (sample_driver_env\<lparr>de_create := sandbox_create sample_create\<rparr>) sample_files (\<lambda>_. Some sample_manifest) 0 0
        sample_engine [] policy_init \<noteq> Some (Inr d)"
  by (intro allI no_driver_loads [where ce = sample_create])
    (simp_all add: sample_create_def sample_engine_def engine_limits_default_def budgets_default_def)

end
